theory Spec2Isabelle
  imports Main "HOL-Library.Word"
begin

section \<open>Data shared by the two sketches\<close>

text \<open>
  The repository holds two Arduino sketches, a TCP client and a TCP server, each a state
  machine driven by \<^verbatim>\<open>loop()\<close>. Both declare the same enumeration of eight connection
  states (value 5 is called \<^verbatim>\<open>conn_5_requestSent\<close> in the client and
  \<^verbatim>\<open>conn_5_requestReceived\<close> in the server).
\<close>

datatype ConnectionState_type =
    conn_0_wifiConnectNow
  | conn_1_wifiDelayConnection
  | conn_2_wifiConnected
  | conn_3_clientDelayConnection
  | conn_4_clientConnected
  | conn_5_requestSent
  | conn_6_stopClientNow
  | conn_7_report

abbreviation conn_5_requestReceived :: ConnectionState_type where
  "conn_5_requestReceived \<equiv> conn_5_requestSent"

text \<open>The integer value of an enumerator, for the comparisons \<^verbatim>\<open><\<close> and \<^verbatim>\<open><=\<close> of the source.\<close>

fun state_num :: "ConnectionState_type \<Rightarrow> nat" where
  "state_num conn_0_wifiConnectNow = 0"
| "state_num conn_1_wifiDelayConnection = 1"
| "state_num conn_2_wifiConnected = 2"
| "state_num conn_3_clientDelayConnection = 3"
| "state_num conn_4_clientConnected = 4"
| "state_num conn_5_requestSent = 5"
| "state_num conn_6_stopClientNow = 6"
| "state_num conn_7_report = 7"

text \<open>
  \<^verbatim>\<open>unsigned long\<close> is 32 bits wide on the board; sums of time stamps and counters wrap
  around as the machine's do.
\<close>

type_synonym ulong = "32 word"

definition wifiConnectDelay :: ulong where "wifiConnectDelay = 5000"
definition clientConnectDelay :: ulong where "clientConnectDelay = 100"
definition readingTimeOut :: ulong where "readingTimeOut = 10000"
definition heartbeatPeriod :: ulong where "heartbeatPeriod = 1000"
definition reportingTimeout :: ulong where "reportingTimeout = 120000"

definition CR :: char where "CR = CHR 0x0D"
definition LF :: char where "LF = CHR 0x0A"
definition NUL :: char where "NUL = CHR 0x00"

text \<open>
  Every call to an external collaborator (serial monitor, WiFi driver, TCP socket) is
  recorded, in order, with its arguments. \<open>PrintSecs\<close> stands for
  \<^verbatim>\<open>Serial.println( (float) millis() / 1000. )\<close>; the printed number is not modelled.
  \<open>Printf fmt args\<close> stands for \<^verbatim>\<open>sprintf( s200, fmt, args ); Serial.print( s200 )\<close>.
  \<open>PrintlnSSID\<close> prints the macro \<^verbatim>\<open>SECRET_SSID\<close> of secrets.h, and
  \<open>ReportWifiStatus\<close> stands for the four prints of \<^verbatim>\<open>reportWifiStatus()\<close>, whose
  values (address, signal strength) come from the driver.
\<close>

datatype event =
    Print string
  | Println string
  | PrintNum int
  | PrintSecs
  | Printf string "ulong list"
  | PrintlnSSID
  | ReportWifiStatus
  | WiFiDisconnect
  | WiFiEnd
  | WiFiConfig
  | WiFiBegin
  | ServerBegin
  | ServerAvailable
  | ClientConnect
  | ClientStop
  | ClientRead char
  | ClientPrintln ulong
  | ClientPrint string

text \<open>
  The global variables that both sketches declare. \<open>led13\<close> is output pin 13 (the
  "client connected" flag), \<open>trace\<close> the calls made so far. The general-purpose buffer
  \<^verbatim>\<open>s200\<close> is written and printed at once and is not kept.
\<close>

record common =
  connectionState :: ConnectionState_type
  errors :: ulong
  startReadingAt :: ulong
  lastHeartbeat :: ulong
  wifiConnectTime :: ulong
  clientStopTime :: ulong
  wifiConnections :: ulong
  clientConnections :: ulong
  led13 :: bool
  trace :: "event list"

text \<open>
  What the collaborators answer during one pass of \<^verbatim>\<open>loop()\<close>, in either sketch: one
  field for each call whose result is stored or tested. Every \<open>t_\<close> field is one
  reading of \<^verbatim>\<open>millis()\<close>.
\<close>

record env =
  wifi_status_ok :: bool      \<comment> \<open>\<^verbatim>\<open>WiFi.status() == WL_CONNECTED\<close> in \<^verbatim>\<open>connectToWiFi\<close>\<close>
  t_wifi_check :: ulong       \<comment> \<open>the reading compared with \<^verbatim>\<open>wifiConnectTime + wifiConnectDelay\<close>\<close>
  wifi_begin_ok :: bool       \<comment> \<open>\<^verbatim>\<open>WiFi.begin( ssid, pass ) == WL_CONNECTED\<close>\<close>
  t_wifi_done :: ulong        \<comment> \<open>the reading stored in \<^verbatim>\<open>wifiConnectTime\<close>\<close>
  t_conn_check :: ulong       \<comment> \<open>the reading compared with \<^verbatim>\<open>clientStopTime + clientConnectDelay\<close>\<close>
  client_connected :: bool    \<comment> \<open>\<^verbatim>\<open>client.connected()\<close> when the client was already connected\<close>
  tx_count :: int             \<comment> \<open>the result \<^verbatim>\<open>n\<close> of \<^verbatim>\<open>client.println\<close> or \<^verbatim>\<open>client.print\<close>\<close>
  rx_available :: bool        \<comment> \<open>\<^verbatim>\<open>client.available()\<close> is not zero\<close>
  rx_byte :: char             \<comment> \<open>the character \<^verbatim>\<open>client.read()\<close> returns\<close>
  t_read_check :: ulong       \<comment> \<open>the reading compared with \<^verbatim>\<open>startReadingAt + readingTimeOut\<close>\<close>
  t_stop :: ulong             \<comment> \<open>the reading stored in \<^verbatim>\<open>clientStopTime\<close> after \<^verbatim>\<open>client.stop()\<close>\<close>
  t_hb_check :: ulong         \<comment> \<open>the reading compared with \<^verbatim>\<open>lastHeartbeat + heartbeatPeriod\<close>\<close>
  t_hb_done :: ulong          \<comment> \<open>the reading stored in \<^verbatim>\<open>lastHeartbeat\<close>\<close>

text \<open>
  \<^verbatim>\<open>strcat( buffer, c )\<close> for a one-character string \<^verbatim>\<open>c\<close> and a buffer of 20
  characters: a NUL character is an empty string and appends nothing; writing past the
  end of the array is undefined behaviour, modelled as \<open>None\<close>.
\<close>

definition strcat20 :: "string \<Rightarrow> char \<Rightarrow> string option" where
  "strcat20 buf c =
     (if c = NUL then Some buf
      else if length buf + 2 \<le> 20 then Some (buf @ [c])
      else None)"

text \<open>The one-character C string \<^verbatim>\<open>c\<close> as printed by \<^verbatim>\<open>Serial.print( c )\<close>.\<close>

definition cstr :: "char \<Rightarrow> string" where
  "cstr c = (if c = NUL then [] else [c])"

definition emit :: "event list \<Rightarrow> 'a common_scheme \<Rightarrow> 'a common_scheme" where
  "emit evs s = s\<lparr>trace := trace s @ evs\<rparr>"

definition changeConnectionState ::
  "ConnectionState_type \<Rightarrow> 'a common_scheme \<Rightarrow> 'a common_scheme" where
  "changeConnectionState newState s =
     emit [Printf ''(S%d)'' [of_nat (state_num newState)]] (s\<lparr>connectionState := newState\<rparr>)"

text \<open>\<^verbatim>\<open>stopTCPconnection()\<close>, the same text in both sketches; \<open>t\<close> is the reading of
  \<^verbatim>\<open>millis()\<close> stored in \<^verbatim>\<open>clientStopTime\<close>.\<close>

definition stopTCPconnection :: "ulong \<Rightarrow> 'a common_scheme \<Rightarrow> 'a common_scheme" where
  "stopTCPconnection t s =
     (if connectionState s \<noteq> conn_6_stopClientNow then s
      else changeConnectionState conn_7_report
             (emit [Print ''disconnected from client at '', PrintSecs]
               ((emit [Print ''stopping... '', ClientStop] s)
                  \<lparr>clientStopTime := t, led13 := False\<rparr>)))"

text \<open>\<^verbatim>\<open>lastConnectionReport()\<close>, the same text in both sketches.\<close>

definition lastConnectionReport :: "'a common_scheme \<Rightarrow> 'a common_scheme" where
  "lastConnectionReport s =
     (if connectionState s \<noteq> conn_7_report then s
      else changeConnectionState conn_3_clientDelayConnection
             (emit [Printf ''Connections WiFi: %ld, client: %ld. Errors: %ld at ''
                      [wifiConnections s, clientConnections s, errors s],
                    PrintSecs,
                    Println (''------------------------------------------------------------'' @ [LF])]
                s))"

text \<open>
  A tick function called once for each element of a list of answers, in order, as
  \<^verbatim>\<open>loop()\<close> is called again and again; it stops at the first undefined step.
\<close>

fun ticks :: "('e \<Rightarrow> 's \<Rightarrow> 's option) \<Rightarrow> 'e list \<Rightarrow> 's \<Rightarrow> 's option" where
  "ticks f [] s = Some s"
| "ticks f (e # es) s = (case f e s of None \<Rightarrow> None | Some s' \<Rightarrow> ticks f es s')"

section \<open>The client sketch\<close>

record client = common +
  messageCounter :: ulong
  serverResponse :: string

text \<open>The values of the globals at start-up.\<close>

definition client_init :: client where
  "client_init =
     \<lparr>connectionState = conn_0_wifiConnectNow, errors = 0, startReadingAt = 0,
      lastHeartbeat = 0, wifiConnectTime = 0, clientStopTime = 0, wifiConnections = 0,
      clientConnections = 0, led13 = False, trace = [],
      messageCounter = 1230001, serverResponse = []\<rparr>"

text \<open>
  What the collaborators answer during one pass of the client's \<^verbatim>\<open>loop()\<close>: the
  fields of \<open>env\<close> and three more.
\<close>

record cenv = env +
  connect_ok :: bool          \<comment> \<open>\<^verbatim>\<open>client.connect( serverAddress, serverPort )\<close>\<close>
  t_conn_fail :: ulong        \<comment> \<open>the reading stored in \<^verbatim>\<open>clientStopTime\<close> after a failed connect\<close>
  t_sent :: ulong             \<comment> \<open>the reading stored in \<^verbatim>\<open>startReadingAt\<close> after the request\<close>

text \<open>The part of \<^verbatim>\<open>connectToWiFi()\<close> after the switch: "try connecting to wifi now".\<close>

definition tryWiFi_c :: "cenv \<Rightarrow> client \<Rightarrow> client" where
  "tryWiFi_c e s =
     (let s1 = emit [Print ''...'', WiFiDisconnect, WiFiEnd, WiFiBegin] s;
          s2 = (if wifi_begin_ok e
                then changeConnectionState conn_2_wifiConnected
                       (emit [Print (LF # ''Connected to wifi at ''), PrintSecs, ReportWifiStatus] s1)
                else changeConnectionState conn_1_wifiDelayConnection
                       (emit [Print ''...''] s1))
      in s2\<lparr>wifiConnectTime := t_wifi_done e\<rparr>)"

definition connectToWiFi_c :: "cenv \<Rightarrow> client \<Rightarrow> client" where
  "connectToWiFi_c e s =
     (case connectionState s of
        conn_0_wifiConnectNow \<Rightarrow>
          tryWiFi_c e
            ((emit [Print ''Connecting to WiFi, SSID = '', PrintlnSSID] s)
               \<lparr>wifiConnections := wifiConnections s + 1\<rparr>)
      | conn_1_wifiDelayConnection \<Rightarrow>
          if wifiConnectTime s + wifiConnectDelay > t_wifi_check e then s
          else tryWiFi_c e s
      | _ \<Rightarrow>
          if wifi_status_ok e then s
          else if wifiConnectTime s + wifiConnectDelay > t_wifi_check e then s
          else tryWiFi_c e
                 ((emit [Print ''Wifi connection lost. Reconnecting, SSID = '', PrintlnSSID] s)
                    \<lparr>wifiConnections := wifiConnections s + 1, led13 := False\<rparr>))"

text \<open>The part of \<^verbatim>\<open>connectToServer()\<close> after the switch: "try connecting with server now".\<close>

definition tryServer :: "cenv \<Rightarrow> client \<Rightarrow> client" where
  "tryServer e s =
     (let s1 = emit [Print ''Connecting client... at '', PrintSecs, ClientConnect] s
      in if connect_ok e
         then changeConnectionState conn_4_clientConnected
                ((emit [Print ''connected to server at '', PrintSecs] s1)
                   \<lparr>led13 := True, clientConnections := clientConnections s1 + 1\<rparr>)
         else changeConnectionState conn_3_clientDelayConnection
                (emit [Print ''not connected yet at '', PrintSecs]
                   (s1\<lparr>errors := errors s1 + 1, clientStopTime := t_conn_fail e\<rparr>)))"

definition connectToServer :: "cenv \<Rightarrow> client \<Rightarrow> client" where
  "connectToServer e s =
     (if state_num (connectionState s) < state_num conn_2_wifiConnected then s
      else case connectionState s of
        conn_2_wifiConnected \<Rightarrow> tryServer e s
      | conn_3_clientDelayConnection \<Rightarrow>
          if clientStopTime s + clientConnectDelay > t_conn_check e then s
          else tryServer e (changeConnectionState conn_2_wifiConnected s)
      | _ \<Rightarrow>
          if \<not> client_connected e
          then changeConnectionState conn_6_stopClientNow
                 (emit [Print ''**** Error: client connection was lost at '', PrintSecs]
                    (s\<lparr>errors := errors s + 1\<rparr>))
          else s)"

definition sendRequestToServer :: "cenv \<Rightarrow> client \<Rightarrow> client" where
  "sendRequestToServer e s =
     (if connectionState s \<noteq> conn_4_clientConnected then s
      else
        let s1 = emit [ClientPrintln (messageCounter s)] s;
            s2 = (if tx_count e \<noteq> 9
                  then emit [Print ''==================================='', PrintNum (tx_count e)] s1
                  else s1);
            s3 = emit [Printf ''request sent: %ld at '' [messageCounter s2], PrintSecs] s2
        in changeConnectionState conn_5_requestSent
             (s3\<lparr>serverResponse := [], startReadingAt := t_sent e\<rparr>))"

text \<open>
  \<^verbatim>\<open>assembleServerResponse()\<close>. The result is \<open>None\<close> when \<^verbatim>\<open>strcat\<close> would write
  past the end of \<^verbatim>\<open>serverResponse\<close>.
\<close>

definition assembleServerResponse :: "cenv \<Rightarrow> client \<Rightarrow> client option" where
  "assembleServerResponse e s =
     (if connectionState s \<noteq> conn_5_requestSent then Some s
      else if rx_available e then
        let c = rx_byte e;
            s1 = emit [Print ''['', ClientRead c] s;
            r2 = (if \<not> (c = CR \<or> c = LF)
                  then map_option (\<lambda>buf. emit [Print (cstr c)] (s1\<lparr>serverResponse := buf\<rparr>))
                         (strcat20 (serverResponse s1) c)
                  else Some (emit [Print (if c = CR then ''(CR)''
                                          else if c = LF then ''(LF)'' else ''(??)'')] s1))
        in case r2 of
             None \<Rightarrow> None
           | Some s2 \<Rightarrow>
               let s3 = emit [Print '']''] s2
               in if c = LF
                  then Some (changeConnectionState conn_6_stopClientNow
                         ((emit [Print (''response read: '' @ serverResponse s3 @ '' at ''), PrintSecs] s3)
                            \<lparr>messageCounter := messageCounter s3 + 1\<rparr>))
                  else Some s3
      else if startReadingAt s + readingTimeOut < t_read_check e
      then Some (changeConnectionState conn_6_stopClientNow
             (emit [Print (LF # ''**** Error: timeout while reading response at ''), PrintSecs]
                (s\<lparr>errors := errors s + 1\<rparr>)))
      else Some s)"

definition heartbeat_c :: "cenv \<Rightarrow> client \<Rightarrow> client" where
  "heartbeat_c e s =
     (if lastHeartbeat s + heartbeatPeriod < t_hb_check e
      then
        let s1 = (if state_num (connectionState s) \<le> state_num conn_2_wifiConnected
                     \<or> connectionState s = conn_4_clientConnected
                  then emit [Println []] s else s)
        in (emit [Printf ''******** Heartbeat - connection state is S%d at ''
                    [of_nat (state_num (connectionState s1))], PrintSecs] s1)
             \<lparr>lastHeartbeat := t_hb_done e\<rparr>
      else s)"

text \<open>One pass of the client's \<^verbatim>\<open>loop()\<close>, and a run of passes.\<close>

definition loop_c :: "cenv \<Rightarrow> client \<Rightarrow> client option" where
  "loop_c e s =
     (case assembleServerResponse e
             (sendRequestToServer e (connectToServer e (connectToWiFi_c e s))) of
        None \<Rightarrow> None
      | Some s4 \<Rightarrow>
          Some (heartbeat_c e (lastConnectionReport (stopTCPconnection (t_stop e) s4))))"

definition run_c :: "cenv list \<Rightarrow> client \<Rightarrow> client option" where
  "run_c = ticks loop_c"

section \<open>The server sketch\<close>

record server = common +
  ConnTriesAfterStateChange :: ulong
  reportingStartTime :: ulong
  reportToSerialMonitor :: bool
  clientRequest :: string

definition server_init :: server where
  "server_init =
     \<lparr>connectionState = conn_0_wifiConnectNow, errors = 0, startReadingAt = 0,
      lastHeartbeat = 0, wifiConnectTime = 0, clientStopTime = 0, wifiConnections = 0,
      clientConnections = 0, led13 = False, trace = [],
      ConnTriesAfterStateChange = 0, reportingStartTime = 0, reportToSerialMonitor = True,
      clientRequest = []\<rparr>"

text \<open>
  What the collaborators answer during one pass of the server's \<^verbatim>\<open>loop()\<close>: the
  fields of \<open>env\<close> and six more. The pulses on pins 10 to 12 (oscilloscope cues) are
  not modelled.
\<close>

record senv = env +
  t_wifi_start :: ulong       \<comment> \<open>the reading stored in \<^verbatim>\<open>reportingStartTime\<close> before a WiFi attempt\<close>
  accept_connected :: bool    \<comment> \<open>\<^verbatim>\<open>client.connected()\<close> after \<^verbatim>\<open>client = server.available()\<close>\<close>
  t_accept_report :: ulong    \<comment> \<open>the reading stored in \<^verbatim>\<open>reportingStartTime\<close> after an accept\<close>
  t_accept_start :: ulong     \<comment> \<open>the reading stored in \<^verbatim>\<open>startReadingAt\<close> after an accept\<close>
  t_resp :: ulong             \<comment> \<open>the reading stored in \<^verbatim>\<open>startReadingAt\<close> after the response\<close>
  t_hb_window :: ulong        \<comment> \<open>the reading compared with \<^verbatim>\<open>reportingStartTime + reportingTimeout\<close>\<close>

definition tryWiFi_s :: "senv \<Rightarrow> server \<Rightarrow> server" where
  "tryWiFi_s e s =
     (let s1 = emit [WiFiDisconnect, WiFiEnd, WiFiConfig, WiFiBegin]
                 ((emit [Print ''...''] s)
                    \<lparr>reportToSerialMonitor := True, reportingStartTime := t_wifi_start e\<rparr>);
          s2 = (if wifi_begin_ok e
                then changeConnectionState conn_2_wifiConnected
                       (emit [Print (LF # ''Connected to wifi at ''), PrintSecs, ReportWifiStatus,
                              ServerBegin]
                          (s1\<lparr>ConnTriesAfterStateChange := 0\<rparr>))
                else changeConnectionState conn_1_wifiDelayConnection
                       (emit [Print ''...''] s1))
      in s2\<lparr>wifiConnectTime := t_wifi_done e\<rparr>)"

definition connectToWiFi_s :: "senv \<Rightarrow> server \<Rightarrow> server" where
  "connectToWiFi_s e s =
     (case connectionState s of
        conn_0_wifiConnectNow \<Rightarrow>
          tryWiFi_s e
            ((emit [Print ''Connecting to WiFi, SSID = '', PrintlnSSID] s)
               \<lparr>wifiConnections := wifiConnections s + 1\<rparr>)
      | conn_1_wifiDelayConnection \<Rightarrow>
          if wifiConnectTime s + wifiConnectDelay > t_wifi_check e then s
          else tryWiFi_s e s
      | _ \<Rightarrow>
          if wifi_status_ok e then s
          else if wifiConnectTime s + wifiConnectDelay > t_wifi_check e then s
          else tryWiFi_s e
                 ((emit [Print ''Wifi connection lost. Reconnecting, SSID = '', PrintlnSSID] s)
                    \<lparr>wifiConnections := wifiConnections s + 1, led13 := False\<rparr>))"

text \<open>The part of \<^verbatim>\<open>connectToClient()\<close> after the switch: "try connecting client now".\<close>

definition tryClient :: "senv \<Rightarrow> server \<Rightarrow> server" where
  "tryClient e s =
     (let s1 = (if ConnTriesAfterStateChange s \<le> 20 \<and> reportToSerialMonitor s
                then emit [Print ''<''] s else s);
          s2 = emit [ServerAvailable] s1;
          n = ConnTriesAfterStateChange s2;
          s3 = s2\<lparr>ConnTriesAfterStateChange := n + 1\<rparr>;
          s4 = (if n \<le> 20 \<and> reportToSerialMonitor s3
                then emit [Print (if ConnTriesAfterStateChange s3 \<noteq> 21 then ''>'' else ''...>'')] s3
                else s3)
      in if accept_connected e
         then changeConnectionState conn_4_clientConnected
                ((emit [Print (LF # ''connected to client at ''), PrintSecs]
                    (s4\<lparr>reportToSerialMonitor := True, reportingStartTime := t_accept_report e\<rparr>))
                   \<lparr>led13 := True, clientConnections := clientConnections s4 + 1,
                    clientRequest := [], startReadingAt := t_accept_start e\<rparr>)
         else s4)"

definition connectToClient :: "senv \<Rightarrow> server \<Rightarrow> server" where
  "connectToClient e s =
     (if state_num (connectionState s) < state_num conn_2_wifiConnected then s
      else case connectionState s of
        conn_2_wifiConnected \<Rightarrow> tryClient e s
      | conn_3_clientDelayConnection \<Rightarrow>
          if clientStopTime s + clientConnectDelay > t_conn_check e then s
          else tryClient e
                 (changeConnectionState conn_2_wifiConnected (s\<lparr>ConnTriesAfterStateChange := 0\<rparr>))
      | _ \<Rightarrow>
          if \<not> client_connected e
          then changeConnectionState conn_6_stopClientNow
                 (emit [Print ''Client disconnected (or connection lost) at '', PrintSecs] s)
          else s)"

text \<open>
  \<^verbatim>\<open>assembleClientRequest()\<close>. The result is \<open>None\<close> when \<^verbatim>\<open>strcat\<close> would write
  past the end of \<^verbatim>\<open>clientRequest\<close>.
\<close>

definition assembleClientRequest :: "senv \<Rightarrow> server \<Rightarrow> server option" where
  "assembleClientRequest e s =
     (if connectionState s \<noteq> conn_4_clientConnected then Some s
      else if rx_available e then
        let c = rx_byte e;
            s1 = emit [Print ''['', ClientRead c] s
        in case strcat20 (clientRequest s1) c of
             None \<Rightarrow> None
           | Some buf \<Rightarrow>
               let s2 = emit [Print (if \<not> (c = CR \<or> c = LF) then cstr c
                                     else if c = CR then ''(CR)''
                                     else if c = LF then ''(LF)'' else ''(??)''),
                              Print '']'']
                          (s1\<lparr>clientRequest := buf\<rparr>)
               in if c = LF
                  then Some (changeConnectionState conn_5_requestReceived
                         (emit [Print (LF # ''request read at ''), PrintSecs] s2))
                  else Some s2
      else if startReadingAt s + readingTimeOut < t_read_check e
      then Some (changeConnectionState conn_6_stopClientNow
             (emit [Print (LF # ''**** Error: timeout while reading request at ''), PrintSecs]
                (s\<lparr>errors := errors s + 1\<rparr>)))
      else Some s)"

definition sendResponseToClient :: "senv \<Rightarrow> server \<Rightarrow> server" where
  "sendResponseToClient e s =
     (if connectionState s \<noteq> conn_5_requestReceived then s
      else
        let s1 = emit [ClientPrint (clientRequest s)] s;
            s2 = (if tx_count e \<noteq> 9
                  then emit [Print ''==================================='', PrintNum (tx_count e)] s1
                  else s1);
            s3 = emit [Print ''response sent at '', PrintSecs] s2
        in changeConnectionState conn_4_clientConnected
             (s3\<lparr>clientRequest := [], startReadingAt := t_resp e\<rparr>))"

definition heartbeat_s :: "senv \<Rightarrow> server \<Rightarrow> server" where
  "heartbeat_s e s =
     (if lastHeartbeat s + heartbeatPeriod < t_hb_check e
      then
        let s0 = s\<lparr>ConnTriesAfterStateChange := 0\<rparr>
        in if reportingStartTime s0 + reportingTimeout > t_hb_window e
           then
             let s1 = (if state_num (connectionState s0) \<le> state_num conn_2_wifiConnected
                          \<or> connectionState s0 = conn_4_clientConnected
                       then emit [Println []] s0 else s0)
             in (emit [Printf ''******** Heartbeat - connection state is S%d at ''
                         [of_nat (state_num (connectionState s1))], PrintSecs] s1)
                  \<lparr>lastHeartbeat := t_hb_done e\<rparr>
           else if reportToSerialMonitor s0
           then emit [Print (LF # LF # ''No connection since a while: stopping reporting at ''),
                      PrintSecs]
                  (s0\<lparr>reportToSerialMonitor := False\<rparr>)
           else s0
      else s)"

text \<open>One pass of the server's \<^verbatim>\<open>loop()\<close>, and a run of passes.\<close>

definition loop_s :: "senv \<Rightarrow> server \<Rightarrow> server option" where
  "loop_s e s =
     (case assembleClientRequest e (connectToClient e (connectToWiFi_s e s)) of
        None \<Rightarrow> None
      | Some s3 \<Rightarrow>
          Some (heartbeat_s e
                 (lastConnectionReport
                    (stopTCPconnection (t_stop e) (sendResponseToClient e s3)))))"

definition run_s :: "senv list \<Rightarrow> server \<Rightarrow> server option" where
  "run_s = ticks loop_s"

section \<open>Observations on the trace\<close>

text \<open>The counter values transmitted by \<^verbatim>\<open>client.println( messageCounter )\<close>, in order.\<close>

fun request_of :: "event \<Rightarrow> ulong list" where
  "request_of (ClientPrintln w) = [w]"
| "request_of _ = []"

definition requests :: "event list \<Rightarrow> ulong list" where
  "requests tr = concat (map request_of tr)"

text \<open>The lines transmitted by \<^verbatim>\<open>client.print( clientRequest )\<close>, in order.\<close>

fun response_of :: "event \<Rightarrow> string list" where
  "response_of (ClientPrint str) = [str]"
| "response_of _ = []"

definition responses :: "event list \<Rightarrow> string list" where
  "responses tr = concat (map response_of tr)"

text \<open>The characters taken from the socket by \<^verbatim>\<open>client.read()\<close>, in order.\<close>

fun read_of :: "event \<Rightarrow> char list" where
  "read_of (ClientRead c) = [c]"
| "read_of _ = []"

definition reads :: "event list \<Rightarrow> char list" where
  "reads tr = concat (map read_of tr)"

text \<open>
  The client prints a line that starts with "response read: " when, and only when, it
  has consumed the line feed that ends a response: one such line for each completed
  exchange.
\<close>

fun is_response_read :: "event \<Rightarrow> bool" where
  "is_response_read (Print str) = (take 15 str = ''response read: '')"
| "is_response_read _ = False"

definition completed :: "event list \<Rightarrow> nat" where
  "completed tr = length (filter is_response_read tr)"

text \<open>
  The values the requests of a trace carry when the counter is \<open>c\<close> at the start of
  the trace and moves up by one at each completed exchange.
\<close>

fun expected :: "ulong \<Rightarrow> event list \<Rightarrow> ulong list" where
  "expected c [] = []"
| "expected c (ev # tr) =
     (case ev of
        ClientPrintln w \<Rightarrow> c # expected c tr
      | _ \<Rightarrow> expected (if is_response_read ev then c + 1 else c) tr)"

text \<open>Calls of \<^verbatim>\<open>WiFi.begin\<close>, \<^verbatim>\<open>client.connect\<close> and \<^verbatim>\<open>server.available\<close> so far.\<close>

definition link_attempts :: "event list \<Rightarrow> nat" where
  "link_attempts tr = count_list tr WiFiBegin"

definition connect_attempts :: "event list \<Rightarrow> nat" where
  "connect_attempts tr = count_list tr ClientConnect"

definition accept_polls :: "event list \<Rightarrow> nat" where
  "accept_polls tr = count_list tr ServerAvailable"

text \<open>
  Calls of \<^verbatim>\<open>client.stop\<close>, and the lines "not connected yet at" that the client prints
  after a call of \<^verbatim>\<open>client.connect\<close> that failed.
\<close>

definition stops :: "event list \<Rightarrow> nat" where
  "stops tr = count_list tr ClientStop"

definition failed_connects :: "event list \<Rightarrow> nat" where
  "failed_connects tr = count_list tr (Print ''not connected yet at '')"

text \<open>
  The "<" marks the server prints before an accept poll, and the states entered through
  \<^verbatim>\<open>changeConnectionState\<close> (the arguments of its "(S%d)" prints).
\<close>

definition poll_marks :: "event list \<Rightarrow> nat" where
  "poll_marks tr = count_list tr (Print ''<'')"

fun entered_of :: "event \<Rightarrow> ulong list" where
  "entered_of (Printf fmt args) = (if fmt = ''(S%d)'' then args else [])"
| "entered_of _ = []"

definition entered :: "event list \<Rightarrow> ulong list" where
  "entered tr = concat (map entered_of tr)"

text \<open>What one accept poll prints when the counter stands at \<open>n\<close>.\<close>

definition poll_output :: "ulong \<Rightarrow> bool \<Rightarrow> event list" where
  "poll_output n report =
     (if n \<le> 20 \<and> report
      then [Print ''<'', ServerAvailable, Print (if n = 20 then ''...>'' else ''>'')]
      else [ServerAvailable])"

text \<open>A pass of the server in which the link is up, no peer is pending and the heartbeat is not due.\<close>

definition idle_poll :: "ulong \<Rightarrow> senv \<Rightarrow> bool" where
  "idle_poll lh e \<longleftrightarrow>
     wifi_status_ok e \<and> \<not> accept_connected e \<and> \<not> lh + heartbeatPeriod < t_hb_check e"

text \<open>
  The heartbeat lines printed so far, and the announcements that reporting stops.
\<close>

fun is_heartbeat :: "event \<Rightarrow> bool" where
  "is_heartbeat (Printf fmt args) = (fmt = ''******** Heartbeat - connection state is S%d at '')"
| "is_heartbeat _ = False"

definition heartbeats :: "event list \<Rightarrow> nat" where
  "heartbeats tr = length (filter is_heartbeat tr)"

definition announcements :: "event list \<Rightarrow> nat" where
  "announcements tr =
     count_list tr (Print (LF # LF # ''No connection since a while: stopping reporting at ''))"

text \<open>
  The events that put reporting back on: a link attempt and an accepted peer (the
  server prints "connected to client at" for each).
\<close>

definition retriggers :: "event list \<Rightarrow> nat" where
  "retriggers tr =
     count_list tr WiFiBegin + count_list tr (Print (LF # ''connected to client at ''))"

text \<open>One if reporting is on, nothing if it is off.\<close>

definition reporting :: "server \<Rightarrow> nat" where
  "reporting s = (if reportToSerialMonitor s then 1 else 0)"

section \<open>Invariants of a run\<close>

text \<open>
  The client's counter is its start value plus the number of completed exchanges, and
  every request transmitted so far carried the value the counter had then.
\<close>

definition counter_inv :: "client \<Rightarrow> bool" where
  "counter_inv s \<longleftrightarrow>
     messageCounter s = 1230001 + of_nat (completed (trace s))
     \<and> requests (trace s) = expected 1230001 (trace s)"

section \<open>Concrete inputs\<close>

text \<open>
  A pass of the client in which the link is up, the peer is connected, every call
  succeeds, nothing is waiting to be read and every clock reading is 0; the passes of the
  examples below are changes of it.
\<close>

definition quiet_c :: cenv where
  "quiet_c =
     \<lparr>wifi_status_ok = True, t_wifi_check = 0, wifi_begin_ok = True, t_wifi_done = 0,
      t_conn_check = 0, client_connected = True, tx_count = 9, rx_available = False,
      rx_byte = NUL, t_read_check = 0, t_stop = 0, t_hb_check = 0, t_hb_done = 0,
      connect_ok = True, t_conn_fail = 0, t_sent = 0\<rparr>"

text \<open>The same for the server; no peer is waiting to be accepted.\<close>

definition quiet_s :: senv where
  "quiet_s =
     \<lparr>wifi_status_ok = True, t_wifi_check = 0, wifi_begin_ok = True, t_wifi_done = 0,
      t_conn_check = 0, client_connected = True, tx_count = 9, rx_available = False,
      rx_byte = NUL, t_read_check = 0, t_stop = 0, t_hb_check = 0, t_hb_done = 0,
      t_wifi_start = 0, accept_connected = False, t_accept_report = 0, t_accept_start = 0,
      t_resp = 0, t_hb_window = 0\<rparr>"

text \<open>A client waiting for a response since 1100 ms, and a server waiting for a request.\<close>

definition waiting_c :: client where
  "waiting_c = client_init\<lparr>connectionState := conn_5_requestSent, startReadingAt := 1100\<rparr>"

definition waiting_s :: server where
  "waiting_s = server_init\<lparr>connectionState := conn_4_clientConnected, startReadingAt := 1100\<rparr>"

text \<open>Passes that hand the characters of a string to the assembler, one in each pass.\<close>

definition bytes_c :: "string \<Rightarrow> cenv list" where
  "bytes_c str = map (\<lambda>ch. quiet_c\<lparr>rx_available := True, rx_byte := ch\<rparr>) str"

definition bytes_s :: "string \<Rightarrow> senv list" where
  "bytes_s str = map (\<lambda>ch. quiet_s\<lparr>rx_available := True, rx_byte := ch\<rparr>) str"

text \<open>
  A server that has just accepted a peer (one pass from start-up, in which the link comes
  up and a peer is waiting), and a pass in which that peer is found to be gone.
\<close>

definition accepting_s :: senv where
  "accepting_s =
     quiet_s\<lparr>t_wifi_start := 900, t_wifi_done := 1000, accept_connected := True,
             t_accept_report := 1010, t_accept_start := 1010, t_read_check := 1020,
             t_hb_check := 1020, t_hb_window := 1020, t_hb_done := 1020\<rparr>"

definition connected_s :: server where
  "connected_s = the (loop_s accepting_s server_init)"

definition peer_gone_s :: senv where
  "peer_gone_s =
     quiet_s\<lparr>client_connected := False, t_stop := 1500, t_hb_check := 1510,
             t_hb_window := 1510, t_hb_done := 1510\<rparr>"

text \<open>
  Three passes of the client. In the first the link comes up, the server accepts the
  connection and the request is sent; in the second, more than ten seconds later, no
  character has arrived; in the third the retry delay has passed and the client connects
  and sends again.
\<close>

definition timeout_run :: "cenv list" where
  "timeout_run =
    [quiet_c\<lparr>t_wifi_done := 1000, t_sent := 1100, t_read_check := 1100,
             t_hb_check := 1100, t_hb_done := 1100\<rparr>,
     quiet_c\<lparr>t_wifi_check := 11200, t_read_check := 11200, t_stop := 11210,
             t_hb_check := 11220, t_hb_done := 11220\<rparr>,
     quiet_c\<lparr>t_wifi_check := 11400, t_conn_check := 11400, t_sent := 11410,
             t_read_check := 11410, t_hb_check := 11420, t_hb_done := 11420\<rparr>]"

text \<open>The same, but in the second pass a line feed arrives and ends the exchange.\<close>

definition success_run :: "cenv list" where
  "success_run =
    [quiet_c\<lparr>t_wifi_done := 1000, t_sent := 1100, t_read_check := 1100,
             t_hb_check := 1100, t_hb_done := 1100\<rparr>,
     quiet_c\<lparr>t_wifi_check := 1200, rx_available := True, rx_byte := LF, t_stop := 1210,
             t_hb_check := 1220, t_hb_done := 1220\<rparr>,
     quiet_c\<lparr>t_wifi_check := 1400, t_conn_check := 1400, t_sent := 1410,
             t_read_check := 1410, t_hb_check := 1420, t_hb_done := 1420\<rparr>]"

text \<open>
  Three passes of the client. In the first the link comes up (at 1000 ms), the connection
  is made and the request is sent. In the second the server is found to have dropped the
  connection, and the client stops it at 6010 ms. In the third, some 10 ms later, the
  link is found lost, is associated again at once (more than 5000 ms have passed since
  1000 ms), and the client connects to the server.
\<close>

definition lost_link_before :: "cenv list" where
  "lost_link_before =
    [quiet_c\<lparr>t_wifi_done := 1000, t_sent := 1100, t_read_check := 1100,
             t_hb_check := 1100, t_hb_done := 1100\<rparr>,
     quiet_c\<lparr>t_wifi_check := 6000, t_conn_check := 6000, client_connected := False,
             t_stop := 6010, t_hb_check := 6012, t_hb_done := 6012\<rparr>]"

definition lost_link_pass :: cenv where
  "lost_link_pass =
     quiet_c\<lparr>wifi_status_ok := False, t_wifi_check := 6020, t_wifi_done := 6030,
             t_conn_check := 6035, t_sent := 6040, t_read_check := 6040,
             t_hb_check := 6045, t_hb_done := 6045\<rparr>"

text \<open>
  States after a failed link attempt at 1000 ms and after a transport stop at 6010 ms,
  and passes whose clock readings are past both delays.
\<close>

definition retry_wait_c :: client where
  "retry_wait_c = client_init\<lparr>connectionState := conn_1_wifiDelayConnection, wifiConnectTime := 1000\<rparr>"

definition retry_wait_s :: server where
  "retry_wait_s = server_init\<lparr>connectionState := conn_1_wifiDelayConnection, wifiConnectTime := 1000\<rparr>"

definition stopped_c :: client where
  "stopped_c = client_init\<lparr>connectionState := conn_3_clientDelayConnection,
      wifiConnectTime := 1000, clientStopTime := 6010\<rparr>"

definition stopped_s :: server where
  "stopped_s = server_init\<lparr>connectionState := conn_3_clientDelayConnection,
      wifiConnectTime := 1000, clientStopTime := 6010\<rparr>"

definition delay_over_c :: cenv where
  "delay_over_c = quiet_c\<lparr>t_wifi_check := 6000, t_wifi_done := 6100, t_conn_check := 6110\<rparr>"

definition delay_over_s :: senv where
  "delay_over_s = quiet_s\<lparr>t_wifi_check := 6000, t_wifi_done := 6100, t_conn_check := 6110\<rparr>"

text \<open>
  Passes of a server whose link is up and that has no peer: the first pass after
  start-up, a pass in the first second (no heartbeat due), a pass just after the first
  second (heartbeat due), and a pass after that heartbeat. Then a pass in which every
  delay has passed, and a server in \<^verbatim>\<open>conn_2_wifiConnected\<close> with its counter at 0.
\<close>

definition link_up_s :: senv where
  "link_up_s = quiet_s\<lparr>t_wifi_start := 100, t_wifi_done := 200, t_hb_check := 210,
      t_hb_window := 210\<rparr>"

definition poll_s :: senv where
  "poll_s = quiet_s\<lparr>t_wifi_check := 300, t_hb_check := 310, t_hb_window := 310\<rparr>"

definition late_poll_s :: senv where
  "late_poll_s = quiet_s\<lparr>t_wifi_check := 1100, t_hb_check := 1110, t_hb_window := 1110\<rparr>"

definition beat_s :: senv where
  "beat_s = quiet_s\<lparr>t_wifi_check := 1001, t_hb_check := 1002, t_hb_window := 1003,
      t_hb_done := 1004\<rparr>"

definition all_due_s :: senv where
  "all_due_s = quiet_s\<lparr>t_wifi_check := 7000, t_wifi_done := 7100, t_conn_check := 7110,
      t_hb_check := 7120, t_hb_done := 7120, t_wifi_start := 7010, t_hb_window := 7120\<rparr>"

definition linked_c :: client where
  "linked_c = client_init\<lparr>connectionState := conn_2_wifiConnected, wifiConnectTime := 1000\<rparr>"

definition polling_s :: server where
  "polling_s = server_init\<lparr>connectionState := conn_2_wifiConnected, wifiConnectTime := 200\<rparr>"

text \<open>
  Passes for a connection that is stopped and made again. In the first the peer is found
  to be gone and the connection is stopped, by the client at 6010 ms and by the server at
  1500 ms; in the second, 40 and 50 ms later, the retry delay has not passed; the third
  (for the client \<open>delay_over_c\<close>) comes 100 ms or more after the stop.
\<close>

definition dropped_c :: cenv where
  "dropped_c = quiet_c\<lparr>t_wifi_check := 6000, t_conn_check := 6000, client_connected := False,
      t_stop := 6010, t_hb_check := 6012, t_hb_done := 6012\<rparr>"

definition early_c :: cenv where
  "early_c = quiet_c\<lparr>t_wifi_check := 6050, t_conn_check := 6050, t_hb_check := 6051\<rparr>"

definition early_s :: senv where
  "early_s = quiet_s\<lparr>t_wifi_check := 1550, t_conn_check := 1550, t_hb_check := 1551,
      t_hb_window := 1551\<rparr>"

definition due_s :: senv where
  "due_s = quiet_s\<lparr>t_wifi_check := 1600, t_conn_check := 1610, t_hb_check := 1611,
      t_hb_window := 1611\<rparr>"

text \<open>
  Passes for a link that does not come up at first: the attempt of the first pass fails
  and is over at 1000 ms; the second pass comes at 3000 ms, within the retry delay; the
  third (\<open>delay_over_c\<close>, \<open>delay_over_s\<close>) comes at 6000 ms.
\<close>

definition link_down_c :: cenv where
  "link_down_c = quiet_c\<lparr>wifi_status_ok := False, wifi_begin_ok := False, t_wifi_done := 1000\<rparr>"

definition link_wait_c :: cenv where
  "link_wait_c = quiet_c\<lparr>wifi_status_ok := False, t_wifi_check := 3000\<rparr>"

definition link_down_s :: senv where
  "link_down_s = quiet_s\<lparr>wifi_status_ok := False, wifi_begin_ok := False, t_wifi_start := 900,
      t_wifi_done := 1000\<rparr>"

definition link_wait_s :: senv where
  "link_wait_s = quiet_s\<lparr>wifi_status_ok := False, t_wifi_check := 3000\<rparr>"

text \<open>
  A client and a server whose last heartbeat was printed 500 ms before the 32-bit clock
  wraps around (the server's reporting window is still open), and passes 100 ms later.
\<close>

definition late_c :: client where
  "late_c = waiting_c\<lparr>lastHeartbeat := 4294966796\<rparr>"

definition late_s :: server where
  "late_s = waiting_s\<lparr>lastHeartbeat := 4294966796, reportingStartTime := 4294847000\<rparr>"

definition late_beat_c :: cenv where
  "late_beat_c = quiet_c\<lparr>t_hb_check := 4294966896, t_hb_done := 4294966897\<rparr>"

definition late_beat_s :: senv where
  "late_beat_s = quiet_s\<lparr>t_hb_check := 4294966896, t_hb_window := 4294966896,
      t_hb_done := 4294966897\<rparr>"

text \<open>
  A client and a server that began to wait for input 10001 ms before the 32-bit clock
  wraps around: the sum of that time stamp and \<^verbatim>\<open>readingTimeOut\<close> is the largest
  32-bit value.
\<close>

definition stuck_c :: client where
  "stuck_c = waiting_c\<lparr>startReadingAt := 4294957295\<rparr>"

definition stuck_s :: server where
  "stuck_s = waiting_s\<lparr>startReadingAt := 4294957295\<rparr>"

text \<open>A client waiting for a response that has received the character 1 so far.\<close>

definition partial_c :: client where
  "partial_c = waiting_c\<lparr>serverResponse := ''1''\<rparr>"

section \<open>Basic facts\<close>

lemmas step_defs = emit_def changeConnectionState_def Let_def

lemmas client_defs = loop_c_def run_c_def connectToWiFi_c_def tryWiFi_c_def connectToServer_def
  tryServer_def sendRequestToServer_def assembleServerResponse_def stopTCPconnection_def
  lastConnectionReport_def heartbeat_c_def step_defs strcat20_def cstr_def client_init_def
  wifiConnectDelay_def clientConnectDelay_def readingTimeOut_def heartbeatPeriod_def

lemmas server_defs = loop_s_def run_s_def connectToWiFi_s_def tryWiFi_s_def connectToClient_def
  tryClient_def assembleClientRequest_def sendResponseToClient_def stopTCPconnection_def
  lastConnectionReport_def heartbeat_s_def step_defs strcat20_def cstr_def server_init_def
  wifiConnectDelay_def clientConnectDelay_def readingTimeOut_def heartbeatPeriod_def
  reportingTimeout_def

lemma requests_simps [simp]:
  "requests [] = []"
  "requests (ev # tr) = request_of ev @ requests tr"
  "requests (xs @ ys) = requests xs @ requests ys"
  by (simp_all add: requests_def)

lemma responses_simps [simp]:
  "responses [] = []"
  "responses (ev # tr) = response_of ev @ responses tr"
  "responses (xs @ ys) = responses xs @ responses ys"
  by (simp_all add: responses_def)

lemma reads_simps [simp]:
  "reads [] = []"
  "reads (ev # tr) = read_of ev @ reads tr"
  "reads (xs @ ys) = reads xs @ reads ys"
  by (simp_all add: reads_def)

lemma completed_simps [simp]:
  "completed [] = 0"
  "completed (ev # tr) = (if is_response_read ev then 1 else 0) + completed tr"
  "completed (xs @ ys) = completed xs + completed ys"
  by (simp_all add: completed_def)

lemma link_attempts_simps [simp]:
  "link_attempts [] = 0"
  "link_attempts (ev # tr) = (if ev = WiFiBegin then 1 else 0) + link_attempts tr"
  "link_attempts (xs @ ys) = link_attempts xs + link_attempts ys"
  by (simp_all add: link_attempts_def)

lemma connect_attempts_simps [simp]:
  "connect_attempts [] = 0"
  "connect_attempts (ev # tr) = (if ev = ClientConnect then 1 else 0) + connect_attempts tr"
  "connect_attempts (xs @ ys) = connect_attempts xs + connect_attempts ys"
  by (simp_all add: connect_attempts_def)

lemma accept_polls_simps [simp]:
  "accept_polls [] = 0"
  "accept_polls (ev # tr) = (if ev = ServerAvailable then 1 else 0) + accept_polls tr"
  "accept_polls (xs @ ys) = accept_polls xs + accept_polls ys"
  by (simp_all add: accept_polls_def)

lemma stops_simps [simp]:
  "stops [] = 0"
  "stops (ev # tr) = (if ev = ClientStop then 1 else 0) + stops tr"
  "stops (xs @ ys) = stops xs + stops ys"
  by (simp_all add: stops_def)

lemma failed_connects_simps [simp]:
  "failed_connects [] = 0"
  "failed_connects (ev # tr) =
     (if ev = Print ''not connected yet at '' then 1 else 0) + failed_connects tr"
  "failed_connects (xs @ ys) = failed_connects xs + failed_connects ys"
  by (simp_all add: failed_connects_def)

lemma poll_marks_simps [simp]:
  "poll_marks [] = 0"
  "poll_marks (ev # tr) = (if ev = Print ''<'' then 1 else 0) + poll_marks tr"
  "poll_marks (xs @ ys) = poll_marks xs + poll_marks ys"
  by (simp_all add: poll_marks_def)

lemma entered_simps [simp]:
  "entered [] = []"
  "entered (ev # tr) = entered_of ev @ entered tr"
  "entered (xs @ ys) = entered xs @ entered ys"
  by (simp_all add: entered_def)

lemma heartbeats_simps [simp]:
  "heartbeats [] = 0"
  "heartbeats (ev # tr) = (if is_heartbeat ev then 1 else 0) + heartbeats tr"
  "heartbeats (xs @ ys) = heartbeats xs + heartbeats ys"
  by (simp_all add: heartbeats_def)

lemma announcements_simps [simp]:
  "announcements [] = 0"
  "announcements (ev # tr) =
     (if ev = Print (LF # LF # ''No connection since a while: stopping reporting at '')
      then 1 else 0) + announcements tr"
  "announcements (xs @ ys) = announcements xs + announcements ys"
  by (simp_all add: announcements_def)

lemma ticks_invariant:
  assumes step: "\<And>e s s'. P s \<Longrightarrow> f e s = Some s' \<Longrightarrow> P s'"
    and "P s" "ticks f es s = Some s'"
  shows "P s'"
  using assms(2,3)
proof (induction es arbitrary: s)
  case Nil
  then show ?case by simp
next
  case (Cons e es)
  then show ?case by (auto split: option.splits dest: step)
qed

section \<open>Ticks outside their state do nothing\<close>

text \<open>
  Claim C2. A tick that is called while the connection state is not one it acts in
  returns the state it was given: the connection state, every counter, every time stamp
  (and the buffer, and the trace) are unchanged. The transport tick acts from
  \<^verbatim>\<open>conn_2_wifiConnected\<close> on, the exchange ticks in states 4 and 5, the stop tick in
  state 6, the report tick in state 7. The link tick acts in every state; beyond state 1
  it does nothing as long as the link is still associated.
\<close>

theorem tick_outside_its_state_is_noop:
  "(state_num (connectionState c) < 2 \<longrightarrow> connectToServer ce c = c)
   \<and> (connectionState c \<noteq> conn_4_clientConnected \<longrightarrow> sendRequestToServer ce c = c)
   \<and> (connectionState c \<noteq> conn_5_requestSent \<longrightarrow> assembleServerResponse ce c = Some c)
   \<and> (connectionState c \<noteq> conn_6_stopClientNow \<longrightarrow> stopTCPconnection t c = c)
   \<and> (connectionState c \<noteq> conn_7_report \<longrightarrow> lastConnectionReport c = c)
   \<and> (state_num (connectionState s) < 2 \<longrightarrow> connectToClient se s = s)
   \<and> (connectionState s \<noteq> conn_4_clientConnected \<longrightarrow> assembleClientRequest se s = Some s)
   \<and> (connectionState s \<noteq> conn_5_requestReceived \<longrightarrow> sendResponseToClient se s = s)
   \<and> (connectionState s \<noteq> conn_6_stopClientNow \<longrightarrow> stopTCPconnection t s = s)
   \<and> (connectionState s \<noteq> conn_7_report \<longrightarrow> lastConnectionReport s = s)
   \<and> (2 \<le> state_num (connectionState c') \<and> wifi_status_ok ce \<longrightarrow> connectToWiFi_c ce c' = c')
   \<and> (2 \<le> state_num (connectionState s') \<and> wifi_status_ok se \<longrightarrow> connectToWiFi_s se s' = s')"
proof -
  have link_c: "connectToWiFi_c ce c' = c'"
    if "2 \<le> state_num (connectionState c')" "wifi_status_ok ce"
    using that by (cases "connectionState c'") (simp_all add: connectToWiFi_c_def)
  have link_s: "connectToWiFi_s se s' = s'"
    if "2 \<le> state_num (connectionState s')" "wifi_status_ok se"
    using that by (cases "connectionState s'") (simp_all add: connectToWiFi_s_def)
  show ?thesis
    using link_c link_s
    by (simp add: connectToServer_def sendRequestToServer_def assembleServerResponse_def
        connectToClient_def assembleClientRequest_def sendResponseToClient_def
        stopTCPconnection_def lastConnectionReport_def)
qed

theorem tick_outside_its_state_is_noop_witness:
  "state_num (connectionState client_init) < 2
   \<and> connectToServer quiet_c client_init = client_init
   \<and> sendRequestToServer quiet_c client_init = client_init
   \<and> assembleServerResponse quiet_c client_init = Some client_init
   \<and> stopTCPconnection 7 client_init = client_init
   \<and> lastConnectionReport client_init = client_init
   \<and> state_num (connectionState server_init) < 2
   \<and> connectToClient quiet_s server_init = server_init
   \<and> assembleClientRequest quiet_s server_init = Some server_init
   \<and> sendResponseToClient quiet_s server_init = server_init
   \<and> stopTCPconnection 7 server_init = server_init
   \<and> lastConnectionReport server_init = server_init
   \<and> 2 \<le> state_num (connectionState waiting_c) \<and> wifi_status_ok quiet_c
   \<and> connectToWiFi_c quiet_c waiting_c = waiting_c
   \<and> 2 \<le> state_num (connectionState waiting_s) \<and> wifi_status_ok quiet_s
   \<and> connectToWiFi_s quiet_s waiting_s = waiting_s"
  using tick_outside_its_state_is_noop [of client_init quiet_c 7 server_init quiet_s
      waiting_c waiting_s]
  by (simp add: client_init_def server_init_def waiting_c_def waiting_s_def quiet_c_def
      quiet_s_def)

section \<open>Read timeout\<close>

text \<open>
  In the state that waits for input (client: \<^verbatim>\<open>conn_5_requestSent\<close>, server:
  \<^verbatim>\<open>conn_4_clientConnected\<close>), a tick of the assembler that finds no character
  available and reads a clock value greater than \<^verbatim>\<open>startReadingAt\<close> plus
  \<^verbatim>\<open>readingTimeOut\<close> moves the connection state to \<^verbatim>\<open>conn_6_stopClientNow\<close> and adds
  exactly one to the error counter. The clock value is read as a number: a reading taken
  after the 32-bit clock has wrapped around is smaller than the time stamp and is not
  covered.
\<close>

lemma read_timeout_without_wrap:
  "(connectionState c = conn_5_requestSent \<and> \<not> rx_available ce
      \<and> unat (startReadingAt c) + unat readingTimeOut < unat (t_read_check ce)
    \<longrightarrow> (\<exists>c'. assembleServerResponse ce c = Some c'
           \<and> connectionState c' = conn_6_stopClientNow \<and> errors c' = errors c + 1))
   \<and> (connectionState s = conn_4_clientConnected \<and> \<not> rx_available se
      \<and> unat (startReadingAt s) + unat readingTimeOut < unat (t_read_check se)
    \<longrightarrow> (\<exists>s'. assembleClientRequest se s = Some s'
           \<and> connectionState s' = conn_6_stopClientNow \<and> errors s' = errors s + 1))"
proof -
  have past: "a + d < n" if "unat a + unat d < unat n" for a d n :: ulong
    using that by (simp add: word_less_nat_alt unat_word_ariths)
  show ?thesis
    by (auto simp add: assembleServerResponse_def assembleClientRequest_def step_defs
        dest: past)
qed

text \<open>
  No clock reading is greater than the largest 32-bit value: a client or a server that
  began to wait 10001 ms before the clock wraps around never times out, whatever the
  clock reads.
\<close>

lemma no_reading_past_top: "\<not> (4294967295 :: ulong) < t"
proof -
  have "(4294967295 :: ulong) = - 1" by simp
  then show ?thesis by (simp only: word_order.extremum_strict not_False_eq_True)
qed

lemma read_timeout_never_fires:
  "assembleServerResponse (quiet_c\<lparr>t_read_check := t\<rparr>) stuck_c = Some stuck_c
   \<and> assembleClientRequest (quiet_s\<lparr>t_read_check := t\<rparr>) stuck_s = Some stuck_s"
  by (simp add: stuck_c_def stuck_s_def waiting_c_def waiting_s_def client_init_def
      server_init_def quiet_c_def quiet_s_def assembleServerResponse_def
      assembleClientRequest_def readingTimeOut_def no_reading_past_top)

text \<open>
  Claim C3. The claim says that, in the state that waits for input, when no byte becomes
  available for \<^verbatim>\<open>readingTimeOut\<close> milliseconds after the exchange started, the first
  tick past the deadline moves the connection state to \<^verbatim>\<open>conn_6_stopClientNow\<close> and
  adds one to the error counter. The sketches compare the sum
  \<^verbatim>\<open>startReadingAt + readingTimeOut\<close>, taken in \<^verbatim>\<open>unsigned long\<close>, with the clock. With
  \<^verbatim>\<open>startReadingAt\<close> at 4294957295 the sum is 4294967295, the largest value of the
  clock. A tick 10000 ms after the start (the clock reads 4294967295) is not past the
  deadline; the ticks 10001 ms and 10006 ms after the start, when the clock has wrapped
  around and reads 0 and 5 (the difference of the reading 5 and the time stamp, taken
  in 32 bits, is 10006), are past the deadline and find no character, but they leave
  the state as it is: the connection state is still the waiting state and the error
  counter has not moved, in the client and in the server, for the assembler tick and for
  the whole pass.
\<close>

theorem read_timeout_missed_at_wrap:
  "connectionState stuck_c = conn_5_requestSent
   \<and> startReadingAt stuck_c = 4294957295
   \<and> startReadingAt stuck_c + readingTimeOut = 4294967295
   \<and> \<not> rx_available (quiet_c\<lparr>t_read_check := 5\<rparr>)
   \<and> t_read_check (quiet_c\<lparr>t_read_check := 5\<rparr>) - startReadingAt stuck_c = 10006
   \<and> unat readingTimeOut
        < unat (t_read_check (quiet_c\<lparr>t_read_check := 5\<rparr>) - startReadingAt stuck_c)
   \<and> assembleServerResponse (quiet_c\<lparr>t_read_check := 4294967295\<rparr>) stuck_c = Some stuck_c
   \<and> assembleServerResponse (quiet_c\<lparr>t_read_check := 0\<rparr>) stuck_c = Some stuck_c
   \<and> assembleServerResponse (quiet_c\<lparr>t_read_check := 5\<rparr>) stuck_c = Some stuck_c
   \<and> map_option connectionState (loop_c (quiet_c\<lparr>t_read_check := 5\<rparr>) stuck_c)
        = Some conn_5_requestSent
   \<and> map_option errors (loop_c (quiet_c\<lparr>t_read_check := 5\<rparr>) stuck_c) = Some (errors stuck_c)
   \<and> connectionState stuck_s = conn_4_clientConnected
   \<and> startReadingAt stuck_s = 4294957295
   \<and> \<not> rx_available (quiet_s\<lparr>t_read_check := 5\<rparr>)
   \<and> t_read_check (quiet_s\<lparr>t_read_check := 5\<rparr>) - startReadingAt stuck_s = 10006
   \<and> unat readingTimeOut
        < unat (t_read_check (quiet_s\<lparr>t_read_check := 5\<rparr>) - startReadingAt stuck_s)
   \<and> assembleClientRequest (quiet_s\<lparr>t_read_check := 4294967295\<rparr>) stuck_s = Some stuck_s
   \<and> assembleClientRequest (quiet_s\<lparr>t_read_check := 0\<rparr>) stuck_s = Some stuck_s
   \<and> assembleClientRequest (quiet_s\<lparr>t_read_check := 5\<rparr>) stuck_s = Some stuck_s
   \<and> map_option connectionState (loop_s (quiet_s\<lparr>t_read_check := 5\<rparr>) stuck_s)
        = Some conn_4_clientConnected
   \<and> map_option errors (loop_s (quiet_s\<lparr>t_read_check := 5\<rparr>) stuck_s) = Some (errors stuck_s)"
  by (simp add: stuck_c_def stuck_s_def waiting_c_def waiting_s_def quiet_c_def quiet_s_def
      client_defs server_defs)

section \<open>The server echoes a request\<close>

text \<open>
  Claim C4. Starting in \<^verbatim>\<open>conn_4_clientConnected\<close> with an empty buffer, nine ticks of
  the server's assembler that read the characters of "1230001", a carriage return and a
  line feed, one in each tick, leave exactly these nine characters in
  \<^verbatim>\<open>clientRequest\<close> and the state \<^verbatim>\<open>conn_5_requestReceived\<close>; the response tick that
  follows transmits the same nine characters.
\<close>

theorem server_round_trip:
  assumes "connectionState s = conn_4_clientConnected" and "clientRequest s = []"
    and "map rx_byte es = ''1230001'' @ [CR, LF]" and "list_all rx_available es"
  shows "\<exists>s'. ticks assembleClientRequest es s = Some s'
      \<and> clientRequest s' = ''1230001'' @ [CR, LF]
      \<and> length (clientRequest s') = 9
      \<and> connectionState s' = conn_5_requestReceived
      \<and> responses (trace s') = responses (trace s)
      \<and> responses (trace (sendResponseToClient e s')) =
            responses (trace s) @ [''1230001'' @ [CR, LF]]"
proof -
  from assms(3) obtain e1 e2 e3 e4 e5 e6 e7 e8 e9
    where es: "es = [e1, e2, e3, e4, e5, e6, e7, e8, e9]"
      and b: "rx_byte e1 = CHR ''1''" "rx_byte e2 = CHR ''2''" "rx_byte e3 = CHR ''3''"
        "rx_byte e4 = CHR ''0''" "rx_byte e5 = CHR ''0''" "rx_byte e6 = CHR ''0''"
        "rx_byte e7 = CHR ''1''" "rx_byte e8 = CR" "rx_byte e9 = LF"
    by (auto simp add: map_eq_Cons_conv)
  from assms(4) have a: "rx_available e1" "rx_available e2" "rx_available e3"
    "rx_available e4" "rx_available e5" "rx_available e6" "rx_available e7"
    "rx_available e8" "rx_available e9"
    by (simp_all add: es)
  show ?thesis
    using assms(1,2) a b
    by (simp add: es assembleClientRequest_def sendResponseToClient_def strcat20_def
        step_defs CR_def LF_def NUL_def cstr_def)
qed

theorem server_round_trip_witness:
  "connectionState waiting_s = conn_4_clientConnected \<and> clientRequest waiting_s = []
   \<and> map rx_byte (bytes_s (''1230001'' @ [CR, LF])) = ''1230001'' @ [CR, LF]
   \<and> list_all rx_available (bytes_s (''1230001'' @ [CR, LF]))
   \<and> (\<exists>s'. ticks assembleClientRequest (bytes_s (''1230001'' @ [CR, LF])) waiting_s = Some s'
         \<and> clientRequest s' = ''1230001'' @ [CR, LF]
         \<and> length (clientRequest s') = 9
         \<and> connectionState s' = conn_5_requestReceived
         \<and> responses (trace s') = responses (trace waiting_s)
         \<and> responses (trace (sendResponseToClient quiet_s s')) =
              responses (trace waiting_s) @ [''1230001'' @ [CR, LF]])"
proof -
  have h: "connectionState waiting_s = conn_4_clientConnected" "clientRequest waiting_s = []"
    "map rx_byte (bytes_s (''1230001'' @ [CR, LF])) = ''1230001'' @ [CR, LF]"
    "list_all rx_available (bytes_s (''1230001'' @ [CR, LF]))"
    by (simp_all add: waiting_s_def server_init_def bytes_s_def)
  from server_round_trip [OF h, of quiet_s] h show ?thesis
    by simp
qed

section \<open>A peer that disappears\<close>

text \<open>
  A server that has accepted a peer and then finds it gone moves to
  \<^verbatim>\<open>conn_6_stopClientNow\<close>, and through the rest of the pass, with its error counter
  still at 0.
\<close>

theorem peer_lost_server_counts_no_error:
  "loop_s accepting_s server_init = Some connected_s
   \<and> connectionState connected_s = conn_4_clientConnected
   \<and> \<not> client_connected peer_gone_s
   \<and> connectionState (connectToClient peer_gone_s connected_s) = conn_6_stopClientNow
   \<and> errors connected_s = 0
   \<and> errors (connectToClient peer_gone_s connected_s) = 0
   \<and> map_option errors (loop_s peer_gone_s connected_s) = Some 0"
  by (simp add: connected_s_def accepting_s_def peer_gone_s_def quiet_s_def server_defs)

text \<open>
  Claim C6, as the code has it. When the transport tick finds, in a state from
  \<^verbatim>\<open>conn_4_clientConnected\<close> on, that the socket is no longer connected, both sketches
  move to \<^verbatim>\<open>conn_6_stopClientNow\<close> and log the event. The client adds one to its error
  counter; the server leaves its error counter as it is.
\<close>

theorem peer_lost_teardown:
  "(4 \<le> state_num (connectionState c) \<and> \<not> client_connected ce
    \<longrightarrow> connectionState (connectToServer ce c) = conn_6_stopClientNow
      \<and> errors (connectToServer ce c) = errors c + 1
      \<and> trace (connectToServer ce c) =
          trace c @ [Print ''**** Error: client connection was lost at '', PrintSecs,
                     Printf ''(S%d)'' [6]])
   \<and> (4 \<le> state_num (connectionState s) \<and> \<not> client_connected se
    \<longrightarrow> connectionState (connectToClient se s) = conn_6_stopClientNow
      \<and> errors (connectToClient se s) = errors s
      \<and> trace (connectToClient se s) =
          trace s @ [Print ''Client disconnected (or connection lost) at '', PrintSecs,
                     Printf ''(S%d)'' [6]])"
proof -
  have "connectionState (connectToServer ce c) = conn_6_stopClientNow
      \<and> errors (connectToServer ce c) = errors c + 1
      \<and> trace (connectToServer ce c) =
          trace c @ [Print ''**** Error: client connection was lost at '', PrintSecs,
                     Printf ''(S%d)'' [6]]"
    if "4 \<le> state_num (connectionState c)" "\<not> client_connected ce"
    using that by (cases "connectionState c") (simp_all add: connectToServer_def step_defs)
  moreover have "connectionState (connectToClient se s) = conn_6_stopClientNow
      \<and> errors (connectToClient se s) = errors s
      \<and> trace (connectToClient se s) =
          trace s @ [Print ''Client disconnected (or connection lost) at '', PrintSecs,
                     Printf ''(S%d)'' [6]]"
    if "4 \<le> state_num (connectionState s)" "\<not> client_connected se"
    using that by (cases "connectionState s") (simp_all add: connectToClient_def step_defs)
  ultimately show ?thesis by blast
qed

theorem peer_lost_teardown_witness:
  "4 \<le> state_num (connectionState waiting_c)
   \<and> \<not> client_connected (quiet_c\<lparr>client_connected := False\<rparr>)
   \<and> connectionState (connectToServer (quiet_c\<lparr>client_connected := False\<rparr>) waiting_c)
        = conn_6_stopClientNow
   \<and> errors (connectToServer (quiet_c\<lparr>client_connected := False\<rparr>) waiting_c)
        = errors waiting_c + 1
   \<and> 4 \<le> state_num (connectionState waiting_s)
   \<and> \<not> client_connected peer_gone_s
   \<and> connectionState (connectToClient peer_gone_s waiting_s) = conn_6_stopClientNow
   \<and> errors (connectToClient peer_gone_s waiting_s) = errors waiting_s"
  using peer_lost_teardown [of waiting_c "quiet_c\<lparr>client_connected := False\<rparr>"
      waiting_s peer_gone_s]
  by (simp add: waiting_c_def waiting_s_def quiet_c_def quiet_s_def peer_gone_s_def)

section \<open>Assembling the response\<close>

text \<open>
  With "1" in the buffer, a carriage return followed by the character 2 (not by a line
  feed) leaves "12": both characters were read, the carriage return was not appended.
\<close>

theorem response_drops_every_carriage_return:
  "map_option serverResponse
     (ticks assembleServerResponse (bytes_c [CR, CHR ''2'']) partial_c) = Some ''12''
   \<and> map_option (reads \<circ> trace)
     (ticks assembleServerResponse (bytes_c [CR, CHR ''2'']) partial_c) = Some [CR, CHR ''2'']
   \<and> ''12'' \<noteq> ''1'' @ [CR] @ ''2''"
  by (simp add: bytes_c_def partial_c_def waiting_c_def quiet_c_def client_defs
      CR_def LF_def NUL_def)

text \<open>
  Claim C7, as the code has it. A tick of the client's assembler in
  \<^verbatim>\<open>conn_5_requestSent\<close> with a character available reads exactly one character. A
  line feed ends the accumulation: the buffer is left as it is, the message counter goes
  up by one and the state becomes \<^verbatim>\<open>conn_6_stopClientNow\<close>. Every carriage return is
  dropped, wherever it stands, and so is a NUL character (an empty C string). Any other
  character is appended to the buffer, which has room for 19 characters; with a full
  buffer the append writes past the end of the array.
\<close>

theorem response_assembly:
  assumes "connectionState s = conn_5_requestSent" and "rx_available e"
  shows "(rx_byte e = LF \<longrightarrow>
            (\<exists>s'. assembleServerResponse e s = Some s'
               \<and> serverResponse s' = serverResponse s
               \<and> connectionState s' = conn_6_stopClientNow
               \<and> messageCounter s' = messageCounter s + 1
               \<and> reads (trace s') = reads (trace s) @ [rx_byte e]))
       \<and> (rx_byte e = CR \<or> rx_byte e = NUL \<longrightarrow>
            (\<exists>s'. assembleServerResponse e s = Some s'
               \<and> serverResponse s' = serverResponse s
               \<and> connectionState s' = conn_5_requestSent
               \<and> messageCounter s' = messageCounter s
               \<and> reads (trace s') = reads (trace s) @ [rx_byte e]))
       \<and> (rx_byte e \<notin> {LF, CR, NUL} \<and> length (serverResponse s) < 19 \<longrightarrow>
            (\<exists>s'. assembleServerResponse e s = Some s'
               \<and> serverResponse s' = serverResponse s @ [rx_byte e]
               \<and> connectionState s' = conn_5_requestSent
               \<and> messageCounter s' = messageCounter s
               \<and> reads (trace s') = reads (trace s) @ [rx_byte e]))
       \<and> (rx_byte e \<notin> {LF, CR, NUL} \<and> 19 \<le> length (serverResponse s) \<longrightarrow>
            assembleServerResponse e s = None)"
  using assms
  by (auto simp add: assembleServerResponse_def CR_def LF_def NUL_def strcat20_def cstr_def
      step_defs)

theorem response_assembly_witness:
  "connectionState partial_c = conn_5_requestSent
   \<and> list_all rx_available (bytes_c [LF, CR, CHR ''2''])
   \<and> list_all (\<lambda>e. \<exists>s'. assembleServerResponse e partial_c = Some s'
         \<and> reads (trace s') = reads (trace partial_c) @ [rx_byte e]
         \<and> serverResponse s' = (if rx_byte e = CHR ''2'' then ''12'' else ''1'')
         \<and> messageCounter s' = (if rx_byte e = LF then 1230002 else 1230001)
         \<and> connectionState s' =
              (if rx_byte e = LF then conn_6_stopClientNow else conn_5_requestSent))
       (bytes_c [LF, CR, CHR ''2''])
   \<and> length (serverResponse (partial_c\<lparr>serverResponse := ''1234567890123456789''\<rparr>)) = 19
   \<and> assembleServerResponse (quiet_c\<lparr>rx_available := True, rx_byte := CHR ''2''\<rparr>)
        (partial_c\<lparr>serverResponse := ''1234567890123456789''\<rparr>) = None"
proof -
  have st: "connectionState partial_c = conn_5_requestSent"
    "connectionState (partial_c\<lparr>serverResponse := ''1234567890123456789''\<rparr>)
       = conn_5_requestSent"
    by (simp_all add: partial_c_def waiting_c_def)
  have av: "rx_available (quiet_c\<lparr>rx_available := True, rx_byte := ch\<rparr>)" for ch
    by simp
  show ?thesis
    using response_assembly [OF st(1) av, of LF] response_assembly [OF st(1) av, of CR]
      response_assembly [OF st(1) av, of "CHR ''2''"]
      response_assembly [OF st(2) av, of "CHR ''2''"]
    by (auto simp add: bytes_c_def partial_c_def waiting_c_def client_init_def
        CR_def LF_def NUL_def)
qed

section \<open>The client's message counter\<close>

lemma expected_append:
  "expected c (xs @ ys) = expected c xs @ expected (c + of_nat (completed xs)) ys"
proof (induction xs arbitrary: c)
  case Nil
  show ?case by simp
next
  case (Cons ev xs)
  show ?case by (cases ev) (simp_all add: Cons.IH add.assoc)
qed

lemma length_expected: "length (expected c tr) = length (requests tr)"
  by (induction tr arbitrary: c) (simp_all split: event.split)

lemma expected_split:
  assumes "requests tr = expected c tr" and "tr = pre @ ClientPrintln v # post"
  shows "v = c + of_nat (completed pre)"
proof -
  have "requests pre @ v # requests post
      = expected c pre @ (c + of_nat (completed pre)) # expected (c + of_nat (completed pre)) post"
    using assms by (simp add: expected_append)
  moreover have "length (requests pre) = length (expected c pre)"
    by (simp add: length_expected)
  ultimately show ?thesis by simp
qed

text \<open>What each tick of the client does to the counter, the completed exchanges and the requests.\<close>

lemma wifi_c_frame:
  "messageCounter (connectToWiFi_c e s) = messageCounter s
   \<and> completed (trace (connectToWiFi_c e s)) = completed (trace s)
   \<and> requests (trace (connectToWiFi_c e s)) = requests (trace s)
   \<and> expected c (trace (connectToWiFi_c e s)) = expected c (trace s)"
  by (simp add: connectToWiFi_c_def tryWiFi_c_def step_defs expected_append
      split: ConnectionState_type.split)

lemma server_c_frame:
  "messageCounter (connectToServer e s) = messageCounter s
   \<and> completed (trace (connectToServer e s)) = completed (trace s)
   \<and> requests (trace (connectToServer e s)) = requests (trace s)
   \<and> expected c (trace (connectToServer e s)) = expected c (trace s)"
  by (simp add: connectToServer_def tryServer_def step_defs expected_append
      split: ConnectionState_type.split)

lemma stop_frame:
  "messageCounter (stopTCPconnection t s) = messageCounter s
   \<and> completed (trace (stopTCPconnection t s)) = completed (trace s)
   \<and> requests (trace (stopTCPconnection t s)) = requests (trace s)
   \<and> expected c (trace (stopTCPconnection t s)) = expected c (trace s)"
  by (simp add: stopTCPconnection_def step_defs expected_append)

lemma report_frame:
  "messageCounter (lastConnectionReport s) = messageCounter s
   \<and> completed (trace (lastConnectionReport s)) = completed (trace s)
   \<and> requests (trace (lastConnectionReport s)) = requests (trace s)
   \<and> expected c (trace (lastConnectionReport s)) = expected c (trace s)"
  by (simp add: lastConnectionReport_def step_defs expected_append)

lemma heartbeat_c_frame:
  "messageCounter (heartbeat_c e s) = messageCounter s
   \<and> completed (trace (heartbeat_c e s)) = completed (trace s)
   \<and> requests (trace (heartbeat_c e s)) = requests (trace s)
   \<and> expected c (trace (heartbeat_c e s)) = expected c (trace s)"
  by (simp add: heartbeat_c_def step_defs expected_append)

lemma send_effect:
  "messageCounter (sendRequestToServer e s) = messageCounter s
   \<and> completed (trace (sendRequestToServer e s)) = completed (trace s)
   \<and> requests (trace (sendRequestToServer e s)) =
       requests (trace s) @
         (if connectionState s = conn_4_clientConnected then [messageCounter s] else [])
   \<and> expected c (trace (sendRequestToServer e s)) =
       expected c (trace s) @
         (if connectionState s = conn_4_clientConnected
          then [c + of_nat (completed (trace s))] else [])"
  by (simp add: sendRequestToServer_def step_defs expected_append)

lemma assemble_effect:
  assumes "assembleServerResponse e s = Some s'"
  shows "\<exists>b. (b \<longrightarrow> connectionState s = conn_5_requestSent \<and> rx_available e \<and> rx_byte e = LF)
   \<and> messageCounter s' = messageCounter s + (if b then 1 else 0)
   \<and> completed (trace s') = completed (trace s) + (if b then 1 else 0)
   \<and> requests (trace s') = requests (trace s)
   \<and> expected c (trace s') = expected c (trace s)"
proof (cases "connectionState s = conn_5_requestSent \<and> rx_available e \<and> rx_byte e = LF")
  case True
  with assms show ?thesis
    by (intro exI [of _ True])
      (auto simp add: assembleServerResponse_def step_defs CR_def LF_def expected_append)
next
  case False
  with assms show ?thesis
    by (intro exI [of _ False])
      (auto simp add: assembleServerResponse_def step_defs strcat20_def cstr_def
        expected_append split: if_splits)
qed

lemma loop_c_effect:
  assumes "loop_c e s = Some s'"
  shows "\<exists>b k. (b \<longrightarrow> rx_available e \<and> rx_byte e = LF)
   \<and> messageCounter s' = messageCounter s + (if b then 1 else 0)
   \<and> completed (trace s') = completed (trace s) + (if b then 1 else 0)
   \<and> requests (trace s') = requests (trace s) @ replicate k (messageCounter s)
   \<and> expected c (trace s') =
        expected c (trace s) @ replicate k (c + of_nat (completed (trace s)))"
proof -
  define s2 where "s2 = connectToServer e (connectToWiFi_c e s)"
  define s3 where "s3 = sendRequestToServer e s2"
  from assms obtain s4 where a: "assembleServerResponse e s3 = Some s4"
    and s': "s' = heartbeat_c e (lastConnectionReport (stopTCPconnection (t_stop e) s4))"
    by (auto simp add: loop_c_def s2_def s3_def split: option.splits)
  define k :: nat where "k = (if connectionState s2 = conn_4_clientConnected then 1 else 0)"
  from assemble_effect [OF a, of c] obtain b where
    b: "b \<longrightarrow> rx_available e \<and> rx_byte e = LF"
      "messageCounter s4 = messageCounter s3 + (if b then 1 else 0)"
      "completed (trace s4) = completed (trace s3) + (if b then 1 else 0)"
      "requests (trace s4) = requests (trace s3)"
      "expected c (trace s4) = expected c (trace s3)"
    by blast
  have "messageCounter s' = messageCounter s + (if b then 1 else 0)"
    and "completed (trace s') = completed (trace s) + (if b then 1 else 0)"
    and "requests (trace s') = requests (trace s) @ replicate k (messageCounter s)"
    and "expected c (trace s') =
        expected c (trace s) @ replicate k (c + of_nat (completed (trace s)))"
    using b(2-5)
    by (simp_all add: s' s3_def s2_def k_def heartbeat_c_frame report_frame stop_frame
        send_effect server_c_frame wifi_c_frame)
  with b(1) show ?thesis by blast
qed

lemma loop_c_counter_inv:
  assumes "counter_inv s" and "loop_c e s = Some s'"
  shows "counter_inv s'"
proof -
  from loop_c_effect [OF assms(2), of 1230001] assms(1) show ?thesis
    by (auto simp add: counter_inv_def)
qed

lemma run_c_unchanged:
  assumes "ticks loop_c es s = Some s'"
  shows "completed (trace s) \<le> completed (trace s')
    \<and> (completed (trace s') = completed (trace s) \<longrightarrow>
          messageCounter s' = messageCounter s
          \<and> (\<exists>k. requests (trace s') = requests (trace s) @ replicate k (messageCounter s)))"
  using assms
proof (induction es arbitrary: s)
  case Nil
  then show ?case by simp
next
  case (Cons e es)
  then obtain s1 where p: "loop_c e s = Some s1" and r: "ticks loop_c es s1 = Some s'"
    by (auto split: option.splits)
  from loop_c_effect [OF p, of 0] obtain b k where
    e: "messageCounter s1 = messageCounter s + (if b then 1 else 0)"
      "completed (trace s1) = completed (trace s) + (if b then 1 else 0)"
      "requests (trace s1) = requests (trace s) @ replicate k (messageCounter s)"
    by blast
  from Cons.IH [OF r] have
    m: "completed (trace s1) \<le> completed (trace s')"
    and u: "completed (trace s') = completed (trace s1) \<Longrightarrow>
          messageCounter s' = messageCounter s1
          \<and> (\<exists>k. requests (trace s') = requests (trace s1) @ replicate k (messageCounter s1))"
    by blast+
  have le: "completed (trace s) \<le> completed (trace s')"
    using m e(2) by (simp split: if_splits)
  have "messageCounter s' = messageCounter s
      \<and> (\<exists>k. requests (trace s') = requests (trace s) @ replicate k (messageCounter s))"
    if eq: "completed (trace s') = completed (trace s)"
  proof -
    from eq m e(2) have nb: "\<not> b" and eq1: "completed (trace s') = completed (trace s1)"
      by (auto split: if_splits)
    from u [OF eq1] obtain k' where
      "messageCounter s' = messageCounter s1"
      "requests (trace s') = requests (trace s1) @ replicate k' (messageCounter s1)"
      by blast
    with e(1,3) nb have "messageCounter s' = messageCounter s"
      "requests (trace s') = requests (trace s) @ replicate (k + k') (messageCounter s)"
      by (simp_all add: replicate_add)
    then show ?thesis by blast
  qed
  with le show ?case by blast
qed

text \<open>
  A request that the trace holds splits the trace; the sum of the counter and a number of
  exchanges below 2^32 differs from the counter.
\<close>

lemma requests_split:
  assumes "requests tr = xs @ v # ys"
  shows "\<exists>pre post. tr = pre @ ClientPrintln v # post \<and> requests pre = xs \<and> requests post = ys"
  using assms
proof (induction tr arbitrary: xs)
  case Nil
  then show ?case by simp
next
  case (Cons ev tr)
  show ?case
  proof (cases "request_of ev")
    case Nil
    with Cons.prems have "requests tr = xs @ v # ys" by simp
    from Cons.IH [OF this] obtain pre post where
      "tr = pre @ ClientPrintln v # post" "requests pre = xs" "requests post = ys" by blast
    with Nil have "ev # tr = (ev # pre) @ ClientPrintln v # post \<and> requests (ev # pre) = xs
        \<and> requests post = ys" by simp
    then show ?thesis by blast
  next
    case (Cons u us)
    then have ev: "ev = ClientPrintln u" and us: "us = []" by (cases ev; simp)+
    show ?thesis
    proof (cases xs)
      case Nil
      with Cons.prems ev have "u = v" "requests tr = ys" by simp_all
      with ev Nil have "ev # tr = [] @ ClientPrintln v # tr \<and> requests [] = xs \<and> requests tr = ys"
        by simp
      then show ?thesis by blast
    next
      case (Cons x xs')
      with Cons.prems ev have x: "x = u" and r: "requests tr = xs' @ v # ys" by simp_all
      from Cons.IH [OF r] obtain pre post where
        "tr = pre @ ClientPrintln v # post" "requests pre = xs'" "requests post = ys" by blast
      with ev x Cons have "ev # tr = (ev # pre) @ ClientPrintln v # post
          \<and> requests (ev # pre) = xs \<and> requests post = ys" by simp
      then show ?thesis by blast
    qed
  qed
qed

lemma requests_pair:
  assumes "requests tr = [v, w]"
  shows "\<exists>pre mid post. tr = pre @ ClientPrintln v # mid @ ClientPrintln w # post"
proof -
  from requests_split [of tr "[]" v "[w]"] assms obtain pre rest where
    1: "tr = pre @ ClientPrintln v # rest" and 2: "requests rest = [w]" by auto
  from requests_split [of rest "[]" w "[]"] 2 obtain mid post where
    "rest = mid @ ClientPrintln w # post" by auto
  with 1 show ?thesis by blast
qed

lemma shift_neq:
  fixes v :: ulong
  assumes "0 < n" and "n < 2 ^ 32"
  shows "v + of_nat n \<noteq> v"
proof -
  have "(of_nat n :: ulong) \<noteq> 0"
    using assms by (intro of_nat_neq_0) simp_all
  then show ?thesis by simp
qed

lemma count_no_wrap:
  assumes "n < 2 ^ 32 - 1230001"
  shows "unat (1230001 + of_nat n :: ulong) = 1230001 + n"
  using assms by (simp add: unat_word_ariths unat_of_nat)

text \<open>
  After a read timeout the client connects again and sends the value it sent before:
  the two requests of this run both carry 1230001.
\<close>

theorem request_value_repeated_after_timeout:
  "map_option (requests \<circ> trace) (run_c timeout_run client_init) = Some [1230001, 1230001]
   \<and> \<not> distinct [1230001, 1230001 :: ulong]
   \<and> map_option (completed \<circ> trace) (run_c timeout_run client_init) = Some 0
   \<and> map_option errors (run_c timeout_run client_init) = Some 1"
  by (simp add: timeout_run_def quiet_c_def client_defs NUL_def)

text \<open>
  Claim C5, as the code has it. In every run of the client from start-up, the message
  counter equals 1230001 plus the number of exchanges completed so far, in 32-bit
  arithmetic (and as a number, as long as that sum fits in 32 bits), and every request
  that was transmitted carries 1230001 plus the number of exchanges completed before it.
  Of two requests the later one carries the value of the earlier one plus the number of
  exchanges completed between them: a different value when at least one and fewer than
  2^32 exchanges were completed between them, and the same value when none was (after a
  timeout or a lost connection the value is sent again).
\<close>

theorem sequence_counter_counts_completed_exchanges:
  assumes "run_c es client_init = Some s"
  shows "messageCounter s = 1230001 + of_nat (completed (trace s))
     \<and> (\<forall>pre v post. trace s = pre @ ClientPrintln v # post
            \<longrightarrow> v = 1230001 + of_nat (completed pre))
     \<and> (\<forall>pre v mid w post. trace s = pre @ ClientPrintln v # mid @ ClientPrintln w # post
            \<longrightarrow> w = v + of_nat (completed mid)
              \<and> (completed mid = 0 \<longrightarrow> w = v)
              \<and> (0 < completed mid \<and> completed mid < 2 ^ 32 \<longrightarrow> w \<noteq> v))
     \<and> (completed (trace s) < 2 ^ 32 - 1230001
            \<longrightarrow> unat (messageCounter s) = 1230001 + completed (trace s))"
proof -
  have "counter_inv client_init"
    by (simp add: counter_inv_def client_init_def)
  then have "counter_inv s"
    using assms unfolding run_c_def
    by (rule ticks_invariant [where P = counter_inv and f = loop_c, rotated])
      (rule loop_c_counter_inv)
  then have m: "messageCounter s = 1230001 + of_nat (completed (trace s))"
    and q: "requests (trace s) = expected 1230001 (trace s)"
    by (simp_all add: counter_inv_def)
  have one: "v = 1230001 + of_nat (completed pre)"
    if "trace s = pre @ ClientPrintln v # post" for pre v post
    using expected_split [OF q that] .
  have two: "w = v + of_nat (completed mid)
      \<and> (completed mid = 0 \<longrightarrow> w = v)
      \<and> (0 < completed mid \<and> completed mid < 2 ^ 32 \<longrightarrow> w \<noteq> v)"
    if t: "trace s = pre @ ClientPrintln v # mid @ ClientPrintln w # post" for pre v mid w post
  proof -
    have v: "v = 1230001 + of_nat (completed pre)"
      using one [OF t] .
    from t have "trace s = (pre @ ClientPrintln v # mid) @ ClientPrintln w # post" by simp
    from one [OF this] have "w = 1230001 + of_nat (completed (pre @ ClientPrintln v # mid))" .
    with v have w: "w = v + of_nat (completed mid)" by simp
    then show ?thesis using shift_neq [of "completed mid" v] by simp
  qed
  have three: "unat (messageCounter s) = 1230001 + completed (trace s)"
    if "completed (trace s) < 2 ^ 32 - 1230001"
    using count_no_wrap [OF that] m by simp
  from m one two three show ?thesis by blast
qed

theorem sequence_counter_counts_completed_exchanges_witness:
  "(\<exists>s pre v mid w post. run_c success_run client_init = Some s
       \<and> completed (trace s) = 1
       \<and> messageCounter s = 1230001 + of_nat (completed (trace s))
       \<and> unat (messageCounter s) = 1230002
       \<and> requests (trace s) = [1230001, 1230002]
       \<and> trace s = pre @ ClientPrintln v # mid @ ClientPrintln w # post
       \<and> v = 1230001 + of_nat (completed pre)
       \<and> completed mid = 1 \<and> w = v + of_nat (completed mid) \<and> w \<noteq> v)
   \<and> (\<exists>s pre v mid w post. run_c timeout_run client_init = Some s
       \<and> trace s = pre @ ClientPrintln v # mid @ ClientPrintln w # post
       \<and> completed mid = 0 \<and> w = v)"
proof -
  have "\<exists>s. run_c success_run client_init = Some s \<and> completed (trace s) = 1
      \<and> requests (trace s) = [1230001, 1230002]"
    by (simp add: success_run_def quiet_c_def client_defs NUL_def LF_def CR_def)
  then obtain s where r: "run_c success_run client_init = Some s"
    and c: "completed (trace s) = 1" and q: "requests (trace s) = [1230001, 1230002]"
    by blast
  from requests_pair [OF q] obtain pre mid post where
    t: "trace s = pre @ ClientPrintln 1230001 # mid @ ClientPrintln 1230002 # post" by blast
  note th = sequence_counter_counts_completed_exchanges [OF r]
  note m = th [THEN conjunct1]
  note one = th [THEN conjunct2, THEN conjunct1, rule_format]
  note two = th [THEN conjunct2, THEN conjunct2, THEN conjunct1, rule_format]
  note three = th [THEN conjunct2, THEN conjunct2, THEN conjunct2, rule_format]
  have u: "unat (messageCounter s) = 1230002"
    using three c by simp
  have v: "(1230001 :: ulong) = 1230001 + of_nat (completed pre)"
    using t by (rule one)
  have w: "(1230002 :: ulong) = 1230001 + of_nat (completed mid)"
    using two [OF t] by (rule conjunct1)
  have "completed pre + completed mid + completed post = 1"
    using c by (simp add: t)
  then have "completed mid \<le> 1" by simp
  moreover have "completed mid \<noteq> 0"
  proof
    assume "completed mid = 0"
    with w show False by simp
  qed
  ultimately have cm: "completed mid = 1" by simp
  have n: "(1230002 :: ulong) \<noteq> 1230001"
    using two [OF t, THEN conjunct2, THEN conjunct2] cm by simp
  have first: "\<exists>s pre v mid w post. run_c success_run client_init = Some s
       \<and> completed (trace s) = 1
       \<and> messageCounter s = 1230001 + of_nat (completed (trace s))
       \<and> unat (messageCounter s) = 1230002
       \<and> requests (trace s) = [1230001, 1230002]
       \<and> trace s = pre @ ClientPrintln v # mid @ ClientPrintln w # post
       \<and> v = 1230001 + of_nat (completed pre)
       \<and> completed mid = 1 \<and> w = v + of_nat (completed mid) \<and> w \<noteq> v"
    by (intro exI [of _ s] exI [of _ pre] exI [of _ "1230001 :: ulong"] exI [of _ mid]
        exI [of _ "1230002 :: ulong"] exI [of _ post] conjI)
      (rule r c m u q t v cm w n)+
  have "\<exists>s. run_c timeout_run client_init = Some s \<and> completed (trace s) = 0
      \<and> requests (trace s) = [1230001, 1230001]"
    by (simp add: timeout_run_def quiet_c_def client_defs NUL_def)
  then obtain s' where r': "run_c timeout_run client_init = Some s'"
    and c': "completed (trace s') = 0" and q': "requests (trace s') = [1230001, 1230001]"
    by blast
  from requests_pair [OF q'] obtain pre' mid' post' where
    t': "trace s' = pre' @ ClientPrintln 1230001 # mid' @ ClientPrintln 1230001 # post'" by blast
  have "completed pre' + completed mid' + completed post' = 0"
    using c' by (simp add: t')
  then have cm': "completed mid' = 0" by simp
  note th' = sequence_counter_counts_completed_exchanges [OF r']
  note two' = th' [THEN conjunct2, THEN conjunct2, THEN conjunct1, rule_format]
  have e: "(1230001 :: ulong) = 1230001"
    using two' [OF t', THEN conjunct2, THEN conjunct1] cm' by simp
  have second: "\<exists>s pre v mid w post. run_c timeout_run client_init = Some s
       \<and> trace s = pre @ ClientPrintln v # mid @ ClientPrintln w # post
       \<and> completed mid = 0 \<and> w = v"
    by (intro exI [of _ s'] exI [of _ pre'] exI [of _ "1230001 :: ulong"] exI [of _ mid']
        exI [of _ "1230001 :: ulong"] exI [of _ post'] conjI)
      (rule r' t' cm' e)+
  from first second show ?thesis by (rule conjI)
qed

text \<open>
  Claim C10. When no exchange is completed during a run of passes (the client printed no
  "response read" line, which it prints exactly when it consumes a line feed), the
  message counter at the end is the one at the start, and every request transmitted
  during the run carries that value. The two ways an exchange fails, the read timeout
  and the lost connection, lead to \<^verbatim>\<open>conn_6_stopClientNow\<close> without changing the counter.
  A pass that changes the counter has been handed a line feed, has completed an
  exchange, and has added exactly one.
\<close>

theorem counter_moves_only_on_line_feed:
  "(run_c es s = Some s' \<and> completed (trace s') = completed (trace s)
     \<longrightarrow> messageCounter s' = messageCounter s
       \<and> (\<exists>k. requests (trace s') = requests (trace s) @ replicate k (messageCounter s)))
   \<and> (connectionState c = conn_5_requestSent \<and> \<not> rx_available ce
       \<and> unat (startReadingAt c) + unat readingTimeOut < unat (t_read_check ce)
     \<longrightarrow> (\<exists>c'. assembleServerResponse ce c = Some c'
            \<and> connectionState c' = conn_6_stopClientNow
            \<and> messageCounter c' = messageCounter c
            \<and> completed (trace c') = completed (trace c)))
   \<and> (connectionState c = conn_5_requestSent \<and> \<not> client_connected ce
     \<longrightarrow> connectionState (connectToServer ce c) = conn_6_stopClientNow
       \<and> messageCounter (connectToServer ce c) = messageCounter c
       \<and> completed (trace (connectToServer ce c)) = completed (trace c))
   \<and> (loop_c pe p = Some p' \<and> messageCounter p' \<noteq> messageCounter p
     \<longrightarrow> rx_available pe \<and> rx_byte pe = LF
       \<and> messageCounter p' = messageCounter p + 1
       \<and> completed (trace p') = completed (trace p) + 1)"
proof -
  have past: "a + d < n" if "unat a + unat d < unat n" for a d n :: ulong
    using that by (simp add: word_less_nat_alt unat_word_ariths)
  have run: "messageCounter s' = messageCounter s
       \<and> (\<exists>k. requests (trace s') = requests (trace s) @ replicate k (messageCounter s))"
    if "run_c es s = Some s'" "completed (trace s') = completed (trace s)"
    using run_c_unchanged [of es s s'] that by (simp add: run_c_def)
  have timeout: "\<exists>c'. assembleServerResponse ce c = Some c'
            \<and> connectionState c' = conn_6_stopClientNow
            \<and> messageCounter c' = messageCounter c
            \<and> completed (trace c') = completed (trace c)"
    if "connectionState c = conn_5_requestSent" "\<not> rx_available ce"
      "unat (startReadingAt c) + unat readingTimeOut < unat (t_read_check ce)"
    using that past [OF that(3)] by (simp add: assembleServerResponse_def step_defs)
  have lost: "connectionState (connectToServer ce c) = conn_6_stopClientNow
       \<and> messageCounter (connectToServer ce c) = messageCounter c
       \<and> completed (trace (connectToServer ce c)) = completed (trace c)"
    if "connectionState c = conn_5_requestSent" "\<not> client_connected ce"
    using that by (simp add: connectToServer_def step_defs)
  have pass: "rx_available pe \<and> rx_byte pe = LF
       \<and> messageCounter p' = messageCounter p + 1
       \<and> completed (trace p') = completed (trace p) + 1"
    if "loop_c pe p = Some p'" "messageCounter p' \<noteq> messageCounter p"
    using loop_c_effect [OF that(1), of 0] that(2) by (auto split: if_splits)
  from run timeout lost pass show ?thesis by blast
qed

theorem counter_moves_only_on_line_feed_witness:
  "(\<exists>s'. run_c timeout_run client_init = Some s'
       \<and> completed (trace s') = completed (trace client_init)
       \<and> messageCounter s' = messageCounter client_init
       \<and> requests (trace s') = requests (trace client_init) @ [1230001, 1230001])
   \<and> connectionState waiting_c = conn_5_requestSent
   \<and> \<not> rx_available (quiet_c\<lparr>client_connected := False, t_read_check := 11101\<rparr>)
   \<and> unat (startReadingAt waiting_c) + unat readingTimeOut
        < unat (t_read_check (quiet_c\<lparr>client_connected := False, t_read_check := 11101\<rparr>))
   \<and> \<not> client_connected (quiet_c\<lparr>client_connected := False, t_read_check := 11101\<rparr>)
   \<and> (\<exists>c'. assembleServerResponse (quiet_c\<lparr>client_connected := False, t_read_check := 11101\<rparr>)
               waiting_c = Some c'
          \<and> connectionState c' = conn_6_stopClientNow
          \<and> messageCounter c' = messageCounter waiting_c
          \<and> completed (trace c') = completed (trace waiting_c))
   \<and> (connectionState (connectToServer (quiet_c\<lparr>client_connected := False, t_read_check := 11101\<rparr>)
          waiting_c) = conn_6_stopClientNow
      \<and> messageCounter (connectToServer (quiet_c\<lparr>client_connected := False, t_read_check := 11101\<rparr>)
          waiting_c) = messageCounter waiting_c
      \<and> completed (trace (connectToServer (quiet_c\<lparr>client_connected := False, t_read_check := 11101\<rparr>)
          waiting_c)) = completed (trace waiting_c))
   \<and> (\<exists>p'. loop_c (quiet_c\<lparr>rx_available := True, rx_byte := LF\<rparr>) waiting_c = Some p'
          \<and> messageCounter p' \<noteq> messageCounter waiting_c
          \<and> messageCounter p' = messageCounter waiting_c + 1
          \<and> completed (trace p') = completed (trace waiting_c) + 1)"
proof -
  have "\<exists>s'. run_c timeout_run client_init = Some s'
      \<and> completed (trace s') = completed (trace client_init)
      \<and> requests (trace s') = requests (trace client_init) @ [1230001, 1230001]"
    by (simp add: timeout_run_def quiet_c_def client_defs NUL_def)
  then obtain s' where r: "run_c timeout_run client_init = Some s'"
    and c: "completed (trace s') = completed (trace client_init)"
    and q: "requests (trace s') = requests (trace client_init) @ [1230001, 1230001]"
    by blast
  have "\<exists>p'. loop_c (quiet_c\<lparr>rx_available := True, rx_byte := LF\<rparr>) waiting_c = Some p'
      \<and> messageCounter p' \<noteq> messageCounter waiting_c"
    by (simp add: waiting_c_def quiet_c_def client_defs NUL_def LF_def CR_def)
  then obtain p' where l: "loop_c (quiet_c\<lparr>rx_available := True, rx_byte := LF\<rparr>) waiting_c = Some p'"
    and m: "messageCounter p' \<noteq> messageCounter waiting_c"
    by blast
  have w: "connectionState waiting_c = conn_5_requestSent"
    "\<not> rx_available (quiet_c\<lparr>client_connected := False, t_read_check := 11101\<rparr>)"
    "unat (startReadingAt waiting_c) + unat readingTimeOut
        < unat (t_read_check (quiet_c\<lparr>client_connected := False, t_read_check := 11101\<rparr>))"
    "\<not> client_connected (quiet_c\<lparr>client_connected := False, t_read_check := 11101\<rparr>)"
    by (simp_all add: waiting_c_def client_init_def quiet_c_def readingTimeOut_def)
  note t = counter_moves_only_on_line_feed [of timeout_run client_init s' waiting_c
      "quiet_c\<lparr>client_connected := False, t_read_check := 11101\<rparr>"
      "quiet_c\<lparr>rx_available := True, rx_byte := LF\<rparr>" waiting_c p']
  from t r c have b1: "messageCounter s' = messageCounter client_init"
    by (elim conjE) simp
  from t w have b2: "\<exists>c'. assembleServerResponse (quiet_c\<lparr>client_connected := False, t_read_check := 11101\<rparr>)
               waiting_c = Some c'
          \<and> connectionState c' = conn_6_stopClientNow
          \<and> messageCounter c' = messageCounter waiting_c
          \<and> completed (trace c') = completed (trace waiting_c)"
    by (elim conjE) simp
  from t w have b3: "connectionState (connectToServer (quiet_c\<lparr>client_connected := False, t_read_check := 11101\<rparr>)
          waiting_c) = conn_6_stopClientNow
      \<and> messageCounter (connectToServer (quiet_c\<lparr>client_connected := False, t_read_check := 11101\<rparr>)
          waiting_c) = messageCounter waiting_c
      \<and> completed (trace (connectToServer (quiet_c\<lparr>client_connected := False, t_read_check := 11101\<rparr>)
          waiting_c)) = completed (trace waiting_c)"
    by (elim conjE) simp
  from t l m have b4: "messageCounter p' = messageCounter waiting_c + 1
      \<and> completed (trace p') = completed (trace waiting_c) + 1"
    by (elim conjE) simp
  from r c q b1 have e1: "\<exists>s'. run_c timeout_run client_init = Some s'
       \<and> completed (trace s') = completed (trace client_init)
       \<and> messageCounter s' = messageCounter client_init
       \<and> requests (trace s') = requests (trace client_init) @ [1230001, 1230001]"
    by (intro exI [of _ s']) simp
  from l m b4 have e4: "\<exists>p'. loop_c (quiet_c\<lparr>rx_available := True, rx_byte := LF\<rparr>) waiting_c = Some p'
          \<and> messageCounter p' \<noteq> messageCounter waiting_c
          \<and> messageCounter p' = messageCounter waiting_c + 1
          \<and> completed (trace p') = completed (trace waiting_c) + 1"
    by (intro exI [of _ p']) simp
  show ?thesis
    by (rule conjI [OF e1 conjI [OF w(1) conjI [OF w(2) conjI [OF w(3) conjI [OF w(4)
          conjI [OF b2 conjI [OF b3 e4]]]]]]])
qed

section \<open>Retry delays\<close>

text \<open>
  The client stops a connection at 6010 ms; in the next pass, whose clock readings are
  all below 6010 + 100, the link is associated again and the transport tick calls
  \<^verbatim>\<open>client.connect\<close> at once, for the second time in the run.
\<close>

theorem transport_attempt_within_retry_delay:
  "map_option clientStopTime (run_c lost_link_before client_init) = Some 6010
   \<and> map_option (connect_attempts \<circ> trace) (run_c lost_link_before client_init) = Some 1
   \<and> map_option (connect_attempts \<circ> trace)
        (run_c (lost_link_before @ [lost_link_pass]) client_init) = Some 2
   \<and> unat (t_wifi_check lost_link_pass) < 6010 + unat clientConnectDelay
   \<and> unat (t_wifi_done lost_link_pass) < 6010 + unat clientConnectDelay
   \<and> unat (t_conn_check lost_link_pass) < 6010 + unat clientConnectDelay
   \<and> unat (t_sent lost_link_pass) < 6010 + unat clientConnectDelay"
  by (simp add: lost_link_before_def lost_link_pass_def quiet_c_def client_defs NUL_def)

lemma no_wrap_le:
  fixes a d n :: ulong
  assumes "\<not> n < a + d" and "unat a + unat d < 2 ^ 32"
  shows "unat a + unat d \<le> unat n"
  using assms by (simp add: word_less_nat_alt unat_word_ariths)

text \<open>What each tick of the client does to the time stamps and to the counted calls.\<close>

lemma wifi_c_sum:
  "clientStopTime (connectToWiFi_c e s) = clientStopTime s
   \<and> connect_attempts (trace (connectToWiFi_c e s)) = connect_attempts (trace s)
   \<and> stops (trace (connectToWiFi_c e s)) = stops (trace s)
   \<and> failed_connects (trace (connectToWiFi_c e s)) = failed_connects (trace s)
   \<and> link_attempts (trace s) \<le> link_attempts (trace (connectToWiFi_c e s))
   \<and> wifiConnectTime (connectToWiFi_c e s) =
        (if link_attempts (trace (connectToWiFi_c e s)) \<noteq> link_attempts (trace s)
         then t_wifi_done e else wifiConnectTime s)
   \<and> (link_attempts (trace (connectToWiFi_c e s)) = link_attempts (trace s)
        \<longrightarrow> connectToWiFi_c e s = s)
   \<and> connectionState (connectToWiFi_c e s) \<noteq> conn_0_wifiConnectNow"
  by (cases "connectionState s") (simp_all add: connectToWiFi_c_def tryWiFi_c_def step_defs)

lemma tryServer_sum:
  "link_attempts (trace (tryServer e s)) = link_attempts (trace s)
   \<and> wifiConnectTime (tryServer e s) = wifiConnectTime s
   \<and> stops (trace (tryServer e s)) = stops (trace s)
   \<and> connect_attempts (trace (tryServer e s)) = connect_attempts (trace s) + 1
   \<and> failed_connects (trace (tryServer e s)) =
        failed_connects (trace s) + (if connect_ok e then 0 else 1)
   \<and> clientStopTime (tryServer e s) = (if connect_ok e then clientStopTime s else t_conn_fail e)
   \<and> connectionState (tryServer e s) =
        (if connect_ok e then conn_4_clientConnected else conn_3_clientDelayConnection)"
  by (simp add: tryServer_def step_defs)

lemma server_c_sum:
  "link_attempts (trace (connectToServer e s)) = link_attempts (trace s)
   \<and> wifiConnectTime (connectToServer e s) = wifiConnectTime s
   \<and> stops (trace (connectToServer e s)) = stops (trace s)
   \<and> connect_attempts (trace s) \<le> connect_attempts (trace (connectToServer e s))
   \<and> failed_connects (trace s) \<le> failed_connects (trace (connectToServer e s))
   \<and> clientStopTime (connectToServer e s) =
        (if failed_connects (trace (connectToServer e s)) \<noteq> failed_connects (trace s)
         then t_conn_fail e else clientStopTime s)
   \<and> (failed_connects (trace (connectToServer e s)) \<noteq> failed_connects (trace s)
        \<longrightarrow> connectionState (connectToServer e s) = conn_3_clientDelayConnection)
   \<and> connectionState (connectToServer e s) \<noteq> conn_2_wifiConnected
   \<and> (connectionState s \<noteq> conn_0_wifiConnectNow
        \<longrightarrow> connectionState (connectToServer e s) \<noteq> conn_0_wifiConnectNow)
   \<and> (connect_attempts (trace (connectToServer e s)) \<noteq> connect_attempts (trace s)
        \<longrightarrow> connectionState s = conn_2_wifiConnected
          \<or> connectionState s = conn_3_clientDelayConnection
            \<and> \<not> t_conn_check e < clientStopTime s + clientConnectDelay)
   \<and> (connect_attempts (trace (connectToServer e s)) = connect_attempts (trace s)
        \<and> (connectionState s = conn_1_wifiDelayConnection
           \<or> connectionState s = conn_3_clientDelayConnection)
        \<longrightarrow> connectToServer e s = s)"
  by (cases "connectionState s") (simp_all add: connectToServer_def tryServer_sum step_defs)

lemma send_sum:
  "link_attempts (trace (sendRequestToServer e s)) = link_attempts (trace s)
   \<and> wifiConnectTime (sendRequestToServer e s) = wifiConnectTime s
   \<and> stops (trace (sendRequestToServer e s)) = stops (trace s)
   \<and> connect_attempts (trace (sendRequestToServer e s)) = connect_attempts (trace s)
   \<and> failed_connects (trace (sendRequestToServer e s)) = failed_connects (trace s)
   \<and> clientStopTime (sendRequestToServer e s) = clientStopTime s
   \<and> connectionState (sendRequestToServer e s) =
        (if connectionState s = conn_4_clientConnected then conn_5_requestSent
         else connectionState s)"
  by (simp add: sendRequestToServer_def step_defs)

lemma assemble_sum:
  assumes "assembleServerResponse e s = Some s'"
  shows "link_attempts (trace s') = link_attempts (trace s)
   \<and> wifiConnectTime s' = wifiConnectTime s
   \<and> stops (trace s') = stops (trace s)
   \<and> connect_attempts (trace s') = connect_attempts (trace s)
   \<and> failed_connects (trace s') = failed_connects (trace s)
   \<and> clientStopTime s' = clientStopTime s
   \<and> (connectionState s' = connectionState s
      \<or> connectionState s = conn_5_requestSent \<and> connectionState s' = conn_6_stopClientNow)"
  using assms
  by (auto simp add: assembleServerResponse_def step_defs cstr_def
      split: if_splits option.splits)

lemma tail_c_sum:
  "link_attempts (trace (heartbeat_c e (lastConnectionReport (stopTCPconnection t s))))
      = link_attempts (trace s)
   \<and> wifiConnectTime (heartbeat_c e (lastConnectionReport (stopTCPconnection t s)))
      = wifiConnectTime s
   \<and> connect_attempts (trace (heartbeat_c e (lastConnectionReport (stopTCPconnection t s))))
      = connect_attempts (trace s)
   \<and> failed_connects (trace (heartbeat_c e (lastConnectionReport (stopTCPconnection t s))))
      = failed_connects (trace s)
   \<and> stops (trace (heartbeat_c e (lastConnectionReport (stopTCPconnection t s))))
      = stops (trace s) + (if connectionState s = conn_6_stopClientNow then 1 else 0)
   \<and> clientStopTime (heartbeat_c e (lastConnectionReport (stopTCPconnection t s)))
      = (if connectionState s = conn_6_stopClientNow then t else clientStopTime s)
   \<and> connectionState (heartbeat_c e (lastConnectionReport (stopTCPconnection t s)))
      = (if connectionState s = conn_6_stopClientNow \<or> connectionState s = conn_7_report
         then conn_3_clientDelayConnection else connectionState s)"
  by (simp add: heartbeat_c_def lastConnectionReport_def stopTCPconnection_def step_defs)


text \<open>What one pass of the client does.\<close>

lemma loop_c_sum:
  assumes "loop_c e s = Some s'"
  shows "link_attempts (trace s') = link_attempts (trace (connectToWiFi_c e s))"
    and "link_attempts (trace s) \<le> link_attempts (trace s')"
    and "connect_attempts (trace s) \<le> connect_attempts (trace s')"
    and "stops (trace s) \<le> stops (trace s')"
    and "failed_connects (trace s) \<le> failed_connects (trace s')"
    and "wifiConnectTime s' =
      (if link_attempts (trace s') \<noteq> link_attempts (trace s) then t_wifi_done e
       else wifiConnectTime s)"
    and "clientStopTime s' =
      (if stops (trace s') \<noteq> stops (trace s) then t_stop e
       else if failed_connects (trace s') \<noteq> failed_connects (trace s) then t_conn_fail e
       else clientStopTime s)"
    and "stops (trace s') \<noteq> stops (trace s)
          \<or> failed_connects (trace s') \<noteq> failed_connects (trace s)
        \<Longrightarrow> connectionState s' = conn_3_clientDelayConnection"
    and "connectionState s' \<noteq> conn_0_wifiConnectNow"
    and "connectionState s' \<noteq> conn_2_wifiConnected"
    and "connect_attempts (trace s') \<noteq> connect_attempts (trace s)
        \<Longrightarrow> link_attempts (trace s') = link_attempts (trace s)
        \<Longrightarrow> connectionState s \<noteq> conn_2_wifiConnected
        \<Longrightarrow> connectionState s = conn_3_clientDelayConnection
          \<and> \<not> t_conn_check e < clientStopTime s + clientConnectDelay"
    and "connect_attempts (trace s') = connect_attempts (trace s)
        \<Longrightarrow> connectionState s = conn_1_wifiDelayConnection
          \<or> connectionState s = conn_3_clientDelayConnection
        \<Longrightarrow> (connectionState s' = conn_1_wifiDelayConnection
            \<or> connectionState s' = conn_3_clientDelayConnection)
          \<and> clientStopTime s' = clientStopTime s"
proof -
  define s1 where "s1 = connectToWiFi_c e s"
  define s2 where "s2 = connectToServer e s1"
  define s3 where "s3 = sendRequestToServer e s2"
  from assms obtain s4 where a: "assembleServerResponse e s3 = Some s4"
    and s': "s' = heartbeat_c e (lastConnectionReport (stopTCPconnection (t_stop e) s4))"
    by (auto simp add: loop_c_def s1_def s2_def s3_def split: option.splits)
  note w = wifi_c_sum [of e s, folded s1_def]
  note v = server_c_sum [of e s1, folded s2_def]
  note d = send_sum [of e s2, folded s3_def]
  note r = assemble_sum [OF a]
  note t = tail_c_sum [of e "t_stop e" s4, folded s']
  have 1: "link_attempts (trace s') = link_attempts (trace s1)"
    using v d r t by simp
  then show "link_attempts (trace s') = link_attempts (trace (connectToWiFi_c e s))"
    by (simp add: s1_def)
  show "link_attempts (trace s) \<le> link_attempts (trace s')"
    using w 1 by simp
  have c: "connect_attempts (trace s') = connect_attempts (trace s2)"
    using d r t by simp
  have f: "failed_connects (trace s') = failed_connects (trace s2)"
    using d r t by simp
  have k: "stops (trace s') = stops (trace s)
      + (if connectionState s4 = conn_6_stopClientNow then 1 else 0)"
    using w v d r t by simp
  show "connect_attempts (trace s) \<le> connect_attempts (trace s')"
    using w v c by simp
  show "stops (trace s) \<le> stops (trace s')"
    using k by simp
  show "failed_connects (trace s) \<le> failed_connects (trace s')"
    using w v f by simp
  show "wifiConnectTime s' =
      (if link_attempts (trace s') \<noteq> link_attempts (trace s) then t_wifi_done e
       else wifiConnectTime s)"
    using w v d r t 1 by simp
  have st: "clientStopTime s4 =
      (if failed_connects (trace s') \<noteq> failed_connects (trace s) then t_conn_fail e
       else clientStopTime s)"
    using w v d r f by simp
  show "clientStopTime s' =
      (if stops (trace s') \<noteq> stops (trace s) then t_stop e
       else if failed_connects (trace s') \<noteq> failed_connects (trace s) then t_conn_fail e
       else clientStopTime s)"
    using t k st by simp
  have s2s4: "connectionState s2 = conn_1_wifiDelayConnection
        \<or> connectionState s2 = conn_3_clientDelayConnection
      \<Longrightarrow> connectionState s4 = connectionState s2"
    using d r by auto
  show "connectionState s' = conn_3_clientDelayConnection"
    if "stops (trace s') \<noteq> stops (trace s)
          \<or> failed_connects (trace s') \<noteq> failed_connects (trace s)"
  proof (cases "connectionState s4 = conn_6_stopClientNow")
    case True
    with t show ?thesis by simp
  next
    case False
    with that k have "failed_connects (trace s') \<noteq> failed_connects (trace s)" by simp
    with f w have "failed_connects (trace s2) \<noteq> failed_connects (trace s1)" by simp
    with v have "connectionState s2 = conn_3_clientDelayConnection" by simp
    with s2s4 have "connectionState s4 = conn_3_clientDelayConnection" by simp
    with t show ?thesis by simp
  qed
  have n0: "connectionState s4 \<noteq> conn_0_wifiConnectNow"
    using w v d r by (auto split: if_splits)
  have n2: "connectionState s4 \<noteq> conn_2_wifiConnected"
    using v d r by (auto split: if_splits)
  show "connectionState s' \<noteq> conn_0_wifiConnectNow"
    using t n0 by simp
  show "connectionState s' \<noteq> conn_2_wifiConnected"
    using t n2 by simp
  show "connectionState s = conn_3_clientDelayConnection
          \<and> \<not> t_conn_check e < clientStopTime s + clientConnectDelay"
    if "connect_attempts (trace s') \<noteq> connect_attempts (trace s)"
      "link_attempts (trace s') = link_attempts (trace s)"
      "connectionState s \<noteq> conn_2_wifiConnected"
  proof -
    from that(2) 1 w have "s1 = s" by simp
    moreover from that(1) c w have "connect_attempts (trace s2) \<noteq> connect_attempts (trace s1)"
      by simp
    ultimately show ?thesis using v that(3) by auto
  qed
  show "(connectionState s' = conn_1_wifiDelayConnection
            \<or> connectionState s' = conn_3_clientDelayConnection)
          \<and> clientStopTime s' = clientStopTime s"
    if eq: "connect_attempts (trace s') = connect_attempts (trace s)"
      and st0: "connectionState s = conn_1_wifiDelayConnection
          \<or> connectionState s = conn_3_clientDelayConnection"
  proof -
    from eq c w have e2: "connect_attempts (trace s2) = connect_attempts (trace s1)" by simp
    have s1st: "connectionState s1 = conn_1_wifiDelayConnection
          \<or> connectionState s1 = conn_3_clientDelayConnection"
    proof (cases "link_attempts (trace s1) = link_attempts (trace s)")
      case True
      with w st0 show ?thesis by simp
    next
      case False
      then have "connectionState s1 = conn_1_wifiDelayConnection
          \<or> connectionState s1 = conn_2_wifiConnected"
        using st0 unfolding s1_def
        by (auto simp add: connectToWiFi_c_def tryWiFi_c_def step_defs split: if_splits)
      moreover have "connectionState s1 \<noteq> conn_2_wifiConnected"
      proof
        assume "connectionState s1 = conn_2_wifiConnected"
        then have "connect_attempts (trace s2) = connect_attempts (trace s1) + 1"
          unfolding s2_def by (simp add: connectToServer_def tryServer_sum)
        with e2 show False by simp
      qed
      ultimately show ?thesis by simp
    qed
    with v e2 have "s2 = s1" by simp
    with s1st s2s4 have 4: "connectionState s4 = connectionState s1" by simp
    with s1st t have "connectionState s' = connectionState s1" by auto
    moreover have "clientStopTime s' = clientStopTime s"
      using t 4 s1st r d \<open>s2 = s1\<close> w by auto
    ultimately show ?thesis using s1st by simp
  qed
qed


text \<open>What a run of passes of the client does.\<close>

lemma run_c_sum:
  assumes "ticks loop_c es s = Some s'"
  shows "link_attempts (trace s) \<le> link_attempts (trace s')
   \<and> connect_attempts (trace s) \<le> connect_attempts (trace s')
   \<and> stops (trace s) \<le> stops (trace s')
   \<and> failed_connects (trace s) \<le> failed_connects (trace s')
   \<and> (link_attempts (trace s') = link_attempts (trace s)
        \<longrightarrow> wifiConnectTime s' = wifiConnectTime s)
   \<and> (stops (trace s') = stops (trace s)
        \<and> failed_connects (trace s') = failed_connects (trace s)
        \<longrightarrow> clientStopTime s' = clientStopTime s)
   \<and> (connect_attempts (trace s') = connect_attempts (trace s)
        \<and> (connectionState s = conn_1_wifiDelayConnection
           \<or> connectionState s = conn_3_clientDelayConnection)
        \<longrightarrow> (connectionState s' = conn_1_wifiDelayConnection
            \<or> connectionState s' = conn_3_clientDelayConnection)
          \<and> clientStopTime s' = clientStopTime s)
   \<and> (connectionState s \<noteq> conn_0_wifiConnectNow
        \<longrightarrow> connectionState s' \<noteq> conn_0_wifiConnectNow)
   \<and> (connectionState s \<noteq> conn_2_wifiConnected
        \<longrightarrow> connectionState s' \<noteq> conn_2_wifiConnected)"
  using assms
proof (induction es arbitrary: s)
  case Nil
  then show ?case by simp
next
  case (Cons e es)
  then obtain s1 where p: "loop_c e s = Some s1" and r: "ticks loop_c es s1 = Some s'"
    by (auto split: option.splits)
  note a = loop_c_sum [OF p]
  note b = Cons.IH [OF r]
  have 1: "link_attempts (trace s) \<le> link_attempts (trace s')"
    using a(2) b by simp
  have 2: "connect_attempts (trace s) \<le> connect_attempts (trace s')"
    using a(3) b by simp
  have 3: "stops (trace s) \<le> stops (trace s')"
    using a(4) b by simp
  have 4: "failed_connects (trace s) \<le> failed_connects (trace s')"
    using a(5) b by simp
  have 5: "wifiConnectTime s' = wifiConnectTime s"
    if "link_attempts (trace s') = link_attempts (trace s)"
  proof -
    from that a(2) b have "link_attempts (trace s1) = link_attempts (trace s)"
      "link_attempts (trace s') = link_attempts (trace s1)" by simp_all
    with a(6) b show ?thesis by simp
  qed
  have 6: "clientStopTime s' = clientStopTime s"
    if "stops (trace s') = stops (trace s)"
      "failed_connects (trace s') = failed_connects (trace s)"
  proof -
    from that a(4,5) b have "stops (trace s1) = stops (trace s)"
      "stops (trace s') = stops (trace s1)"
      "failed_connects (trace s1) = failed_connects (trace s)"
      "failed_connects (trace s') = failed_connects (trace s1)" by simp_all
    with a(7) b show ?thesis by simp
  qed
  have 7: "(connectionState s' = conn_1_wifiDelayConnection
            \<or> connectionState s' = conn_3_clientDelayConnection)
          \<and> clientStopTime s' = clientStopTime s"
    if "connect_attempts (trace s') = connect_attempts (trace s)"
      "connectionState s = conn_1_wifiDelayConnection
           \<or> connectionState s = conn_3_clientDelayConnection"
  proof -
    from that(1) a(3) b have e: "connect_attempts (trace s1) = connect_attempts (trace s)"
      "connect_attempts (trace s') = connect_attempts (trace s1)" by simp_all
    from a(12) [OF e(1) that(2)] b e(2) show ?thesis by simp
  qed
  have 8: "connectionState s' \<noteq> conn_0_wifiConnectNow"
    using a(9) b by simp
  have 9: "connectionState s' \<noteq> conn_2_wifiConnected"
    using a(10) b by simp
  from 1 2 3 4 5 6 7 8 9 show ?case by blast
qed

lemma link_c_guard:
  assumes "link_attempts (trace (connectToWiFi_c e s)) \<noteq> link_attempts (trace s)"
  shows "(connectionState s = conn_0_wifiConnectNow
          \<or> \<not> t_wifi_check e < wifiConnectTime s + wifiConnectDelay)
     \<and> wifiConnectTime (connectToWiFi_c e s) = t_wifi_done e"
  using assms
  by (cases "connectionState s")
    (simp_all add: connectToWiFi_c_def tryWiFi_c_def step_defs split: if_splits)

text \<open>
  The first connect attempt after a stop or a failed attempt, and the first link attempt
  after a link attempt.
\<close>

lemma next_connect_c:
  assumes p1: "loop_c e1 a = Some b"
    and st: "stops (trace b) \<noteq> stops (trace a)
        \<or> failed_connects (trace b) \<noteq> failed_connects (trace a)"
    and r: "run_c es b = Some b'"
    and idle: "connect_attempts (trace b') = connect_attempts (trace b)"
    and p2: "loop_c e2 b' = Some b''"
    and att: "connect_attempts (trace b'') \<noteq> connect_attempts (trace b')"
    and nl: "link_attempts (trace b'') = link_attempts (trace b')"
  shows "\<not> t_conn_check e2
      < (if stops (trace b) \<noteq> stops (trace a) then t_stop e1 else t_conn_fail e1)
          + clientConnectDelay"
proof -
  from loop_c_sum(7) [OF p1] st have
    T: "clientStopTime b = (if stops (trace b) \<noteq> stops (trace a) then t_stop e1 else t_conn_fail e1)"
    by auto
  from loop_c_sum(8) [OF p1 st] have b3: "connectionState b = conn_3_clientDelayConnection" .
  from run_c_sum [OF r [unfolded run_c_def]] idle b3 have
    b': "connectionState b' = conn_1_wifiDelayConnection
            \<or> connectionState b' = conn_3_clientDelayConnection"
    and T': "clientStopTime b' = clientStopTime b" by simp_all
  from b' have "connectionState b' \<noteq> conn_2_wifiConnected" by auto
  from loop_c_sum(11) [OF p2 att nl this] T' T show ?thesis by simp
qed

lemma next_link_c:
  assumes p1: "loop_c e1 a = Some b"
    and la: "link_attempts (trace b) \<noteq> link_attempts (trace a)"
    and r: "run_c es b = Some b'"
    and idle: "link_attempts (trace b') = link_attempts (trace b)"
    and p2: "loop_c e2 b' = Some b''"
    and att: "link_attempts (trace b'') \<noteq> link_attempts (trace b')"
  shows "\<not> t_wifi_check e2 < t_wifi_done e1 + wifiConnectDelay"
proof -
  from loop_c_sum(6) [OF p1] la have T: "wifiConnectTime b = t_wifi_done e1" by simp
  from loop_c_sum(9) [OF p1] have n0: "connectionState b \<noteq> conn_0_wifiConnectNow" .
  from run_c_sum [OF r [unfolded run_c_def]] idle n0 have
    "connectionState b' \<noteq> conn_0_wifiConnectNow" "wifiConnectTime b' = wifiConnectTime b"
    by simp_all
  moreover from loop_c_sum(1) [OF p2] att have
    "link_attempts (trace (connectToWiFi_c e2 b')) \<noteq> link_attempts (trace b')" by simp
  ultimately show ?thesis using link_c_guard [of e2 b'] T by simp
qed

text \<open>The same for the ticks, the passes and the runs of the server.\<close>

lemma wifi_s_sum:
  "clientStopTime (connectToWiFi_s e s) = clientStopTime s
   \<and> accept_polls (trace (connectToWiFi_s e s)) = accept_polls (trace s)
   \<and> stops (trace (connectToWiFi_s e s)) = stops (trace s)
   \<and> link_attempts (trace s) \<le> link_attempts (trace (connectToWiFi_s e s))
   \<and> wifiConnectTime (connectToWiFi_s e s) =
        (if link_attempts (trace (connectToWiFi_s e s)) \<noteq> link_attempts (trace s)
         then t_wifi_done e else wifiConnectTime s)
   \<and> (link_attempts (trace (connectToWiFi_s e s)) = link_attempts (trace s)
        \<longrightarrow> connectToWiFi_s e s = s)
   \<and> connectionState (connectToWiFi_s e s) \<noteq> conn_0_wifiConnectNow
   \<and> (link_attempts (trace (connectToWiFi_s e s)) \<noteq> link_attempts (trace s)
        \<longrightarrow> connectionState (connectToWiFi_s e s) = conn_1_wifiDelayConnection
          \<or> connectionState (connectToWiFi_s e s) = conn_2_wifiConnected)"
  by (cases "connectionState s") (simp_all add: connectToWiFi_s_def tryWiFi_s_def step_defs)

lemma tryClient_sum:
  "link_attempts (trace (tryClient e s)) = link_attempts (trace s)
   \<and> wifiConnectTime (tryClient e s) = wifiConnectTime s
   \<and> stops (trace (tryClient e s)) = stops (trace s)
   \<and> clientStopTime (tryClient e s) = clientStopTime s
   \<and> accept_polls (trace (tryClient e s)) = accept_polls (trace s) + 1
   \<and> connectionState (tryClient e s) =
        (if accept_connected e then conn_4_clientConnected else connectionState s)"
  by (simp add: tryClient_def step_defs)

lemma client_s_sum:
  "link_attempts (trace (connectToClient e s)) = link_attempts (trace s)
   \<and> wifiConnectTime (connectToClient e s) = wifiConnectTime s
   \<and> stops (trace (connectToClient e s)) = stops (trace s)
   \<and> clientStopTime (connectToClient e s) = clientStopTime s
   \<and> accept_polls (trace s) \<le> accept_polls (trace (connectToClient e s))
   \<and> (connectionState (connectToClient e s) = conn_2_wifiConnected
        \<longrightarrow> \<not> accept_connected e
          \<and> accept_polls (trace (connectToClient e s)) = accept_polls (trace s) + 1)
   \<and> (connectionState s \<noteq> conn_0_wifiConnectNow
        \<longrightarrow> connectionState (connectToClient e s) \<noteq> conn_0_wifiConnectNow)
   \<and> (accept_polls (trace (connectToClient e s)) \<noteq> accept_polls (trace s)
        \<longrightarrow> connectionState s = conn_2_wifiConnected
          \<or> connectionState s = conn_3_clientDelayConnection
            \<and> \<not> t_conn_check e < clientStopTime s + clientConnectDelay)
   \<and> (accept_polls (trace (connectToClient e s)) = accept_polls (trace s)
        \<and> (connectionState s = conn_1_wifiDelayConnection
           \<or> connectionState s = conn_3_clientDelayConnection)
        \<longrightarrow> connectToClient e s = s)"
  by (cases "connectionState s") (simp_all add: connectToClient_def tryClient_sum step_defs)

lemma assemble_s_sum:
  assumes "assembleClientRequest e s = Some s'"
  shows "link_attempts (trace s') = link_attempts (trace s)
   \<and> wifiConnectTime s' = wifiConnectTime s
   \<and> stops (trace s') = stops (trace s)
   \<and> accept_polls (trace s') = accept_polls (trace s)
   \<and> clientStopTime s' = clientStopTime s
   \<and> (connectionState s' = connectionState s
      \<or> connectionState s = conn_4_clientConnected
        \<and> (connectionState s' = conn_5_requestReceived
          \<or> connectionState s' = conn_6_stopClientNow))"
  using assms
  by (auto simp add: assembleClientRequest_def step_defs split: if_splits option.splits)

lemma tail_s_sum:
  "link_attempts (trace (heartbeat_s e (lastConnectionReport
        (stopTCPconnection t (sendResponseToClient e s))))) = link_attempts (trace s)
   \<and> wifiConnectTime (heartbeat_s e (lastConnectionReport
        (stopTCPconnection t (sendResponseToClient e s)))) = wifiConnectTime s
   \<and> accept_polls (trace (heartbeat_s e (lastConnectionReport
        (stopTCPconnection t (sendResponseToClient e s))))) = accept_polls (trace s)
   \<and> stops (trace (heartbeat_s e (lastConnectionReport
        (stopTCPconnection t (sendResponseToClient e s)))))
      = stops (trace s) + (if connectionState s = conn_6_stopClientNow then 1 else 0)
   \<and> clientStopTime (heartbeat_s e (lastConnectionReport
        (stopTCPconnection t (sendResponseToClient e s))))
      = (if connectionState s = conn_6_stopClientNow then t else clientStopTime s)
   \<and> connectionState (heartbeat_s e (lastConnectionReport
        (stopTCPconnection t (sendResponseToClient e s))))
      = (if connectionState s = conn_6_stopClientNow \<or> connectionState s = conn_7_report
         then conn_3_clientDelayConnection
         else if connectionState s = conn_5_requestReceived then conn_4_clientConnected
         else connectionState s)"
  by (cases "connectionState s")
    (simp_all add: heartbeat_s_def lastConnectionReport_def stopTCPconnection_def
      sendResponseToClient_def step_defs)


lemma loop_s_sum:
  assumes "loop_s e s = Some s'"
  shows "link_attempts (trace s') = link_attempts (trace (connectToWiFi_s e s))"
    and "link_attempts (trace s) \<le> link_attempts (trace s')"
    and "accept_polls (trace s) \<le> accept_polls (trace s')"
    and "stops (trace s) \<le> stops (trace s')"
    and "wifiConnectTime s' =
      (if link_attempts (trace s') \<noteq> link_attempts (trace s) then t_wifi_done e
       else wifiConnectTime s)"
    and "clientStopTime s' =
      (if stops (trace s') \<noteq> stops (trace s) then t_stop e else clientStopTime s)"
    and "stops (trace s') \<noteq> stops (trace s)
        \<Longrightarrow> connectionState s' = conn_3_clientDelayConnection"
    and "connectionState s' \<noteq> conn_0_wifiConnectNow"
    and "connectionState s' = conn_2_wifiConnected
        \<Longrightarrow> \<not> accept_connected e \<and> accept_polls (trace s') = accept_polls (trace s) + 1"
    and "accept_polls (trace s') \<noteq> accept_polls (trace s)
        \<Longrightarrow> link_attempts (trace s') = link_attempts (trace s)
        \<Longrightarrow> connectionState s \<noteq> conn_2_wifiConnected
        \<Longrightarrow> connectionState s = conn_3_clientDelayConnection
          \<and> \<not> t_conn_check e < clientStopTime s + clientConnectDelay"
    and "accept_polls (trace s') = accept_polls (trace s)
        \<Longrightarrow> connectionState s = conn_1_wifiDelayConnection
          \<or> connectionState s = conn_3_clientDelayConnection
        \<Longrightarrow> (connectionState s' = conn_1_wifiDelayConnection
            \<or> connectionState s' = conn_3_clientDelayConnection)
          \<and> clientStopTime s' = clientStopTime s"
proof -
  define s1 where "s1 = connectToWiFi_s e s"
  define s2 where "s2 = connectToClient e s1"
  from assms obtain s3 where a: "assembleClientRequest e s2 = Some s3"
    and s': "s' = heartbeat_s e (lastConnectionReport
                (stopTCPconnection (t_stop e) (sendResponseToClient e s3)))"
    by (auto simp add: loop_s_def s1_def s2_def split: option.splits)
  note w = wifi_s_sum [of e s, folded s1_def]
  note v = client_s_sum [of e s1, folded s2_def]
  note r = assemble_s_sum [OF a]
  note t = tail_s_sum [of e "t_stop e" s3, folded s']
  have 1: "link_attempts (trace s') = link_attempts (trace s1)"
    using v r t by simp
  then show "link_attempts (trace s') = link_attempts (trace (connectToWiFi_s e s))"
    by (simp add: s1_def)
  show "link_attempts (trace s) \<le> link_attempts (trace s')"
    using w 1 by simp
  have c: "accept_polls (trace s') = accept_polls (trace s2)"
    using r t by simp
  have k: "stops (trace s') = stops (trace s)
      + (if connectionState s3 = conn_6_stopClientNow then 1 else 0)"
    using w v r t by simp
  show "accept_polls (trace s) \<le> accept_polls (trace s')"
    using w v c by simp
  show "stops (trace s) \<le> stops (trace s')"
    using k by simp
  show "wifiConnectTime s' =
      (if link_attempts (trace s') \<noteq> link_attempts (trace s) then t_wifi_done e
       else wifiConnectTime s)"
    using w v r t 1 by simp
  have st: "clientStopTime s3 = clientStopTime s"
    using w v r by simp
  show "clientStopTime s' =
      (if stops (trace s') \<noteq> stops (trace s) then t_stop e else clientStopTime s)"
    using t k st by simp
  show "connectionState s' = conn_3_clientDelayConnection"
    if "stops (trace s') \<noteq> stops (trace s)"
    using that k t by (simp split: if_splits)
  have n0: "connectionState s3 \<noteq> conn_0_wifiConnectNow"
    using w v r by auto
  show "connectionState s' \<noteq> conn_0_wifiConnectNow"
    using t n0 by simp
  show "\<not> accept_connected e \<and> accept_polls (trace s') = accept_polls (trace s) + 1"
    if "connectionState s' = conn_2_wifiConnected"
  proof -
    from that t have "connectionState s3 = conn_2_wifiConnected"
      by (simp split: if_splits)
    with r have "connectionState s2 = conn_2_wifiConnected" by auto
    with v w c show ?thesis by simp
  qed
  show "connectionState s = conn_3_clientDelayConnection
          \<and> \<not> t_conn_check e < clientStopTime s + clientConnectDelay"
    if "accept_polls (trace s') \<noteq> accept_polls (trace s)"
      "link_attempts (trace s') = link_attempts (trace s)"
      "connectionState s \<noteq> conn_2_wifiConnected"
  proof -
    from that(2) 1 w have "s1 = s" by simp
    moreover from that(1) c w have "accept_polls (trace s2) \<noteq> accept_polls (trace s1)"
      by simp
    ultimately show ?thesis using v that(3) by auto
  qed
  show "(connectionState s' = conn_1_wifiDelayConnection
            \<or> connectionState s' = conn_3_clientDelayConnection)
          \<and> clientStopTime s' = clientStopTime s"
    if eq: "accept_polls (trace s') = accept_polls (trace s)"
      and st0: "connectionState s = conn_1_wifiDelayConnection
          \<or> connectionState s = conn_3_clientDelayConnection"
  proof -
    from eq c w have e2: "accept_polls (trace s2) = accept_polls (trace s1)" by simp
    have s1st: "connectionState s1 = conn_1_wifiDelayConnection
          \<or> connectionState s1 = conn_3_clientDelayConnection"
    proof (cases "link_attempts (trace s1) = link_attempts (trace s)")
      case True
      with w st0 show ?thesis by simp
    next
      case False
      with w have "connectionState s1 = conn_1_wifiDelayConnection
          \<or> connectionState s1 = conn_2_wifiConnected" by simp
      moreover have "connectionState s1 \<noteq> conn_2_wifiConnected"
      proof
        assume "connectionState s1 = conn_2_wifiConnected"
        then have "accept_polls (trace s2) = accept_polls (trace s1) + 1"
          unfolding s2_def by (simp add: connectToClient_def tryClient_sum)
        with e2 show False by simp
      qed
      ultimately show ?thesis by simp
    qed
    with v e2 have "s2 = s1" by simp
    with s1st r have 3: "connectionState s3 = connectionState s1" by auto
    with s1st t have "connectionState s' = connectionState s1" by auto
    moreover have "clientStopTime s' = clientStopTime s"
      using t 3 s1st st by auto
    ultimately show ?thesis using s1st by simp
  qed
qed

lemma run_s_sum:
  assumes "ticks loop_s es s = Some s'"
  shows "link_attempts (trace s) \<le> link_attempts (trace s')
   \<and> accept_polls (trace s) \<le> accept_polls (trace s')
   \<and> stops (trace s) \<le> stops (trace s')
   \<and> (link_attempts (trace s') = link_attempts (trace s)
        \<longrightarrow> wifiConnectTime s' = wifiConnectTime s)
   \<and> (stops (trace s') = stops (trace s) \<longrightarrow> clientStopTime s' = clientStopTime s)
   \<and> (accept_polls (trace s') = accept_polls (trace s)
        \<and> (connectionState s = conn_1_wifiDelayConnection
           \<or> connectionState s = conn_3_clientDelayConnection)
        \<longrightarrow> (connectionState s' = conn_1_wifiDelayConnection
            \<or> connectionState s' = conn_3_clientDelayConnection)
          \<and> clientStopTime s' = clientStopTime s)
   \<and> (connectionState s \<noteq> conn_0_wifiConnectNow
        \<longrightarrow> connectionState s' \<noteq> conn_0_wifiConnectNow)"
  using assms
proof (induction es arbitrary: s)
  case Nil
  then show ?case by simp
next
  case (Cons e es)
  then obtain s1 where p: "loop_s e s = Some s1" and r: "ticks loop_s es s1 = Some s'"
    by (auto split: option.splits)
  note a = loop_s_sum [OF p]
  note b = Cons.IH [OF r]
  have 1: "link_attempts (trace s) \<le> link_attempts (trace s')"
    using a(2) b by simp
  have 2: "accept_polls (trace s) \<le> accept_polls (trace s')"
    using a(3) b by simp
  have 3: "stops (trace s) \<le> stops (trace s')"
    using a(4) b by simp
  have 5: "wifiConnectTime s' = wifiConnectTime s"
    if "link_attempts (trace s') = link_attempts (trace s)"
  proof -
    from that a(2) b have "link_attempts (trace s1) = link_attempts (trace s)"
      "link_attempts (trace s') = link_attempts (trace s1)" by simp_all
    with a(5) b show ?thesis by simp
  qed
  have 6: "clientStopTime s' = clientStopTime s"
    if "stops (trace s') = stops (trace s)"
  proof -
    from that a(4) b have "stops (trace s1) = stops (trace s)"
      "stops (trace s') = stops (trace s1)" by simp_all
    with a(6) b show ?thesis by simp
  qed
  have 7: "(connectionState s' = conn_1_wifiDelayConnection
            \<or> connectionState s' = conn_3_clientDelayConnection)
          \<and> clientStopTime s' = clientStopTime s"
    if "accept_polls (trace s') = accept_polls (trace s)"
      "connectionState s = conn_1_wifiDelayConnection
           \<or> connectionState s = conn_3_clientDelayConnection"
  proof -
    from that(1) a(3) b have e: "accept_polls (trace s1) = accept_polls (trace s)"
      "accept_polls (trace s') = accept_polls (trace s1)" by simp_all
    from a(11) [OF e(1) that(2)] b e(2) show ?thesis by simp
  qed
  have 8: "connectionState s' \<noteq> conn_0_wifiConnectNow"
    using a(8) b by simp
  from 1 2 3 5 6 7 8 show ?case by blast
qed

lemma link_s_guard:
  assumes "link_attempts (trace (connectToWiFi_s e s)) \<noteq> link_attempts (trace s)"
  shows "(connectionState s = conn_0_wifiConnectNow
          \<or> \<not> t_wifi_check e < wifiConnectTime s + wifiConnectDelay)
     \<and> wifiConnectTime (connectToWiFi_s e s) = t_wifi_done e"
  using assms
  by (cases "connectionState s")
    (simp_all add: connectToWiFi_s_def tryWiFi_s_def step_defs split: if_splits)

lemma next_accept_s:
  assumes p1: "loop_s e1 a = Some b"
    and st: "stops (trace b) \<noteq> stops (trace a)"
    and r: "run_s es b = Some b'"
    and idle: "accept_polls (trace b') = accept_polls (trace b)"
    and p2: "loop_s e2 b' = Some b''"
    and att: "accept_polls (trace b'') \<noteq> accept_polls (trace b')"
    and nl: "link_attempts (trace b'') = link_attempts (trace b')"
  shows "\<not> t_conn_check e2 < t_stop e1 + clientConnectDelay"
proof -
  from loop_s_sum(6) [OF p1] st have T: "clientStopTime b = t_stop e1" by simp
  from loop_s_sum(7) [OF p1 st] have b3: "connectionState b = conn_3_clientDelayConnection" .
  from run_s_sum [OF r [unfolded run_s_def]] idle b3 have
    b': "connectionState b' = conn_1_wifiDelayConnection
            \<or> connectionState b' = conn_3_clientDelayConnection"
    and T': "clientStopTime b' = clientStopTime b" by simp_all
  from b' have "connectionState b' \<noteq> conn_2_wifiConnected" by auto
  from loop_s_sum(10) [OF p2 att nl this] T' T show ?thesis by simp
qed

lemma next_link_s:
  assumes p1: "loop_s e1 a = Some b"
    and la: "link_attempts (trace b) \<noteq> link_attempts (trace a)"
    and r: "run_s es b = Some b'"
    and idle: "link_attempts (trace b') = link_attempts (trace b)"
    and p2: "loop_s e2 b' = Some b''"
    and att: "link_attempts (trace b'') \<noteq> link_attempts (trace b')"
  shows "\<not> t_wifi_check e2 < t_wifi_done e1 + wifiConnectDelay"
proof -
  from loop_s_sum(5) [OF p1] la have T: "wifiConnectTime b = t_wifi_done e1" by simp
  from loop_s_sum(8) [OF p1] have n0: "connectionState b \<noteq> conn_0_wifiConnectNow" .
  from run_s_sum [OF r [unfolded run_s_def]] idle n0 have
    "connectionState b' \<noteq> conn_0_wifiConnectNow" "wifiConnectTime b' = wifiConnectTime b"
    by simp_all
  moreover from loop_s_sum(1) [OF p2] att have
    "link_attempts (trace (connectToWiFi_s e2 b')) \<noteq> link_attempts (trace b')" by simp
  ultimately show ?thesis using link_s_guard [of e2 b'] T by simp
qed

text \<open>The guards of the transport ticks, and a property that every pass establishes.\<close>

lemma transport_c_guard:
  assumes "connectionState s = conn_3_clientDelayConnection"
    and "connect_attempts (trace (connectToServer e s)) \<noteq> connect_attempts (trace s)"
  shows "\<not> t_conn_check e < clientStopTime s + clientConnectDelay"
  using assms by (auto simp add: connectToServer_def split: if_splits)

lemma transport_s_guard:
  assumes "connectionState s = conn_3_clientDelayConnection"
    and "accept_polls (trace (connectToClient e s)) \<noteq> accept_polls (trace s)"
  shows "\<not> t_conn_check e < clientStopTime s + clientConnectDelay"
  using assms by (auto simp add: connectToClient_def split: if_splits)

lemma ticks_last:
  assumes step: "\<And>e s s'. f e s = Some s' \<Longrightarrow> Q s'"
    and "ticks f es s = Some s'" and "es \<noteq> []"
  shows "Q s'"
  using assms(2,3)
proof (induction es arbitrary: s)
  case Nil
  then show ?case by simp
next
  case (Cons e es)
  then obtain s1 where 1: "f e s = Some s1" and 2: "ticks f es s1 = Some s'"
    by (auto split: option.splits)
  show ?case
  proof (cases "es = []")
    case True
    with 1 2 show ?thesis by (auto dest: step)
  next
    case False
    with Cons.IH [OF 2] show ?thesis by simp
  qed
qed

text \<open>A run of one pass, and a run whose first pass is known.\<close>

lemma run_c_single: "run_c [e] s = loop_c e s"
  by (simp add: run_c_def split: option.split)

lemma run_c_Cons: "loop_c e s = Some s1 \<Longrightarrow> run_c (e # es) s = run_c es s1"
  by (simp add: run_c_def)

lemma run_s_single: "run_s [e] s = loop_s e s"
  by (simp add: run_s_def split: option.split)

lemma run_s_Cons: "loop_s e s = Some s1 \<Longrightarrow> run_s (e # es) s = run_s es s1"
  by (simp add: run_s_def)

text \<open>
  Claim C1, as the code has it. Where the sum of a time stamp and its delay fits in 32
  bits:

  The link tick makes an attempt in a state other than \<^verbatim>\<open>conn_0_wifiConnectNow\<close> only
  when the clock reads at least \<^verbatim>\<open>wifiConnectTime\<close> plus \<^verbatim>\<open>wifiConnectDelay\<close>. A pass
  sets \<^verbatim>\<open>wifiConnectTime\<close> to the reading taken after its link attempt, a run of passes
  without link attempt leaves it alone, and after the first pass of a run the state is
  never \<^verbatim>\<open>conn_0_wifiConnectNow\<close> again. So the link attempt that follows a link attempt
  completed at T is made when the clock reads at least T plus \<^verbatim>\<open>wifiConnectDelay\<close>; only
  the first attempt of a run is made without a test.

  The transport tick makes an attempt from \<^verbatim>\<open>conn_3_clientDelayConnection\<close> only when the
  clock reads at least \<^verbatim>\<open>clientStopTime\<close> plus \<^verbatim>\<open>clientConnectDelay\<close>. A pass that stops
  the connection sets \<^verbatim>\<open>clientStopTime\<close> to the reading taken after the stop, a pass of
  the client in which \<^verbatim>\<open>client.connect\<close> fails sets it to the reading taken after the
  failure, both end in \<^verbatim>\<open>conn_3_clientDelayConnection\<close>, and a run of passes without stop
  and without failed attempt leaves the time stamp alone. So the first connect attempt
  (for the server: the first accept poll) after a stop or a failed attempt at T', when
  its pass makes no link attempt, is made when the clock reads at least T' plus
  \<^verbatim>\<open>clientConnectDelay\<close>.

  A link attempt that succeeds leaves the state in \<^verbatim>\<open>conn_2_wifiConnected\<close>, one that
  fails in \<^verbatim>\<open>conn_1_wifiDelayConnection\<close>, whatever the state was before; from
  \<^verbatim>\<open>conn_2_wifiConnected\<close> the transport tick makes its attempt at once. A pass that
  makes a transport attempt and no link attempt started in \<^verbatim>\<open>conn_2_wifiConnected\<close> or
  in \<^verbatim>\<open>conn_3_clientDelayConnection\<close> with the delay over. The client never ends a pass in
  \<^verbatim>\<open>conn_2_wifiConnected\<close>; the server ends a pass there only when it has polled in that
  pass and found no peer, and a poll that finds no peer sets no time stamp.
\<close>

theorem retry_delay_guards:
  "(link_attempts (trace (connectToWiFi_c ce c)) \<noteq> link_attempts (trace c)
      \<and> connectionState c \<noteq> conn_0_wifiConnectNow
      \<and> unat (wifiConnectTime c) + unat wifiConnectDelay < 2 ^ 32
    \<longrightarrow> unat (wifiConnectTime c) + unat wifiConnectDelay \<le> unat (t_wifi_check ce))
   \<and> (connect_attempts (trace (connectToServer ce d)) \<noteq> connect_attempts (trace d)
      \<and> connectionState d = conn_3_clientDelayConnection
      \<and> unat (clientStopTime d) + unat clientConnectDelay < 2 ^ 32
    \<longrightarrow> unat (clientStopTime d) + unat clientConnectDelay \<le> unat (t_conn_check ce))
   \<and> (connectionState k = conn_2_wifiConnected
    \<longrightarrow> connect_attempts (trace (connectToServer ce k)) = connect_attempts (trace k) + 1)
   \<and> (link_attempts (trace (connectToWiFi_c ce j)) \<noteq> link_attempts (trace j)
    \<longrightarrow> connectionState (connectToWiFi_c ce j) =
          (if wifi_begin_ok ce then conn_2_wifiConnected else conn_1_wifiDelayConnection))
   \<and> (loop_c e1 b0 = Some b1
    \<longrightarrow> wifiConnectTime b1 =
          (if link_attempts (trace b1) \<noteq> link_attempts (trace b0) then t_wifi_done e1
           else wifiConnectTime b0)
      \<and> clientStopTime b1 =
          (if stops (trace b1) \<noteq> stops (trace b0) then t_stop e1
           else if failed_connects (trace b1) \<noteq> failed_connects (trace b0) then t_conn_fail e1
           else clientStopTime b0)
      \<and> connectionState b1 \<noteq> conn_0_wifiConnectNow
      \<and> connectionState b1 \<noteq> conn_2_wifiConnected)
   \<and> (loop_c e1 b0 = Some b1
      \<and> (stops (trace b1) \<noteq> stops (trace b0)
         \<or> failed_connects (trace b1) \<noteq> failed_connects (trace b0))
    \<longrightarrow> connectionState b1 = conn_3_clientDelayConnection)
   \<and> (run_c bs b1 = Some b2
      \<and> stops (trace b2) = stops (trace b1)
      \<and> failed_connects (trace b2) = failed_connects (trace b1)
    \<longrightarrow> clientStopTime b2 = clientStopTime b1)
   \<and> (loop_c e2 b2 = Some b3
      \<and> connect_attempts (trace b3) \<noteq> connect_attempts (trace b2)
      \<and> link_attempts (trace b3) = link_attempts (trace b2)
      \<and> connectionState b2 \<noteq> conn_2_wifiConnected
      \<and> unat (clientStopTime b2) + unat clientConnectDelay < 2 ^ 32
    \<longrightarrow> connectionState b2 = conn_3_clientDelayConnection
      \<and> unat (clientStopTime b2) + unat clientConnectDelay \<le> unat (t_conn_check e2))
   \<and> (loop_c e1 b0 = Some b1
      \<and> (stops (trace b1) \<noteq> stops (trace b0)
         \<or> failed_connects (trace b1) \<noteq> failed_connects (trace b0))
      \<and> run_c bs b1 = Some b2
      \<and> connect_attempts (trace b2) = connect_attempts (trace b1)
      \<and> loop_c e2 b2 = Some b3
      \<and> connect_attempts (trace b3) \<noteq> connect_attempts (trace b2)
      \<and> link_attempts (trace b3) = link_attempts (trace b2)
      \<and> unat (if stops (trace b1) \<noteq> stops (trace b0) then t_stop e1 else t_conn_fail e1)
           + unat clientConnectDelay < 2 ^ 32
    \<longrightarrow> unat (if stops (trace b1) \<noteq> stops (trace b0) then t_stop e1 else t_conn_fail e1)
           + unat clientConnectDelay \<le> unat (t_conn_check e2))
   \<and> (run_c ls l1 = Some l2 \<and> link_attempts (trace l2) = link_attempts (trace l1)
    \<longrightarrow> wifiConnectTime l2 = wifiConnectTime l1)
   \<and> (loop_c f1 l0 = Some l1
      \<and> link_attempts (trace l1) \<noteq> link_attempts (trace l0)
      \<and> run_c ls l1 = Some l2
      \<and> link_attempts (trace l2) = link_attempts (trace l1)
      \<and> loop_c f2 l2 = Some l3
      \<and> link_attempts (trace l3) \<noteq> link_attempts (trace l2)
      \<and> unat (t_wifi_done f1) + unat wifiConnectDelay < 2 ^ 32
    \<longrightarrow> unat (t_wifi_done f1) + unat wifiConnectDelay \<le> unat (t_wifi_check f2))
   \<and> (ces \<noteq> [] \<and> run_c ces client_init = Some r
    \<longrightarrow> connectionState r \<noteq> conn_0_wifiConnectNow
      \<and> connectionState r \<noteq> conn_2_wifiConnected)
   \<and> (link_attempts (trace (connectToWiFi_s se s)) \<noteq> link_attempts (trace s)
      \<and> connectionState s \<noteq> conn_0_wifiConnectNow
      \<and> unat (wifiConnectTime s) + unat wifiConnectDelay < 2 ^ 32
    \<longrightarrow> unat (wifiConnectTime s) + unat wifiConnectDelay \<le> unat (t_wifi_check se))
   \<and> (accept_polls (trace (connectToClient se u)) \<noteq> accept_polls (trace u)
      \<and> connectionState u = conn_3_clientDelayConnection
      \<and> unat (clientStopTime u) + unat clientConnectDelay < 2 ^ 32
    \<longrightarrow> unat (clientStopTime u) + unat clientConnectDelay \<le> unat (t_conn_check se))
   \<and> (connectionState m = conn_2_wifiConnected
    \<longrightarrow> accept_polls (trace (connectToClient se m)) = accept_polls (trace m) + 1)
   \<and> (link_attempts (trace (connectToWiFi_s se v)) \<noteq> link_attempts (trace v)
    \<longrightarrow> connectionState (connectToWiFi_s se v) =
          (if wifi_begin_ok se then conn_2_wifiConnected else conn_1_wifiDelayConnection))
   \<and> (loop_s g1 q0 = Some q1
    \<longrightarrow> wifiConnectTime q1 =
          (if link_attempts (trace q1) \<noteq> link_attempts (trace q0) then t_wifi_done g1
           else wifiConnectTime q0)
      \<and> clientStopTime q1 =
          (if stops (trace q1) \<noteq> stops (trace q0) then t_stop g1 else clientStopTime q0)
      \<and> connectionState q1 \<noteq> conn_0_wifiConnectNow)
   \<and> (loop_s g1 q0 = Some q1 \<and> stops (trace q1) \<noteq> stops (trace q0)
    \<longrightarrow> connectionState q1 = conn_3_clientDelayConnection)
   \<and> (run_s qs q1 = Some q2 \<and> stops (trace q2) = stops (trace q1)
    \<longrightarrow> clientStopTime q2 = clientStopTime q1)
   \<and> (loop_s g2 q2 = Some q3
      \<and> accept_polls (trace q3) \<noteq> accept_polls (trace q2)
      \<and> link_attempts (trace q3) = link_attempts (trace q2)
      \<and> connectionState q2 \<noteq> conn_2_wifiConnected
      \<and> unat (clientStopTime q2) + unat clientConnectDelay < 2 ^ 32
    \<longrightarrow> connectionState q2 = conn_3_clientDelayConnection
      \<and> unat (clientStopTime q2) + unat clientConnectDelay \<le> unat (t_conn_check g2))
   \<and> (loop_s g2 q2 = Some q3 \<and> connectionState q3 = conn_2_wifiConnected
    \<longrightarrow> \<not> accept_connected g2
      \<and> accept_polls (trace q3) = accept_polls (trace q2) + 1)
   \<and> (loop_s g1 q0 = Some q1
      \<and> stops (trace q1) \<noteq> stops (trace q0)
      \<and> run_s qs q1 = Some q2
      \<and> accept_polls (trace q2) = accept_polls (trace q1)
      \<and> loop_s g2 q2 = Some q3
      \<and> accept_polls (trace q3) \<noteq> accept_polls (trace q2)
      \<and> link_attempts (trace q3) = link_attempts (trace q2)
      \<and> unat (t_stop g1) + unat clientConnectDelay < 2 ^ 32
    \<longrightarrow> unat (t_stop g1) + unat clientConnectDelay \<le> unat (t_conn_check g2))
   \<and> (run_s ns n1 = Some n2 \<and> link_attempts (trace n2) = link_attempts (trace n1)
    \<longrightarrow> wifiConnectTime n2 = wifiConnectTime n1)
   \<and> (loop_s h1 n0 = Some n1
      \<and> link_attempts (trace n1) \<noteq> link_attempts (trace n0)
      \<and> run_s ns n1 = Some n2
      \<and> link_attempts (trace n2) = link_attempts (trace n1)
      \<and> loop_s h2 n2 = Some n3
      \<and> link_attempts (trace n3) \<noteq> link_attempts (trace n2)
      \<and> unat (t_wifi_done h1) + unat wifiConnectDelay < 2 ^ 32
    \<longrightarrow> unat (t_wifi_done h1) + unat wifiConnectDelay \<le> unat (t_wifi_check h2))
   \<and> (ses \<noteq> [] \<and> run_s ses server_init = Some q
    \<longrightarrow> connectionState q \<noteq> conn_0_wifiConnectNow)"
proof -
  have cA: "link_attempts (trace (connectToWiFi_c ce c)) \<noteq> link_attempts (trace c)
      \<and> connectionState c \<noteq> conn_0_wifiConnectNow
      \<and> unat (wifiConnectTime c) + unat wifiConnectDelay < 2 ^ 32
    \<longrightarrow> unat (wifiConnectTime c) + unat wifiConnectDelay \<le> unat (t_wifi_check ce)"
    using link_c_guard [of ce c]
      no_wrap_le [of "t_wifi_check ce" "wifiConnectTime c" wifiConnectDelay]
    by blast
  have cB: "connect_attempts (trace (connectToServer ce d)) \<noteq> connect_attempts (trace d)
      \<and> connectionState d = conn_3_clientDelayConnection
      \<and> unat (clientStopTime d) + unat clientConnectDelay < 2 ^ 32
    \<longrightarrow> unat (clientStopTime d) + unat clientConnectDelay \<le> unat (t_conn_check ce)"
    using transport_c_guard [of d ce]
      no_wrap_le [of "t_conn_check ce" "clientStopTime d" clientConnectDelay]
    by blast
  have cC: "connectionState k = conn_2_wifiConnected
    \<longrightarrow> connect_attempts (trace (connectToServer ce k)) = connect_attempts (trace k) + 1"
    by (simp add: connectToServer_def tryServer_sum)
  have cL: "link_attempts (trace (connectToWiFi_c ce j)) \<noteq> link_attempts (trace j)
    \<longrightarrow> connectionState (connectToWiFi_c ce j) =
          (if wifi_begin_ok ce then conn_2_wifiConnected else conn_1_wifiDelayConnection)"
    by (cases "connectionState j") (simp_all add: connectToWiFi_c_def tryWiFi_c_def step_defs)
  have cD: "loop_c e1 b0 = Some b1
    \<longrightarrow> wifiConnectTime b1 =
          (if link_attempts (trace b1) \<noteq> link_attempts (trace b0) then t_wifi_done e1
           else wifiConnectTime b0)
      \<and> clientStopTime b1 =
          (if stops (trace b1) \<noteq> stops (trace b0) then t_stop e1
           else if failed_connects (trace b1) \<noteq> failed_connects (trace b0) then t_conn_fail e1
           else clientStopTime b0)
      \<and> connectionState b1 \<noteq> conn_0_wifiConnectNow
      \<and> connectionState b1 \<noteq> conn_2_wifiConnected"
    using loop_c_sum(6,7,9,10) [of e1 b0 b1] by blast
  have cD2: "loop_c e1 b0 = Some b1
      \<and> (stops (trace b1) \<noteq> stops (trace b0)
         \<or> failed_connects (trace b1) \<noteq> failed_connects (trace b0))
    \<longrightarrow> connectionState b1 = conn_3_clientDelayConnection"
    using loop_c_sum(8) [of e1 b0 b1] by blast
  have cG2: "run_c bs b1 = Some b2
      \<and> stops (trace b2) = stops (trace b1)
      \<and> failed_connects (trace b2) = failed_connects (trace b1)
    \<longrightarrow> clientStopTime b2 = clientStopTime b1"
    using run_c_sum [of bs b1 b2] by (simp add: run_c_def)
  have cE: "loop_c e2 b2 = Some b3
      \<and> connect_attempts (trace b3) \<noteq> connect_attempts (trace b2)
      \<and> link_attempts (trace b3) = link_attempts (trace b2)
      \<and> connectionState b2 \<noteq> conn_2_wifiConnected
      \<and> unat (clientStopTime b2) + unat clientConnectDelay < 2 ^ 32
    \<longrightarrow> connectionState b2 = conn_3_clientDelayConnection
      \<and> unat (clientStopTime b2) + unat clientConnectDelay \<le> unat (t_conn_check e2)"
    using loop_c_sum(11) [of e2 b2 b3]
      no_wrap_le [of "t_conn_check e2" "clientStopTime b2" clientConnectDelay]
    by blast
  have cH: "loop_c e1 b0 = Some b1
      \<and> (stops (trace b1) \<noteq> stops (trace b0)
         \<or> failed_connects (trace b1) \<noteq> failed_connects (trace b0))
      \<and> run_c bs b1 = Some b2
      \<and> connect_attempts (trace b2) = connect_attempts (trace b1)
      \<and> loop_c e2 b2 = Some b3
      \<and> connect_attempts (trace b3) \<noteq> connect_attempts (trace b2)
      \<and> link_attempts (trace b3) = link_attempts (trace b2)
      \<and> unat (if stops (trace b1) \<noteq> stops (trace b0) then t_stop e1 else t_conn_fail e1)
           + unat clientConnectDelay < 2 ^ 32
    \<longrightarrow> unat (if stops (trace b1) \<noteq> stops (trace b0) then t_stop e1 else t_conn_fail e1)
           + unat clientConnectDelay \<le> unat (t_conn_check e2)"
    using next_connect_c [of e1 b0 b1 bs b2 e2 b3]
      no_wrap_le [of "t_conn_check e2"
        "if stops (trace b1) \<noteq> stops (trace b0) then t_stop e1 else t_conn_fail e1"
        clientConnectDelay]
    by blast
  have cG: "run_c ls l1 = Some l2 \<and> link_attempts (trace l2) = link_attempts (trace l1)
    \<longrightarrow> wifiConnectTime l2 = wifiConnectTime l1"
    using run_c_sum [of ls l1 l2] by (simp add: run_c_def)
  have cI: "loop_c f1 l0 = Some l1
      \<and> link_attempts (trace l1) \<noteq> link_attempts (trace l0)
      \<and> run_c ls l1 = Some l2
      \<and> link_attempts (trace l2) = link_attempts (trace l1)
      \<and> loop_c f2 l2 = Some l3
      \<and> link_attempts (trace l3) \<noteq> link_attempts (trace l2)
      \<and> unat (t_wifi_done f1) + unat wifiConnectDelay < 2 ^ 32
    \<longrightarrow> unat (t_wifi_done f1) + unat wifiConnectDelay \<le> unat (t_wifi_check f2)"
    using next_link_c [of f1 l0 l1 ls l2 f2 l3]
      no_wrap_le [of "t_wifi_check f2" "t_wifi_done f1" wifiConnectDelay]
    by blast
  have cF: "ces \<noteq> [] \<and> run_c ces client_init = Some r
    \<longrightarrow> connectionState r \<noteq> conn_0_wifiConnectNow
      \<and> connectionState r \<noteq> conn_2_wifiConnected"
    using ticks_last [where f = loop_c
        and Q = "\<lambda>x. connectionState x \<noteq> conn_0_wifiConnectNow
          \<and> connectionState x \<noteq> conn_2_wifiConnected"
        and es = ces and s = client_init and s' = r]
      loop_c_sum(9,10)
    by (simp add: run_c_def)
  have sA: "link_attempts (trace (connectToWiFi_s se s)) \<noteq> link_attempts (trace s)
      \<and> connectionState s \<noteq> conn_0_wifiConnectNow
      \<and> unat (wifiConnectTime s) + unat wifiConnectDelay < 2 ^ 32
    \<longrightarrow> unat (wifiConnectTime s) + unat wifiConnectDelay \<le> unat (t_wifi_check se)"
    using link_s_guard [of se s]
      no_wrap_le [of "t_wifi_check se" "wifiConnectTime s" wifiConnectDelay]
    by blast
  have sB: "accept_polls (trace (connectToClient se u)) \<noteq> accept_polls (trace u)
      \<and> connectionState u = conn_3_clientDelayConnection
      \<and> unat (clientStopTime u) + unat clientConnectDelay < 2 ^ 32
    \<longrightarrow> unat (clientStopTime u) + unat clientConnectDelay \<le> unat (t_conn_check se)"
    using transport_s_guard [of u se]
      no_wrap_le [of "t_conn_check se" "clientStopTime u" clientConnectDelay]
    by blast
  have sC: "connectionState m = conn_2_wifiConnected
    \<longrightarrow> accept_polls (trace (connectToClient se m)) = accept_polls (trace m) + 1"
    by (simp add: connectToClient_def tryClient_sum)
  have sL: "link_attempts (trace (connectToWiFi_s se v)) \<noteq> link_attempts (trace v)
    \<longrightarrow> connectionState (connectToWiFi_s se v) =
          (if wifi_begin_ok se then conn_2_wifiConnected else conn_1_wifiDelayConnection)"
    by (cases "connectionState v") (simp_all add: connectToWiFi_s_def tryWiFi_s_def step_defs)
  have sD: "loop_s g1 q0 = Some q1
    \<longrightarrow> wifiConnectTime q1 =
          (if link_attempts (trace q1) \<noteq> link_attempts (trace q0) then t_wifi_done g1
           else wifiConnectTime q0)
      \<and> clientStopTime q1 =
          (if stops (trace q1) \<noteq> stops (trace q0) then t_stop g1 else clientStopTime q0)
      \<and> connectionState q1 \<noteq> conn_0_wifiConnectNow"
    using loop_s_sum(5,6,8) [of g1 q0 q1] by blast
  have sD2: "loop_s g1 q0 = Some q1 \<and> stops (trace q1) \<noteq> stops (trace q0)
    \<longrightarrow> connectionState q1 = conn_3_clientDelayConnection"
    using loop_s_sum(7) [of g1 q0 q1] by blast
  have sG2: "run_s qs q1 = Some q2 \<and> stops (trace q2) = stops (trace q1)
    \<longrightarrow> clientStopTime q2 = clientStopTime q1"
    using run_s_sum [of qs q1 q2] by (simp add: run_s_def)
  have sE: "loop_s g2 q2 = Some q3
      \<and> accept_polls (trace q3) \<noteq> accept_polls (trace q2)
      \<and> link_attempts (trace q3) = link_attempts (trace q2)
      \<and> connectionState q2 \<noteq> conn_2_wifiConnected
      \<and> unat (clientStopTime q2) + unat clientConnectDelay < 2 ^ 32
    \<longrightarrow> connectionState q2 = conn_3_clientDelayConnection
      \<and> unat (clientStopTime q2) + unat clientConnectDelay \<le> unat (t_conn_check g2)"
    using loop_s_sum(10) [of g2 q2 q3]
      no_wrap_le [of "t_conn_check g2" "clientStopTime q2" clientConnectDelay]
    by blast
  have sD3: "loop_s g2 q2 = Some q3 \<and> connectionState q3 = conn_2_wifiConnected
    \<longrightarrow> \<not> accept_connected g2
      \<and> accept_polls (trace q3) = accept_polls (trace q2) + 1"
    using loop_s_sum(9) [of g2 q2 q3] by blast
  have sH: "loop_s g1 q0 = Some q1
      \<and> stops (trace q1) \<noteq> stops (trace q0)
      \<and> run_s qs q1 = Some q2
      \<and> accept_polls (trace q2) = accept_polls (trace q1)
      \<and> loop_s g2 q2 = Some q3
      \<and> accept_polls (trace q3) \<noteq> accept_polls (trace q2)
      \<and> link_attempts (trace q3) = link_attempts (trace q2)
      \<and> unat (t_stop g1) + unat clientConnectDelay < 2 ^ 32
    \<longrightarrow> unat (t_stop g1) + unat clientConnectDelay \<le> unat (t_conn_check g2)"
    using next_accept_s [of g1 q0 q1 qs q2 g2 q3]
      no_wrap_le [of "t_conn_check g2" "t_stop g1" clientConnectDelay]
    by blast
  have sG: "run_s ns n1 = Some n2 \<and> link_attempts (trace n2) = link_attempts (trace n1)
    \<longrightarrow> wifiConnectTime n2 = wifiConnectTime n1"
    using run_s_sum [of ns n1 n2] by (simp add: run_s_def)
  have sI: "loop_s h1 n0 = Some n1
      \<and> link_attempts (trace n1) \<noteq> link_attempts (trace n0)
      \<and> run_s ns n1 = Some n2
      \<and> link_attempts (trace n2) = link_attempts (trace n1)
      \<and> loop_s h2 n2 = Some n3
      \<and> link_attempts (trace n3) \<noteq> link_attempts (trace n2)
      \<and> unat (t_wifi_done h1) + unat wifiConnectDelay < 2 ^ 32
    \<longrightarrow> unat (t_wifi_done h1) + unat wifiConnectDelay \<le> unat (t_wifi_check h2)"
    using next_link_s [of h1 n0 n1 ns n2 h2 n3]
      no_wrap_le [of "t_wifi_check h2" "t_wifi_done h1" wifiConnectDelay]
    by blast
  have sF: "ses \<noteq> [] \<and> run_s ses server_init = Some q
    \<longrightarrow> connectionState q \<noteq> conn_0_wifiConnectNow"
    using ticks_last [where f = loop_s
        and Q = "\<lambda>x. connectionState x \<noteq> conn_0_wifiConnectNow"
        and es = ses and s = server_init and s' = q, OF loop_s_sum(8)]
    by (simp add: run_s_def)
  show ?thesis
    by (rule conjI [OF cA conjI [OF cB conjI [OF cC conjI [OF cL conjI [OF cD conjI [OF cD2
          conjI [OF cG2 conjI [OF cE conjI [OF cH conjI [OF cG conjI [OF cI conjI [OF cF
          conjI [OF sA conjI [OF sB conjI [OF sC conjI [OF sL conjI [OF sD conjI [OF sD2
          conjI [OF sG2 conjI [OF sE conjI [OF sD3 conjI [OF sH conjI [OF sG
          conjI [OF sI sF]]]]]]]]]]]]]]]]]]]]]]]])
qed

theorem retry_delay_guards_witness:
  "link_attempts (trace (connectToWiFi_c delay_over_c retry_wait_c))
      \<noteq> link_attempts (trace retry_wait_c)
   \<and> connectionState retry_wait_c \<noteq> conn_0_wifiConnectNow
   \<and> unat (wifiConnectTime retry_wait_c) + unat wifiConnectDelay < 2 ^ 32
   \<and> unat (wifiConnectTime retry_wait_c) + unat wifiConnectDelay
        \<le> unat (t_wifi_check delay_over_c)
   \<and> connect_attempts (trace (connectToServer delay_over_c stopped_c))
        \<noteq> connect_attempts (trace stopped_c)
   \<and> connectionState stopped_c = conn_3_clientDelayConnection
   \<and> unat (clientStopTime stopped_c) + unat clientConnectDelay < 2 ^ 32
   \<and> unat (clientStopTime stopped_c) + unat clientConnectDelay
        \<le> unat (t_conn_check delay_over_c)
   \<and> connectionState linked_c = conn_2_wifiConnected
   \<and> connect_attempts (trace (connectToServer delay_over_c linked_c))
        = connect_attempts (trace linked_c) + 1
   \<and> wifi_begin_ok delay_over_c
   \<and> connectionState (connectToWiFi_c delay_over_c retry_wait_c) = conn_2_wifiConnected
   \<and> (\<exists>b1 b2 b3. loop_c dropped_c waiting_c = Some b1
       \<and> run_c [early_c] b1 = Some b2
       \<and> loop_c delay_over_c b2 = Some b3
       \<and> stops (trace b1) \<noteq> stops (trace waiting_c)
       \<and> link_attempts (trace b1) = link_attempts (trace waiting_c)
       \<and> stops (trace b2) = stops (trace b1)
       \<and> failed_connects (trace b2) = failed_connects (trace b1)
       \<and> connect_attempts (trace b2) = connect_attempts (trace b1)
       \<and> connect_attempts (trace b3) \<noteq> connect_attempts (trace b2)
       \<and> link_attempts (trace b3) = link_attempts (trace b2)
       \<and> unat (t_stop dropped_c) + unat clientConnectDelay < 2 ^ 32
       \<and> wifiConnectTime b1 = wifiConnectTime waiting_c
       \<and> clientStopTime b1 = t_stop dropped_c
       \<and> connectionState b1 = conn_3_clientDelayConnection
       \<and> clientStopTime b2 = t_stop dropped_c
       \<and> connectionState b2 = conn_3_clientDelayConnection
       \<and> unat (clientStopTime b2) + unat clientConnectDelay \<le> unat (t_conn_check delay_over_c)
       \<and> unat (t_stop dropped_c) + unat clientConnectDelay \<le> unat (t_conn_check delay_over_c))
   \<and> (\<exists>l1 l2 l3. loop_c link_down_c client_init = Some l1
       \<and> run_c [link_wait_c] l1 = Some l2
       \<and> loop_c delay_over_c l2 = Some l3
       \<and> link_attempts (trace l1) \<noteq> link_attempts (trace client_init)
       \<and> link_attempts (trace l2) = link_attempts (trace l1)
       \<and> link_attempts (trace l3) \<noteq> link_attempts (trace l2)
       \<and> unat (t_wifi_done link_down_c) + unat wifiConnectDelay < 2 ^ 32
       \<and> wifiConnectTime l2 = wifiConnectTime l1
       \<and> unat (t_wifi_done link_down_c) + unat wifiConnectDelay
            \<le> unat (t_wifi_check delay_over_c))
   \<and> (\<exists>r. run_c [delay_over_c] client_init = Some r
          \<and> connectionState r \<noteq> conn_0_wifiConnectNow
          \<and> connectionState r \<noteq> conn_2_wifiConnected)
   \<and> link_attempts (trace (connectToWiFi_s delay_over_s retry_wait_s))
        \<noteq> link_attempts (trace retry_wait_s)
   \<and> connectionState retry_wait_s \<noteq> conn_0_wifiConnectNow
   \<and> unat (wifiConnectTime retry_wait_s) + unat wifiConnectDelay < 2 ^ 32
   \<and> unat (wifiConnectTime retry_wait_s) + unat wifiConnectDelay
        \<le> unat (t_wifi_check delay_over_s)
   \<and> accept_polls (trace (connectToClient delay_over_s stopped_s))
        \<noteq> accept_polls (trace stopped_s)
   \<and> connectionState stopped_s = conn_3_clientDelayConnection
   \<and> unat (clientStopTime stopped_s) + unat clientConnectDelay < 2 ^ 32
   \<and> unat (clientStopTime stopped_s) + unat clientConnectDelay
        \<le> unat (t_conn_check delay_over_s)
   \<and> connectionState polling_s = conn_2_wifiConnected
   \<and> accept_polls (trace (connectToClient delay_over_s polling_s))
        = accept_polls (trace polling_s) + 1
   \<and> wifi_begin_ok delay_over_s
   \<and> connectionState (connectToWiFi_s delay_over_s retry_wait_s) = conn_2_wifiConnected
   \<and> (\<exists>q1 q2 q3. loop_s peer_gone_s waiting_s = Some q1
       \<and> run_s [early_s] q1 = Some q2
       \<and> loop_s due_s q2 = Some q3
       \<and> stops (trace q1) \<noteq> stops (trace waiting_s)
       \<and> link_attempts (trace q1) = link_attempts (trace waiting_s)
       \<and> stops (trace q2) = stops (trace q1)
       \<and> accept_polls (trace q2) = accept_polls (trace q1)
       \<and> accept_polls (trace q3) \<noteq> accept_polls (trace q2)
       \<and> link_attempts (trace q3) = link_attempts (trace q2)
       \<and> unat (t_stop peer_gone_s) + unat clientConnectDelay < 2 ^ 32
       \<and> wifiConnectTime q1 = wifiConnectTime waiting_s
       \<and> clientStopTime q1 = t_stop peer_gone_s
       \<and> connectionState q1 = conn_3_clientDelayConnection
       \<and> clientStopTime q2 = t_stop peer_gone_s
       \<and> connectionState q2 = conn_3_clientDelayConnection
       \<and> unat (clientStopTime q2) + unat clientConnectDelay \<le> unat (t_conn_check due_s)
       \<and> unat (t_stop peer_gone_s) + unat clientConnectDelay \<le> unat (t_conn_check due_s)
       \<and> connectionState q3 = conn_2_wifiConnected
       \<and> \<not> accept_connected due_s
       \<and> accept_polls (trace q3) = accept_polls (trace q2) + 1)
   \<and> (\<exists>n1 n2 n3. loop_s link_down_s server_init = Some n1
       \<and> run_s [link_wait_s] n1 = Some n2
       \<and> loop_s delay_over_s n2 = Some n3
       \<and> link_attempts (trace n1) \<noteq> link_attempts (trace server_init)
       \<and> link_attempts (trace n2) = link_attempts (trace n1)
       \<and> link_attempts (trace n3) \<noteq> link_attempts (trace n2)
       \<and> unat (t_wifi_done link_down_s) + unat wifiConnectDelay < 2 ^ 32
       \<and> wifiConnectTime n2 = wifiConnectTime n1
       \<and> unat (t_wifi_done link_down_s) + unat wifiConnectDelay
            \<le> unat (t_wifi_check delay_over_s))
   \<and> (\<exists>q. run_s [delay_over_s] server_init = Some q
          \<and> connectionState q \<noteq> conn_0_wifiConnectNow)"
proof -
  have hc: "link_attempts (trace (connectToWiFi_c delay_over_c retry_wait_c))
      \<noteq> link_attempts (trace retry_wait_c)"
    "connectionState retry_wait_c \<noteq> conn_0_wifiConnectNow"
    "unat (wifiConnectTime retry_wait_c) + unat wifiConnectDelay < 2 ^ 32"
    "connect_attempts (trace (connectToServer delay_over_c stopped_c))
        \<noteq> connect_attempts (trace stopped_c)"
    "connectionState stopped_c = conn_3_clientDelayConnection"
    "unat (clientStopTime stopped_c) + unat clientConnectDelay < 2 ^ 32"
    "connectionState linked_c = conn_2_wifiConnected"
    by (simp_all add: retry_wait_c_def stopped_c_def linked_c_def delay_over_c_def quiet_c_def
        client_defs)
  have hs: "link_attempts (trace (connectToWiFi_s delay_over_s retry_wait_s))
        \<noteq> link_attempts (trace retry_wait_s)"
    "connectionState retry_wait_s \<noteq> conn_0_wifiConnectNow"
    "unat (wifiConnectTime retry_wait_s) + unat wifiConnectDelay < 2 ^ 32"
    "accept_polls (trace (connectToClient delay_over_s stopped_s))
        \<noteq> accept_polls (trace stopped_s)"
    "connectionState stopped_s = conn_3_clientDelayConnection"
    "unat (clientStopTime stopped_s) + unat clientConnectDelay < 2 ^ 32"
    "connectionState polling_s = conn_2_wifiConnected"
    by (simp_all add: retry_wait_s_def stopped_s_def polling_s_def delay_over_s_def quiet_s_def
        server_defs)
  have "\<exists>r. run_c [delay_over_c] client_init = Some r"
    by (simp add: delay_over_c_def quiet_c_def client_defs NUL_def)
  then obtain r where rc: "run_c [delay_over_c] client_init = Some r" by blast
  have "\<exists>q. run_s [delay_over_s] server_init = Some q"
    by (simp add: delay_over_s_def quiet_s_def server_defs NUL_def)
  then obtain q where rs: "run_s [delay_over_s] server_init = Some q" by blast
  have w0: "stops (trace waiting_c) = 0" "link_attempts (trace waiting_c) = 0"
    "stops (trace waiting_s) = 0" "link_attempts (trace waiting_s) = 0"
    "link_attempts (trace client_init) = 0" "link_attempts (trace server_init) = 0"
    by (simp_all add: waiting_c_def waiting_s_def client_init_def server_init_def)
  have "\<exists>x. run_c [dropped_c] waiting_c = Some x \<and> stops (trace x) = 1
      \<and> link_attempts (trace x) = 0 \<and> connect_attempts (trace x) = 0
      \<and> failed_connects (trace x) = 0"
    by (simp add: dropped_c_def waiting_c_def quiet_c_def client_defs NUL_def)
  then obtain b1 where b1: "run_c [dropped_c] waiting_c = Some b1" "stops (trace b1) = 1"
    "link_attempts (trace b1) = 0" "connect_attempts (trace b1) = 0"
    "failed_connects (trace b1) = 0" by blast
  have "\<exists>x. run_c [dropped_c, early_c] waiting_c = Some x \<and> stops (trace x) = 1
      \<and> link_attempts (trace x) = 0 \<and> connect_attempts (trace x) = 0
      \<and> failed_connects (trace x) = 0 \<and> connectionState x \<noteq> conn_2_wifiConnected"
    by (simp add: dropped_c_def early_c_def waiting_c_def quiet_c_def client_defs NUL_def)
  then obtain b2 where b2: "run_c [dropped_c, early_c] waiting_c = Some b2"
    "stops (trace b2) = 1" "link_attempts (trace b2) = 0" "connect_attempts (trace b2) = 0"
    "failed_connects (trace b2) = 0" "connectionState b2 \<noteq> conn_2_wifiConnected" by blast
  have "\<exists>x. run_c [dropped_c, early_c, delay_over_c] waiting_c = Some x
      \<and> link_attempts (trace x) = 0 \<and> connect_attempts (trace x) = 1"
    by (simp add: dropped_c_def early_c_def delay_over_c_def waiting_c_def quiet_c_def
        client_defs NUL_def)
  then obtain b3 where b3: "run_c [dropped_c, early_c, delay_over_c] waiting_c = Some b3"
    "link_attempts (trace b3) = 0" "connect_attempts (trace b3) = 1" by blast
  have pb1: "loop_c dropped_c waiting_c = Some b1"
    using b1(1) by (simp only: run_c_single)
  have rb2: "run_c [early_c] b1 = Some b2"
    using b2(1) by (simp only: run_c_Cons [OF pb1])
  then have pb2: "loop_c early_c b1 = Some b2"
    by (simp only: run_c_single)
  have pb3: "loop_c delay_over_c b2 = Some b3"
    using b3(1) by (simp only: run_c_Cons [OF pb1] run_c_Cons [OF pb2] run_c_single)
  have nb: "unat (t_stop dropped_c) + unat clientConnectDelay < 2 ^ 32"
    by (simp add: dropped_c_def quiet_c_def clientConnectDelay_def)
  have "\<exists>x. run_c [link_down_c] client_init = Some x \<and> link_attempts (trace x) = 1"
    by (simp add: link_down_c_def quiet_c_def client_defs NUL_def)
  then obtain l1 where l1: "run_c [link_down_c] client_init = Some l1"
    "link_attempts (trace l1) = 1" by blast
  have "\<exists>x. run_c [link_down_c, link_wait_c] client_init = Some x
      \<and> link_attempts (trace x) = 1"
    by (simp add: link_down_c_def link_wait_c_def quiet_c_def client_defs NUL_def)
  then obtain l2 where l2: "run_c [link_down_c, link_wait_c] client_init = Some l2"
    "link_attempts (trace l2) = 1" by blast
  have "\<exists>x. run_c [link_down_c, link_wait_c, delay_over_c] client_init = Some x
      \<and> link_attempts (trace x) = 2"
    by (simp add: link_down_c_def link_wait_c_def delay_over_c_def quiet_c_def client_defs
        NUL_def)
  then obtain l3 where l3: "run_c [link_down_c, link_wait_c, delay_over_c] client_init = Some l3"
    "link_attempts (trace l3) = 2" by blast
  have pl1: "loop_c link_down_c client_init = Some l1"
    using l1(1) by (simp only: run_c_single)
  have rl2: "run_c [link_wait_c] l1 = Some l2"
    using l2(1) by (simp only: run_c_Cons [OF pl1])
  then have pl2: "loop_c link_wait_c l1 = Some l2"
    by (simp only: run_c_single)
  have pl3: "loop_c delay_over_c l2 = Some l3"
    using l3(1) by (simp only: run_c_Cons [OF pl1] run_c_Cons [OF pl2] run_c_single)
  have nl: "unat (t_wifi_done link_down_c) + unat wifiConnectDelay < 2 ^ 32"
    by (simp add: link_down_c_def quiet_c_def wifiConnectDelay_def)
  have "\<exists>x. run_s [peer_gone_s] waiting_s = Some x \<and> stops (trace x) = 1
      \<and> link_attempts (trace x) = 0 \<and> accept_polls (trace x) = 0"
    by (simp add: peer_gone_s_def waiting_s_def quiet_s_def server_defs NUL_def)
  then obtain q1 where q1: "run_s [peer_gone_s] waiting_s = Some q1" "stops (trace q1) = 1"
    "link_attempts (trace q1) = 0" "accept_polls (trace q1) = 0" by blast
  have "\<exists>x. run_s [peer_gone_s, early_s] waiting_s = Some x \<and> stops (trace x) = 1
      \<and> link_attempts (trace x) = 0 \<and> accept_polls (trace x) = 0
      \<and> connectionState x \<noteq> conn_2_wifiConnected"
    by (simp add: peer_gone_s_def early_s_def waiting_s_def quiet_s_def server_defs NUL_def)
  then obtain q2 where q2: "run_s [peer_gone_s, early_s] waiting_s = Some q2"
    "stops (trace q2) = 1" "link_attempts (trace q2) = 0" "accept_polls (trace q2) = 0"
    "connectionState q2 \<noteq> conn_2_wifiConnected" by blast
  have "\<exists>x. run_s [peer_gone_s, early_s, due_s] waiting_s = Some x
      \<and> link_attempts (trace x) = 0 \<and> accept_polls (trace x) = 1
      \<and> connectionState x = conn_2_wifiConnected"
    by (simp add: peer_gone_s_def early_s_def due_s_def waiting_s_def quiet_s_def server_defs
        NUL_def)
  then obtain q3 where q3: "run_s [peer_gone_s, early_s, due_s] waiting_s = Some q3"
    "link_attempts (trace q3) = 0" "accept_polls (trace q3) = 1"
    "connectionState q3 = conn_2_wifiConnected" by blast
  have pq1: "loop_s peer_gone_s waiting_s = Some q1"
    using q1(1) by (simp only: run_s_single)
  have rq2: "run_s [early_s] q1 = Some q2"
    using q2(1) by (simp only: run_s_Cons [OF pq1])
  then have pq2: "loop_s early_s q1 = Some q2"
    by (simp only: run_s_single)
  have pq3: "loop_s due_s q2 = Some q3"
    using q3(1) by (simp only: run_s_Cons [OF pq1] run_s_Cons [OF pq2] run_s_single)
  have nq: "unat (t_stop peer_gone_s) + unat clientConnectDelay < 2 ^ 32"
    by (simp add: peer_gone_s_def quiet_s_def clientConnectDelay_def)
  have "\<exists>x. run_s [link_down_s] server_init = Some x \<and> link_attempts (trace x) = 1"
    by (simp add: link_down_s_def quiet_s_def server_defs NUL_def)
  then obtain n1 where n1: "run_s [link_down_s] server_init = Some n1"
    "link_attempts (trace n1) = 1" by blast
  have "\<exists>x. run_s [link_down_s, link_wait_s] server_init = Some x
      \<and> link_attempts (trace x) = 1"
    by (simp add: link_down_s_def link_wait_s_def quiet_s_def server_defs NUL_def)
  then obtain n2 where n2: "run_s [link_down_s, link_wait_s] server_init = Some n2"
    "link_attempts (trace n2) = 1" by blast
  have "\<exists>x. run_s [link_down_s, link_wait_s, delay_over_s] server_init = Some x
      \<and> link_attempts (trace x) = 2"
    by (simp add: link_down_s_def link_wait_s_def delay_over_s_def quiet_s_def server_defs
        NUL_def)
  then obtain n3 where n3: "run_s [link_down_s, link_wait_s, delay_over_s] server_init = Some n3"
    "link_attempts (trace n3) = 2" by blast
  have pn1: "loop_s link_down_s server_init = Some n1"
    using n1(1) by (simp only: run_s_single)
  have rn2: "run_s [link_wait_s] n1 = Some n2"
    using n2(1) by (simp only: run_s_Cons [OF pn1])
  then have pn2: "loop_s link_wait_s n1 = Some n2"
    by (simp only: run_s_single)
  have pn3: "loop_s delay_over_s n2 = Some n3"
    using n3(1) by (simp only: run_s_Cons [OF pn1] run_s_Cons [OF pn2] run_s_single)
  have nn: "unat (t_wifi_done link_down_s) + unat wifiConnectDelay < 2 ^ 32"
    by (simp add: link_down_s_def quiet_s_def wifiConnectDelay_def)
  note t = retry_delay_guards [where ce = delay_over_c and c = retry_wait_c and d = stopped_c
      and k = linked_c and j = retry_wait_c and ?e1.0 = dropped_c and ?b0.0 = waiting_c and ?b1.0 = b1
      and bs = "[early_c]" and ?b2.0 = b2 and ?e2.0 = delay_over_c and ?b3.0 = b3
      and ?f1.0 = link_down_c and ?l0.0 = client_init and ?l1.0 = l1 and ls = "[link_wait_c]"
      and ?l2.0 = l2 and ?f2.0 = delay_over_c and ?l3.0 = l3
      and ces = "[delay_over_c]" and r = r
      and se = delay_over_s and s = retry_wait_s and u = stopped_s and m = polling_s and v = retry_wait_s
      and ?g1.0 = peer_gone_s and ?q0.0 = waiting_s and ?q1.0 = q1 and qs = "[early_s]"
      and ?q2.0 = q2 and ?g2.0 = due_s and ?q3.0 = q3
      and ?h1.0 = link_down_s and ?n0.0 = server_init and ?n1.0 = n1 and ns = "[link_wait_s]"
      and ?n2.0 = n2 and ?h2.0 = delay_over_s and ?n3.0 = n3
      and ses = "[delay_over_s]" and q = q]
  note cA = t [THEN conjunct1]
  note cB = t [THEN conjunct2, THEN conjunct1]
  note cC = t [THEN conjunct2, THEN conjunct2, THEN conjunct1]
  note cL = t [THEN conjunct2, THEN conjunct2, THEN conjunct2, THEN conjunct1]
  note cD = t [THEN conjunct2, THEN conjunct2, THEN conjunct2, THEN conjunct2, THEN conjunct1]
  note cD2 = t [THEN conjunct2, THEN conjunct2, THEN conjunct2, THEN conjunct2, THEN conjunct2, THEN conjunct1]
  note cG2 = t [THEN conjunct2, THEN conjunct2, THEN conjunct2, THEN conjunct2, THEN conjunct2, THEN conjunct2, THEN conjunct1]
  note cE = t [THEN conjunct2, THEN conjunct2, THEN conjunct2, THEN conjunct2, THEN conjunct2, THEN conjunct2, THEN conjunct2, THEN conjunct1]
  note cH = t [THEN conjunct2, THEN conjunct2, THEN conjunct2, THEN conjunct2, THEN conjunct2, THEN conjunct2, THEN conjunct2, THEN conjunct2, THEN conjunct1]
  note cG = t [THEN conjunct2, THEN conjunct2, THEN conjunct2, THEN conjunct2, THEN conjunct2, THEN conjunct2, THEN conjunct2, THEN conjunct2, THEN conjunct2, THEN conjunct1]
  note cI = t [THEN conjunct2, THEN conjunct2, THEN conjunct2, THEN conjunct2, THEN conjunct2, THEN conjunct2, THEN conjunct2, THEN conjunct2, THEN conjunct2, THEN conjunct2, THEN conjunct1]
  note cF = t [THEN conjunct2, THEN conjunct2, THEN conjunct2, THEN conjunct2, THEN conjunct2, THEN conjunct2, THEN conjunct2, THEN conjunct2, THEN conjunct2, THEN conjunct2, THEN conjunct2, THEN conjunct1]
  note sA = t [THEN conjunct2, THEN conjunct2, THEN conjunct2, THEN conjunct2, THEN conjunct2, THEN conjunct2, THEN conjunct2, THEN conjunct2, THEN conjunct2, THEN conjunct2, THEN conjunct2, THEN conjunct2, THEN conjunct1]
  note sB = t [THEN conjunct2, THEN conjunct2, THEN conjunct2, THEN conjunct2, THEN conjunct2, THEN conjunct2, THEN conjunct2, THEN conjunct2, THEN conjunct2, THEN conjunct2, THEN conjunct2, THEN conjunct2, THEN conjunct2, THEN conjunct1]
  note sC = t [THEN conjunct2, THEN conjunct2, THEN conjunct2, THEN conjunct2, THEN conjunct2, THEN conjunct2, THEN conjunct2, THEN conjunct2, THEN conjunct2, THEN conjunct2, THEN conjunct2, THEN conjunct2, THEN conjunct2, THEN conjunct2, THEN conjunct1]
  note sL = t [THEN conjunct2, THEN conjunct2, THEN conjunct2, THEN conjunct2, THEN conjunct2, THEN conjunct2, THEN conjunct2, THEN conjunct2, THEN conjunct2, THEN conjunct2, THEN conjunct2, THEN conjunct2, THEN conjunct2, THEN conjunct2, THEN conjunct2, THEN conjunct1]
  note sD = t [THEN conjunct2, THEN conjunct2, THEN conjunct2, THEN conjunct2, THEN conjunct2, THEN conjunct2, THEN conjunct2, THEN conjunct2, THEN conjunct2, THEN conjunct2, THEN conjunct2, THEN conjunct2, THEN conjunct2, THEN conjunct2, THEN conjunct2, THEN conjunct2, THEN conjunct1]
  note sD2 = t [THEN conjunct2, THEN conjunct2, THEN conjunct2, THEN conjunct2, THEN conjunct2, THEN conjunct2, THEN conjunct2, THEN conjunct2, THEN conjunct2, THEN conjunct2, THEN conjunct2, THEN conjunct2, THEN conjunct2, THEN conjunct2, THEN conjunct2, THEN conjunct2, THEN conjunct2, THEN conjunct1]
  note sG2 = t [THEN conjunct2, THEN conjunct2, THEN conjunct2, THEN conjunct2, THEN conjunct2, THEN conjunct2, THEN conjunct2, THEN conjunct2, THEN conjunct2, THEN conjunct2, THEN conjunct2, THEN conjunct2, THEN conjunct2, THEN conjunct2, THEN conjunct2, THEN conjunct2, THEN conjunct2, THEN conjunct2, THEN conjunct1]
  note sE = t [THEN conjunct2, THEN conjunct2, THEN conjunct2, THEN conjunct2, THEN conjunct2, THEN conjunct2, THEN conjunct2, THEN conjunct2, THEN conjunct2, THEN conjunct2, THEN conjunct2, THEN conjunct2, THEN conjunct2, THEN conjunct2, THEN conjunct2, THEN conjunct2, THEN conjunct2, THEN conjunct2, THEN conjunct2, THEN conjunct1]
  note sD3 = t [THEN conjunct2, THEN conjunct2, THEN conjunct2, THEN conjunct2, THEN conjunct2, THEN conjunct2, THEN conjunct2, THEN conjunct2, THEN conjunct2, THEN conjunct2, THEN conjunct2, THEN conjunct2, THEN conjunct2, THEN conjunct2, THEN conjunct2, THEN conjunct2, THEN conjunct2, THEN conjunct2, THEN conjunct2, THEN conjunct2, THEN conjunct1]
  note sH = t [THEN conjunct2, THEN conjunct2, THEN conjunct2, THEN conjunct2, THEN conjunct2, THEN conjunct2, THEN conjunct2, THEN conjunct2, THEN conjunct2, THEN conjunct2, THEN conjunct2, THEN conjunct2, THEN conjunct2, THEN conjunct2, THEN conjunct2, THEN conjunct2, THEN conjunct2, THEN conjunct2, THEN conjunct2, THEN conjunct2, THEN conjunct2, THEN conjunct1]
  note sG = t [THEN conjunct2, THEN conjunct2, THEN conjunct2, THEN conjunct2, THEN conjunct2, THEN conjunct2, THEN conjunct2, THEN conjunct2, THEN conjunct2, THEN conjunct2, THEN conjunct2, THEN conjunct2, THEN conjunct2, THEN conjunct2, THEN conjunct2, THEN conjunct2, THEN conjunct2, THEN conjunct2, THEN conjunct2, THEN conjunct2, THEN conjunct2, THEN conjunct2, THEN conjunct1]
  note sI = t [THEN conjunct2, THEN conjunct2, THEN conjunct2, THEN conjunct2, THEN conjunct2, THEN conjunct2, THEN conjunct2, THEN conjunct2, THEN conjunct2, THEN conjunct2, THEN conjunct2, THEN conjunct2, THEN conjunct2, THEN conjunct2, THEN conjunct2, THEN conjunct2, THEN conjunct2, THEN conjunct2, THEN conjunct2, THEN conjunct2, THEN conjunct2, THEN conjunct2, THEN conjunct2, THEN conjunct1]
  note sF = t [THEN conjunct2, THEN conjunct2, THEN conjunct2, THEN conjunct2, THEN conjunct2, THEN conjunct2, THEN conjunct2, THEN conjunct2, THEN conjunct2, THEN conjunct2, THEN conjunct2, THEN conjunct2, THEN conjunct2, THEN conjunct2, THEN conjunct2, THEN conjunct2, THEN conjunct2, THEN conjunct2, THEN conjunct2, THEN conjunct2, THEN conjunct2, THEN conjunct2, THEN conjunct2, THEN conjunct2]
  have a1: "unat (wifiConnectTime retry_wait_c) + unat wifiConnectDelay
        \<le> unat (t_wifi_check delay_over_c)"
    using cA hc(1-3) by simp
  have a2: "unat (clientStopTime stopped_c) + unat clientConnectDelay
        \<le> unat (t_conn_check delay_over_c)"
    using cB hc(4-6) by simp
  have a3: "connect_attempts (trace (connectToServer delay_over_c linked_c))
        = connect_attempts (trace linked_c) + 1"
    using cC hc(7) by simp
  have wb: "wifi_begin_ok delay_over_c" "wifi_begin_ok delay_over_s"
    by (simp_all add: delay_over_c_def delay_over_s_def quiet_c_def quiet_s_def)
  have a4: "connectionState (connectToWiFi_c delay_over_c retry_wait_c) = conn_2_wifiConnected"
    using cL hc(1) wb(1) by simp
  have e4: "connectionState (connectToWiFi_s delay_over_s retry_wait_s) = conn_2_wifiConnected"
    using sL hs(1) wb(2) by simp
  have d1: "wifiConnectTime b1 = wifiConnectTime waiting_c"
    "clientStopTime b1 = t_stop dropped_c"
    using cD pb1 b1(2,3) w0(1,2) by simp_all
  have d2: "connectionState b1 = conn_3_clientDelayConnection"
    using cD2 pb1 b1(2) w0(1) by simp
  have d3: "clientStopTime b2 = clientStopTime b1"
    using cG2 rb2 b1(2,5) b2(2,5) by simp
  have d4: "connectionState b2 = conn_3_clientDelayConnection"
    "unat (clientStopTime b2) + unat clientConnectDelay \<le> unat (t_conn_check delay_over_c)"
    using cE pb3 b2(3,4,6) b3(2,3) d3 d1(2) nb by simp_all
  have d5: "unat (t_stop dropped_c) + unat clientConnectDelay \<le> unat (t_conn_check delay_over_c)"
    using cH pb1 rb2 pb3 b1(2,4) w0(1) b2(3,4) b3(2,3) nb by simp
  have d6: "wifiConnectTime l2 = wifiConnectTime l1"
    using cG rl2 l1(2) l2(2) by simp
  have d7: "unat (t_wifi_done link_down_c) + unat wifiConnectDelay
            \<le> unat (t_wifi_check delay_over_c)"
    using cI pl1 rl2 pl3 l1(2) l2(2) l3(2) w0(5) nl by simp
  have d8: "connectionState r \<noteq> conn_0_wifiConnectNow"
    "connectionState r \<noteq> conn_2_wifiConnected"
    using cF rc by simp_all
  have e1: "unat (wifiConnectTime retry_wait_s) + unat wifiConnectDelay
        \<le> unat (t_wifi_check delay_over_s)"
    using sA hs(1-3) by simp
  have e2: "unat (clientStopTime stopped_s) + unat clientConnectDelay
        \<le> unat (t_conn_check delay_over_s)"
    using sB hs(4-6) by simp
  have e3: "accept_polls (trace (connectToClient delay_over_s polling_s))
        = accept_polls (trace polling_s) + 1"
    using sC hs(7) by simp
  have f1: "wifiConnectTime q1 = wifiConnectTime waiting_s"
    "clientStopTime q1 = t_stop peer_gone_s"
    using sD pq1 q1(2,3) w0(3,4) by simp_all
  have f2: "connectionState q1 = conn_3_clientDelayConnection"
    using sD2 pq1 q1(2) w0(3) by simp
  have f3: "clientStopTime q2 = clientStopTime q1"
    using sG2 rq2 q1(2) q2(2) by simp
  have f4: "connectionState q2 = conn_3_clientDelayConnection"
    "unat (clientStopTime q2) + unat clientConnectDelay \<le> unat (t_conn_check due_s)"
    using sE pq3 q2(3,4,5) q3(2,3) f3 f1(2) nq by simp_all
  have f4': "\<not> accept_connected due_s"
    "accept_polls (trace q3) = accept_polls (trace q2) + 1"
    using sD3 pq3 q3(4) by simp_all
  have f5: "unat (t_stop peer_gone_s) + unat clientConnectDelay \<le> unat (t_conn_check due_s)"
    using sH pq1 rq2 pq3 q1(2,4) w0(3) q2(3,4) q3(2,3) nq by simp
  have f6: "wifiConnectTime n2 = wifiConnectTime n1"
    using sG rn2 n1(2) n2(2) by simp
  have f7: "unat (t_wifi_done link_down_s) + unat wifiConnectDelay
            \<le> unat (t_wifi_check delay_over_s)"
    using sI pn1 rn2 pn3 n1(2) n2(2) n3(2) w0(6) nn by simp
  have f8: "connectionState q \<noteq> conn_0_wifiConnectNow"
    using sF rs by simp
  have xb: "\<exists>b1 b2 b3. loop_c dropped_c waiting_c = Some b1
       \<and> run_c [early_c] b1 = Some b2
       \<and> loop_c delay_over_c b2 = Some b3
       \<and> stops (trace b1) \<noteq> stops (trace waiting_c)
       \<and> link_attempts (trace b1) = link_attempts (trace waiting_c)
       \<and> stops (trace b2) = stops (trace b1)
       \<and> failed_connects (trace b2) = failed_connects (trace b1)
       \<and> connect_attempts (trace b2) = connect_attempts (trace b1)
       \<and> connect_attempts (trace b3) \<noteq> connect_attempts (trace b2)
       \<and> link_attempts (trace b3) = link_attempts (trace b2)
       \<and> unat (t_stop dropped_c) + unat clientConnectDelay < 2 ^ 32
       \<and> wifiConnectTime b1 = wifiConnectTime waiting_c
       \<and> clientStopTime b1 = t_stop dropped_c
       \<and> connectionState b1 = conn_3_clientDelayConnection
       \<and> clientStopTime b2 = t_stop dropped_c
       \<and> connectionState b2 = conn_3_clientDelayConnection
       \<and> unat (clientStopTime b2) + unat clientConnectDelay \<le> unat (t_conn_check delay_over_c)
       \<and> unat (t_stop dropped_c) + unat clientConnectDelay \<le> unat (t_conn_check delay_over_c)"
    using pb1 rb2 pb3 b1 b2 b3 w0 nb d1 d2 d3 d4 d5
    by (intro exI [of _ b1] exI [of _ b2] exI [of _ b3]) simp
  have xl: "\<exists>l1 l2 l3. loop_c link_down_c client_init = Some l1
       \<and> run_c [link_wait_c] l1 = Some l2
       \<and> loop_c delay_over_c l2 = Some l3
       \<and> link_attempts (trace l1) \<noteq> link_attempts (trace client_init)
       \<and> link_attempts (trace l2) = link_attempts (trace l1)
       \<and> link_attempts (trace l3) \<noteq> link_attempts (trace l2)
       \<and> unat (t_wifi_done link_down_c) + unat wifiConnectDelay < 2 ^ 32
       \<and> wifiConnectTime l2 = wifiConnectTime l1
       \<and> unat (t_wifi_done link_down_c) + unat wifiConnectDelay
            \<le> unat (t_wifi_check delay_over_c)"
    using pl1 rl2 pl3 l1 l2 l3 w0 nl d6 d7
    by (intro exI [of _ l1] exI [of _ l2] exI [of _ l3]) simp
  have xq: "\<exists>q1 q2 q3. loop_s peer_gone_s waiting_s = Some q1
       \<and> run_s [early_s] q1 = Some q2
       \<and> loop_s due_s q2 = Some q3
       \<and> stops (trace q1) \<noteq> stops (trace waiting_s)
       \<and> link_attempts (trace q1) = link_attempts (trace waiting_s)
       \<and> stops (trace q2) = stops (trace q1)
       \<and> accept_polls (trace q2) = accept_polls (trace q1)
       \<and> accept_polls (trace q3) \<noteq> accept_polls (trace q2)
       \<and> link_attempts (trace q3) = link_attempts (trace q2)
       \<and> unat (t_stop peer_gone_s) + unat clientConnectDelay < 2 ^ 32
       \<and> wifiConnectTime q1 = wifiConnectTime waiting_s
       \<and> clientStopTime q1 = t_stop peer_gone_s
       \<and> connectionState q1 = conn_3_clientDelayConnection
       \<and> clientStopTime q2 = t_stop peer_gone_s
       \<and> connectionState q2 = conn_3_clientDelayConnection
       \<and> unat (clientStopTime q2) + unat clientConnectDelay \<le> unat (t_conn_check due_s)
       \<and> unat (t_stop peer_gone_s) + unat clientConnectDelay \<le> unat (t_conn_check due_s)
       \<and> connectionState q3 = conn_2_wifiConnected
       \<and> \<not> accept_connected due_s
       \<and> accept_polls (trace q3) = accept_polls (trace q2) + 1"
    using pq1 rq2 pq3 q1 q2 q3 w0 nq f1 f2 f3 f4 f4' f5
    by (intro exI [of _ q1] exI [of _ q2] exI [of _ q3]) simp
  have xn: "\<exists>n1 n2 n3. loop_s link_down_s server_init = Some n1
       \<and> run_s [link_wait_s] n1 = Some n2
       \<and> loop_s delay_over_s n2 = Some n3
       \<and> link_attempts (trace n1) \<noteq> link_attempts (trace server_init)
       \<and> link_attempts (trace n2) = link_attempts (trace n1)
       \<and> link_attempts (trace n3) \<noteq> link_attempts (trace n2)
       \<and> unat (t_wifi_done link_down_s) + unat wifiConnectDelay < 2 ^ 32
       \<and> wifiConnectTime n2 = wifiConnectTime n1
       \<and> unat (t_wifi_done link_down_s) + unat wifiConnectDelay
            \<le> unat (t_wifi_check delay_over_s)"
    using pn1 rn2 pn3 n1 n2 n3 w0 nn f6 f7
    by (intro exI [of _ n1] exI [of _ n2] exI [of _ n3]) simp
  have xr: "\<exists>r. run_c [delay_over_c] client_init = Some r
          \<and> connectionState r \<noteq> conn_0_wifiConnectNow
          \<and> connectionState r \<noteq> conn_2_wifiConnected"
    using rc d8 by blast
  have xs: "\<exists>q. run_s [delay_over_s] server_init = Some q
          \<and> connectionState q \<noteq> conn_0_wifiConnectNow"
    using rs f8 by blast
  show ?thesis
    by (rule conjI [OF hc(1) conjI [OF hc(2) conjI [OF hc(3) conjI [OF a1
          conjI [OF hc(4) conjI [OF hc(5) conjI [OF hc(6) conjI [OF a2
          conjI [OF hc(7) conjI [OF a3 conjI [OF wb(1) conjI [OF a4 conjI [OF xb conjI [OF xl conjI [OF xr
          conjI [OF hs(1) conjI [OF hs(2) conjI [OF hs(3) conjI [OF e1
          conjI [OF hs(4) conjI [OF hs(5) conjI [OF hs(6) conjI [OF e2
          conjI [OF hs(7) conjI [OF e3 conjI [OF wb(2) conjI [OF e4 conjI [OF xq conjI [OF xn xs]]]]]]]]]]]]]]]]]]]]]]]]]]]]])
qed

section \<open>Diagnostics of the accept poll\<close>

lemma ticks_append:
  "ticks f (xs @ ys) s = (case ticks f xs s of None \<Rightarrow> None | Some s' \<Rightarrow> ticks f ys s')"
  by (induction xs arbitrary: s) (simp_all split: option.splits)

lemma tryClient_failed:
  assumes "\<not> accept_connected e"
  shows "tryClient e s =
      s\<lparr>trace := trace s @ poll_output (ConnTriesAfterStateChange s) (reportToSerialMonitor s),
        ConnTriesAfterStateChange := ConnTriesAfterStateChange s + 1\<rparr>"
proof -
  have "(21 :: ulong) = 20 + 1" by simp
  then have "ConnTriesAfterStateChange s + 1 = 21 \<longleftrightarrow> ConnTriesAfterStateChange s = 20"
    by (simp only: add_right_cancel)
  then show ?thesis
    using assms by (simp add: tryClient_def poll_output_def step_defs)
qed

lemma idle_pass:
  assumes "connectionState s = conn_2_wifiConnected" and "idle_poll (lastHeartbeat s) e"
  shows "loop_s e s =
      Some (s\<lparr>trace := trace s @ poll_output (ConnTriesAfterStateChange s) (reportToSerialMonitor s),
              ConnTriesAfterStateChange := ConnTriesAfterStateChange s + 1\<rparr>)"
proof -
  from assms(2) have e: "wifi_status_ok e" "\<not> accept_connected e"
    "\<not> lastHeartbeat s + heartbeatPeriod < t_hb_check e"
    by (simp_all add: idle_poll_def)
  have 1: "connectToWiFi_s e s = s"
    using assms(1) e(1) by (simp add: connectToWiFi_s_def)
  have 2: "connectToClient e s = tryClient e s"
    using assms(1) by (simp add: connectToClient_def)
  show ?thesis
    using assms(1) e(3)
    by (simp add: loop_s_def 1 2 tryClient_failed [OF e(2)] assembleClientRequest_def
        sendResponseToClient_def stopTCPconnection_def lastConnectionReport_def heartbeat_s_def)
qed

lemma unat_succ: "unat (n :: ulong) + 1 < 2 ^ 32 \<Longrightarrow> unat (n + 1) = unat n + 1"
  by (simp add: unat_word_ariths)

lemma le_20: "(n :: ulong) \<le> 20 \<longleftrightarrow> unat n \<le> 20"
  by (simp add: word_le_nat_alt)

lemma poll_marks_poll_output:
  "poll_marks (poll_output n report) = (if unat n \<le> 20 \<and> report then 1 else 0)"
  by (simp add: poll_output_def le_20)

lemma idle_passes:
  assumes "connectionState s = conn_2_wifiConnected" and "reportToSerialMonitor s"
    and "list_all (idle_poll (lastHeartbeat s)) es"
    and "unat (ConnTriesAfterStateChange s) + length es < 2 ^ 32"
  shows "\<exists>s'. run_s es s = Some s'
      \<and> connectionState s' = conn_2_wifiConnected \<and> reportToSerialMonitor s'
      \<and> lastHeartbeat s' = lastHeartbeat s
      \<and> reportingStartTime s' = reportingStartTime s
      \<and> unat (ConnTriesAfterStateChange s') = unat (ConnTriesAfterStateChange s) + length es
      \<and> poll_marks (trace s') + min (unat (ConnTriesAfterStateChange s)) 21 =
            poll_marks (trace s) + min (unat (ConnTriesAfterStateChange s) + length es) 21
      \<and> entered (trace s') = entered (trace s)
      \<and> link_attempts (trace s') = link_attempts (trace s)"
  using assms
proof (induction es arbitrary: s)
  case Nil
  then show ?case by (simp add: run_s_def)
next
  case (Cons e es)
  define s1 where "s1 = s\<lparr>trace := trace s @
      poll_output (ConnTriesAfterStateChange s) (reportToSerialMonitor s),
      ConnTriesAfterStateChange := ConnTriesAfterStateChange s + 1\<rparr>"
  from Cons.prems have p: "loop_s e s = Some s1"
    unfolding s1_def by (intro idle_pass) simp_all
  from Cons.prems(4) have u: "unat (ConnTriesAfterStateChange s1) = unat (ConnTriesAfterStateChange s) + 1"
    by (simp add: s1_def unat_succ)
  have k: "connectionState s1 = conn_2_wifiConnected" "reportToSerialMonitor s1"
    "list_all (idle_poll (lastHeartbeat s1)) es"
    "unat (ConnTriesAfterStateChange s1) + length es < 2 ^ 32"
    using Cons.prems u by (simp_all add: s1_def)
  have m: "poll_marks (trace s1) = poll_marks (trace s)
      + (if unat (ConnTriesAfterStateChange s) \<le> 20 then 1 else 0)"
    using Cons.prems(2) by (simp add: s1_def poll_marks_poll_output)
  have f: "lastHeartbeat s1 = lastHeartbeat s" "reportingStartTime s1 = reportingStartTime s"
    "entered (trace s1) = entered (trace s)" "link_attempts (trace s1) = link_attempts (trace s)"
    by (simp_all add: s1_def poll_output_def)
  from Cons.IH [OF k] obtain s' where r: "run_s es s1 = Some s'"
    and c: "connectionState s' = conn_2_wifiConnected" "reportToSerialMonitor s'"
      "lastHeartbeat s' = lastHeartbeat s1" "reportingStartTime s' = reportingStartTime s1"
      "unat (ConnTriesAfterStateChange s') = unat (ConnTriesAfterStateChange s1) + length es"
      "poll_marks (trace s') + min (unat (ConnTriesAfterStateChange s1)) 21 =
            poll_marks (trace s1) + min (unat (ConnTriesAfterStateChange s1) + length es) 21"
      "entered (trace s') = entered (trace s1)"
      "link_attempts (trace s') = link_attempts (trace s1)"
    by blast
  have "run_s (e # es) s = Some s'"
    using p r by (simp add: run_s_def)
  moreover have "poll_marks (trace s') + min (unat (ConnTriesAfterStateChange s)) 21 =
      poll_marks (trace s) + min (unat (ConnTriesAfterStateChange s) + length (e # es)) 21"
    using c(6) m u by (simp split: if_splits add: min_def)
  ultimately show ?case
    using c f u by simp
qed

lemma heartbeat_pass:
  assumes "connectionState s = conn_2_wifiConnected"
    and "wifi_status_ok e" and "\<not> accept_connected e"
    and "lastHeartbeat s + heartbeatPeriod < t_hb_check e"
    and "reportingStartTime s + reportingTimeout > t_hb_window e"
  shows "\<exists>s'. loop_s e s = Some s'
      \<and> connectionState s' = conn_2_wifiConnected
      \<and> reportToSerialMonitor s' = reportToSerialMonitor s
      \<and> lastHeartbeat s' = t_hb_done e
      \<and> ConnTriesAfterStateChange s' = 0
      \<and> poll_marks (trace s') = poll_marks (trace s)
            + poll_marks (poll_output (ConnTriesAfterStateChange s) (reportToSerialMonitor s))
      \<and> entered (trace s') = entered (trace s)
      \<and> link_attempts (trace s') = link_attempts (trace s)"
proof -
  have 1: "connectToWiFi_s e s = s"
    using assms(1,2) by (simp add: connectToWiFi_s_def)
  have 2: "connectToClient e s = tryClient e s"
    using assms(1) by (simp add: connectToClient_def)
  show ?thesis
    using assms(1,4,5)
    by (simp add: loop_s_def 1 2 tryClient_failed [OF assms(3)] assembleClientRequest_def
        sendResponseToClient_def stopTCPconnection_def lastConnectionReport_def heartbeat_s_def
        step_defs poll_output_def)
qed

text \<open>
  After the link has come up the server polls 23 times without finding a peer: the first
  21 polls are marked with "<", the last two are not. The heartbeat that falls due in
  the next pass puts the counter back to 0, and the poll after it is marked again,
  although the link was brought up only once and the only state ever entered is state 2.
\<close>

theorem poll_counter_restarts_at_heartbeat:
  "map_option (poll_marks \<circ> trace) (run_s (link_up_s # replicate 22 poll_s) server_init) = Some 21
   \<and> map_option ConnTriesAfterStateChange
        (run_s (link_up_s # replicate 22 poll_s) server_init) = Some 23
   \<and> map_option ConnTriesAfterStateChange
        (run_s ((link_up_s # replicate 22 poll_s) @ [beat_s]) server_init) = Some 0
   \<and> map_option (poll_marks \<circ> trace)
        (run_s ((link_up_s # replicate 22 poll_s) @ [beat_s]) server_init) = Some 21
   \<and> map_option (poll_marks \<circ> trace)
        (run_s ((link_up_s # replicate 22 poll_s) @ [beat_s, late_poll_s]) server_init) = Some 22
   \<and> map_option (entered \<circ> trace)
        (run_s ((link_up_s # replicate 22 poll_s) @ [beat_s, late_poll_s]) server_init) = Some [2]
   \<and> map_option (link_attempts \<circ> trace)
        (run_s ((link_up_s # replicate 22 poll_s) @ [beat_s, late_poll_s]) server_init) = Some 1"
proof -
  have "\<exists>s. loop_s link_up_s server_init = Some s \<and> ConnTriesAfterStateChange s = 1
      \<and> connectionState s = conn_2_wifiConnected \<and> reportToSerialMonitor s
      \<and> lastHeartbeat s = 0 \<and> reportingStartTime s = 100
      \<and> poll_marks (trace s) = 1 \<and> entered (trace s) = [2] \<and> link_attempts (trace s) = 1"
    by (simp add: link_up_s_def quiet_s_def server_defs NUL_def)
  then obtain s1 where p1: "loop_s link_up_s server_init = Some s1"
    and a1: "ConnTriesAfterStateChange s1 = 1" "connectionState s1 = conn_2_wifiConnected"
      "reportToSerialMonitor s1" "lastHeartbeat s1 = 0" "reportingStartTime s1 = 100"
      "poll_marks (trace s1) = 1" "entered (trace s1) = [2]" "link_attempts (trace s1) = 1"
    by blast
  have i1: "list_all (idle_poll (lastHeartbeat s1)) (replicate 22 poll_s)"
    by (simp add: list_all_iff a1 idle_poll_def poll_s_def quiet_s_def heartbeatPeriod_def)
  have "unat (ConnTriesAfterStateChange s1) + length (replicate 22 poll_s) < 2 ^ 32"
    by (simp add: a1)
  from idle_passes [OF a1(2) a1(3) i1 this] obtain s2
    where p2: "run_s (replicate 22 poll_s) s1 = Some s2"
      and a2: "connectionState s2 = conn_2_wifiConnected" "reportToSerialMonitor s2"
        "lastHeartbeat s2 = 0" "reportingStartTime s2 = 100"
        "unat (ConnTriesAfterStateChange s2) = 23" "poll_marks (trace s2) = 21"
        "entered (trace s2) = [2]" "link_attempts (trace s2) = 1"
    by (auto simp add: a1)
  from a2(5) have n2: "ConnTriesAfterStateChange s2 = 23"
    by (simp add: word_unat_eq_iff)
  have r2: "run_s (link_up_s # replicate 22 poll_s) server_init = Some s2"
    using p1 p2 by (simp add: run_s_def)
  have "\<exists>s'. loop_s beat_s s2 = Some s'
      \<and> connectionState s' = conn_2_wifiConnected
      \<and> reportToSerialMonitor s' = reportToSerialMonitor s2
      \<and> lastHeartbeat s' = t_hb_done beat_s
      \<and> ConnTriesAfterStateChange s' = 0
      \<and> poll_marks (trace s') = poll_marks (trace s2)
            + poll_marks (poll_output (ConnTriesAfterStateChange s2) (reportToSerialMonitor s2))
      \<and> entered (trace s') = entered (trace s2)
      \<and> link_attempts (trace s') = link_attempts (trace s2)"
    by (rule heartbeat_pass [OF a2(1)])
      (simp_all add: a2 beat_s_def quiet_s_def heartbeatPeriod_def reportingTimeout_def)
  then obtain s3 where p3: "loop_s beat_s s2 = Some s3"
    and a3: "connectionState s3 = conn_2_wifiConnected" "reportToSerialMonitor s3"
      "lastHeartbeat s3 = 1004" "ConnTriesAfterStateChange s3 = 0"
      "poll_marks (trace s3) = 21" "entered (trace s3) = [2]" "link_attempts (trace s3) = 1"
    by (auto simp add: a2 n2 poll_output_def beat_s_def quiet_s_def)
  have r3: "run_s ((link_up_s # replicate 22 poll_s) @ [beat_s]) server_init = Some s3"
    unfolding run_s_def using r2 [unfolded run_s_def] p3
    by (simp only: ticks_append option.case ticks.simps)
  have i3: "idle_poll (lastHeartbeat s3) late_poll_s"
    by (simp add: a3 idle_poll_def late_poll_s_def quiet_s_def heartbeatPeriod_def)
  define s4 where "s4 = s3\<lparr>trace := trace s3 @
      poll_output (ConnTriesAfterStateChange s3) (reportToSerialMonitor s3),
      ConnTriesAfterStateChange := ConnTriesAfterStateChange s3 + 1\<rparr>"
  have p4: "loop_s late_poll_s s3 = Some s4"
    unfolding s4_def by (rule idle_pass [OF a3(1) i3])
  have a4: "poll_marks (trace s4) = 22" "entered (trace s4) = [2]" "link_attempts (trace s4) = 1"
    by (simp_all add: s4_def a3 poll_output_def)
  have r4: "run_s ((link_up_s # replicate 22 poll_s) @ [beat_s, late_poll_s]) server_init = Some s4"
    unfolding run_s_def using r2 [unfolded run_s_def] p3 p4
    by (simp only: ticks_append option.case ticks.simps)
  show ?thesis
    by (simp add: r2 r3 [unfolded append_Cons] r4 [unfolded append_Cons] a2 n2 a3 a4)
qed

text \<open>
  Claim C9, as the code has it. A failed accept poll in \<^verbatim>\<open>conn_2_wifiConnected\<close> adds one to
  \<^verbatim>\<open>ConnTriesAfterStateChange\<close> and prints its marks only while the counter, before the
  poll, is at most 20 and reporting is on: from a counter of 0, the first 21 of any number
  of consecutive failed polls are marked (the 21st closes with "...>"), the later ones are
  silent. The counter is put back to 0 by a successful link attempt, by the step from
  \<^verbatim>\<open>conn_3_clientDelayConnection\<close> to \<^verbatim>\<open>conn_2_wifiConnected\<close> (the poll of the same pass
  then counts as the first), and by every heartbeat check whose period has passed; no
  other tick changes it.
\<close>

theorem accept_poll_diagnostics:
  "(connectionState s = conn_2_wifiConnected \<and> \<not> accept_connected e
    \<longrightarrow> connectToClient e s =
          s\<lparr>trace := trace s @
               poll_output (ConnTriesAfterStateChange s) (reportToSerialMonitor s),
            ConnTriesAfterStateChange := ConnTriesAfterStateChange s + 1\<rparr>)
   \<and> (connectionState s = conn_2_wifiConnected \<and> reportToSerialMonitor s
      \<and> ConnTriesAfterStateChange s = 0
      \<and> list_all (idle_poll (lastHeartbeat s)) es \<and> length es < 2 ^ 32
    \<longrightarrow> (\<exists>s'. run_s es s = Some s'
           \<and> poll_marks (trace s') = poll_marks (trace s) + min (length es) 21
           \<and> unat (ConnTriesAfterStateChange s') = length es))
   \<and> (link_attempts (trace (connectToWiFi_s e u)) \<noteq> link_attempts (trace u) \<and> wifi_begin_ok e
    \<longrightarrow> ConnTriesAfterStateChange (connectToWiFi_s e u) = 0)
   \<and> (connectionState v = conn_3_clientDelayConnection
      \<and> \<not> t_conn_check e < clientStopTime v + clientConnectDelay \<and> \<not> accept_connected e
    \<longrightarrow> ConnTriesAfterStateChange (connectToClient e v) = 1
      \<and> trace (connectToClient e v) =
          trace v @ Printf ''(S%d)'' [2] # poll_output 0 (reportToSerialMonitor v))
   \<and> (lastHeartbeat w + heartbeatPeriod < t_hb_check e
    \<longrightarrow> ConnTriesAfterStateChange (heartbeat_s e w) = 0)
   \<and> (\<not> lastHeartbeat y + heartbeatPeriod < t_hb_check e \<longrightarrow> heartbeat_s e y = y)
   \<and> (assembleClientRequest e x = Some x'
    \<longrightarrow> ConnTriesAfterStateChange x' = ConnTriesAfterStateChange x)
   \<and> ConnTriesAfterStateChange (sendResponseToClient e x) = ConnTriesAfterStateChange x
   \<and> ConnTriesAfterStateChange (stopTCPconnection t x) = ConnTriesAfterStateChange x
   \<and> ConnTriesAfterStateChange (lastConnectionReport x) = ConnTriesAfterStateChange x"
proof -
  have c1: "connectionState s = conn_2_wifiConnected \<and> \<not> accept_connected e
    \<longrightarrow> connectToClient e s =
          s\<lparr>trace := trace s @
               poll_output (ConnTriesAfterStateChange s) (reportToSerialMonitor s),
            ConnTriesAfterStateChange := ConnTriesAfterStateChange s + 1\<rparr>"
    by (simp add: connectToClient_def tryClient_failed)
  have c2: "connectionState s = conn_2_wifiConnected \<and> reportToSerialMonitor s
      \<and> ConnTriesAfterStateChange s = 0
      \<and> list_all (idle_poll (lastHeartbeat s)) es \<and> length es < 2 ^ 32
    \<longrightarrow> (\<exists>s'. run_s es s = Some s'
           \<and> poll_marks (trace s') = poll_marks (trace s) + min (length es) 21
           \<and> unat (ConnTriesAfterStateChange s') = length es)"
  proof
    assume h: "connectionState s = conn_2_wifiConnected \<and> reportToSerialMonitor s
      \<and> ConnTriesAfterStateChange s = 0
      \<and> list_all (idle_poll (lastHeartbeat s)) es \<and> length es < 2 ^ 32"
    then have "unat (ConnTriesAfterStateChange s) + length es < 2 ^ 32" by simp
    from idle_passes [OF _ _ _ this] h
    show "\<exists>s'. run_s es s = Some s'
           \<and> poll_marks (trace s') = poll_marks (trace s) + min (length es) 21
           \<and> unat (ConnTriesAfterStateChange s') = length es"
      by auto
  qed
  have c3: "link_attempts (trace (connectToWiFi_s e u)) \<noteq> link_attempts (trace u) \<and> wifi_begin_ok e
    \<longrightarrow> ConnTriesAfterStateChange (connectToWiFi_s e u) = 0"
    by (cases "connectionState u")
      (simp_all add: connectToWiFi_s_def tryWiFi_s_def step_defs)
  have c4: "connectionState v = conn_3_clientDelayConnection
      \<and> \<not> t_conn_check e < clientStopTime v + clientConnectDelay \<and> \<not> accept_connected e
    \<longrightarrow> ConnTriesAfterStateChange (connectToClient e v) = 1
      \<and> trace (connectToClient e v) =
          trace v @ Printf ''(S%d)'' [2] # poll_output 0 (reportToSerialMonitor v)"
    by (simp add: connectToClient_def tryClient_failed step_defs)
  have c5: "lastHeartbeat w + heartbeatPeriod < t_hb_check e
    \<longrightarrow> ConnTriesAfterStateChange (heartbeat_s e w) = 0"
    by (simp add: heartbeat_s_def step_defs)
  have c6: "\<not> lastHeartbeat y + heartbeatPeriod < t_hb_check e \<longrightarrow> heartbeat_s e y = y"
    by (simp add: heartbeat_s_def)
  have c7: "assembleClientRequest e x = Some x'
    \<longrightarrow> ConnTriesAfterStateChange x' = ConnTriesAfterStateChange x"
    by (auto simp add: assembleClientRequest_def step_defs split: if_splits option.splits)
  have c8: "ConnTriesAfterStateChange (sendResponseToClient e x) = ConnTriesAfterStateChange x"
    by (simp add: sendResponseToClient_def step_defs)
  have c9: "ConnTriesAfterStateChange (stopTCPconnection t x) = ConnTriesAfterStateChange x"
    by (simp add: stopTCPconnection_def step_defs)
  have c10: "ConnTriesAfterStateChange (lastConnectionReport x) = ConnTriesAfterStateChange x"
    by (simp add: lastConnectionReport_def step_defs)
  show ?thesis
    by (rule conjI [OF c1 conjI [OF c2 conjI [OF c3 conjI [OF c4 conjI [OF c5
          conjI [OF c6 conjI [OF c7 conjI [OF c8 conjI [OF c9 c10]]]]]]]]])
qed

theorem accept_poll_diagnostics_witness:
  "connectionState polling_s = conn_2_wifiConnected \<and> \<not> accept_connected all_due_s
   \<and> trace (connectToClient all_due_s polling_s) =
        trace polling_s @ [Print ''<'', ServerAvailable, Print ''>'']
   \<and> reportToSerialMonitor polling_s \<and> ConnTriesAfterStateChange polling_s = 0
   \<and> list_all (idle_poll (lastHeartbeat polling_s)) (replicate 25 poll_s)
   \<and> length (replicate 25 poll_s) < 2 ^ 32
   \<and> (\<exists>s'. run_s (replicate 25 poll_s) polling_s = Some s'
         \<and> poll_marks (trace s') = poll_marks (trace polling_s) + 21
         \<and> unat (ConnTriesAfterStateChange s') = 25)
   \<and> link_attempts (trace (connectToWiFi_s all_due_s retry_wait_s))
        \<noteq> link_attempts (trace retry_wait_s)
   \<and> wifi_begin_ok all_due_s
   \<and> ConnTriesAfterStateChange (connectToWiFi_s all_due_s retry_wait_s) = 0
   \<and> connectionState stopped_s = conn_3_clientDelayConnection
   \<and> \<not> t_conn_check all_due_s < clientStopTime stopped_s + clientConnectDelay
   \<and> ConnTriesAfterStateChange (connectToClient all_due_s stopped_s) = 1
   \<and> lastHeartbeat polling_s + heartbeatPeriod < t_hb_check all_due_s
   \<and> ConnTriesAfterStateChange (heartbeat_s all_due_s polling_s) = 0
   \<and> \<not> lastHeartbeat (polling_s\<lparr>lastHeartbeat := 7000\<rparr>) + heartbeatPeriod
          < t_hb_check all_due_s
   \<and> heartbeat_s all_due_s (polling_s\<lparr>lastHeartbeat := 7000\<rparr>)
        = polling_s\<lparr>lastHeartbeat := 7000\<rparr>
   \<and> assembleClientRequest all_due_s server_init = Some server_init"
proof -
  have h1: "connectionState polling_s = conn_2_wifiConnected" "\<not> accept_connected all_due_s"
    "reportToSerialMonitor polling_s" "ConnTriesAfterStateChange polling_s = 0"
    by (simp_all add: polling_s_def server_init_def all_due_s_def quiet_s_def)
  have h2: "list_all (idle_poll (lastHeartbeat polling_s)) (replicate 25 poll_s)"
    "length (replicate 25 poll_s) < 2 ^ 32"
    by (simp_all add: list_all_iff polling_s_def server_init_def idle_poll_def poll_s_def
        quiet_s_def heartbeatPeriod_def)
  have h3: "link_attempts (trace (connectToWiFi_s all_due_s retry_wait_s))
        \<noteq> link_attempts (trace retry_wait_s)" "wifi_begin_ok all_due_s"
    by (simp_all add: retry_wait_s_def all_due_s_def quiet_s_def server_defs)
  have h4: "connectionState stopped_s = conn_3_clientDelayConnection"
    "\<not> t_conn_check all_due_s < clientStopTime stopped_s + clientConnectDelay"
    by (simp_all add: stopped_s_def server_init_def all_due_s_def quiet_s_def
        clientConnectDelay_def)
  have h5: "lastHeartbeat polling_s + heartbeatPeriod < t_hb_check all_due_s"
    "\<not> lastHeartbeat (polling_s\<lparr>lastHeartbeat := 7000\<rparr>) + heartbeatPeriod
          < t_hb_check all_due_s"
    by (simp_all add: polling_s_def server_init_def all_due_s_def quiet_s_def
        heartbeatPeriod_def)
  have h7: "assembleClientRequest all_due_s server_init = Some server_init"
    by (simp add: assembleClientRequest_def server_init_def)
  note t = accept_poll_diagnostics [of polling_s all_due_s "replicate 25 poll_s" retry_wait_s
      stopped_s polling_s "polling_s\<lparr>lastHeartbeat := 7000\<rparr>" server_init server_init 0]
  from t h1 have b1: "trace (connectToClient all_due_s polling_s) =
        trace polling_s @ [Print ''<'', ServerAvailable, Print ''>'']"
    by (simp add: poll_output_def)
  from t h1 h2 have b2: "\<exists>s'. run_s (replicate 25 poll_s) polling_s = Some s'
         \<and> poll_marks (trace s') = poll_marks (trace polling_s) + 21
         \<and> unat (ConnTriesAfterStateChange s') = 25"
    by simp
  from t h3 have b3: "ConnTriesAfterStateChange (connectToWiFi_s all_due_s retry_wait_s) = 0"
    by blast
  from t h4 h1(2) have b4: "ConnTriesAfterStateChange (connectToClient all_due_s stopped_s) = 1"
    by blast
  from t h5(1) have b5: "ConnTriesAfterStateChange (heartbeat_s all_due_s polling_s) = 0"
    by blast
  from t h5(2) have b6: "heartbeat_s all_due_s (polling_s\<lparr>lastHeartbeat := 7000\<rparr>)
        = polling_s\<lparr>lastHeartbeat := 7000\<rparr>"
    by blast
  show ?thesis
    by (rule conjI [OF h1(1) conjI [OF h1(2) conjI [OF b1 conjI [OF h1(3) conjI [OF h1(4)
          conjI [OF h2(1) conjI [OF h2(2) conjI [OF b2 conjI [OF h3(1) conjI [OF h3(2)
          conjI [OF b3 conjI [OF h4(1) conjI [OF h4(2) conjI [OF b4 conjI [OF h5(1)
          conjI [OF b5 conjI [OF h5(2) conjI [OF b6 h7]]]]]]]]]]]]]]]]]])
qed

section \<open>Heartbeat\<close>

text \<open>
  Claim C8. The claim says that the heartbeat fires only when the clock has reached the
  time of the last heartbeat plus \<^verbatim>\<open>heartbeatPeriod\<close>. The sketches compare the sum
  \<^verbatim>\<open>lastHeartbeat + heartbeatPeriod\<close>, taken in \<^verbatim>\<open>unsigned long\<close>, with the clock: with
  the last heartbeat at 4294966796 the sum wraps around to 500, and a pass 100 ms later,
  at 4294966896, prints the heartbeat again, in the client and in the server.
\<close>

theorem heartbeat_fires_early_at_wrap:
  "lastHeartbeat late_c = 4294966796
   \<and> t_hb_check late_beat_c = 4294966896
   \<and> unat (t_hb_check late_beat_c) < unat (lastHeartbeat late_c) + unat heartbeatPeriod
   \<and> lastHeartbeat late_c + heartbeatPeriod = 500
   \<and> trace (heartbeat_c late_beat_c late_c) =
        trace late_c @ [Printf ''******** Heartbeat - connection state is S%d at '' [5], PrintSecs]
   \<and> lastHeartbeat (heartbeat_c late_beat_c late_c) = 4294966897
   \<and> lastHeartbeat late_s = 4294966796
   \<and> t_hb_check late_beat_s = 4294966896
   \<and> unat (t_hb_check late_beat_s) < unat (lastHeartbeat late_s) + unat heartbeatPeriod
   \<and> trace (heartbeat_s late_beat_s late_s) =
        trace late_s @ [Println [],
          Printf ''******** Heartbeat - connection state is S%d at '' [4], PrintSecs]
   \<and> lastHeartbeat (heartbeat_s late_beat_s late_s) = 4294966897"
  by (simp add: late_c_def late_s_def late_beat_c_def late_beat_s_def waiting_c_def waiting_s_def
      client_init_def server_init_def quiet_c_def quiet_s_def heartbeat_c_def heartbeat_s_def
      step_defs heartbeatPeriod_def reportingTimeout_def)

lemma retriggers_simps [simp]:
  "retriggers [] = 0"
  "retriggers (ev # tr) =
     (if ev = WiFiBegin \<or> ev = Print (LF # ''connected to client at '') then 1 else 0)
       + retriggers tr"
  "retriggers (xs @ ys) = retriggers xs + retriggers ys"
  by (auto simp add: retriggers_def)

lemma past_due:
  fixes a d n :: ulong
  assumes "unat a + unat d < unat n"
  shows "a + d < n"
  using assms by (simp add: word_less_nat_alt unat_word_ariths)

lemma due_no_wrap:
  fixes a d n :: ulong
  assumes "a + d < n" and "unat a + unat d < 2 ^ 32"
  shows "unat a + unat d < unat n"
  using assms by (simp add: word_less_nat_alt unat_word_ariths)

lemma window_closed:
  fixes a d n :: ulong
  assumes "unat a + unat d \<le> unat n"
  shows "\<not> n < a + d"
  using assms by (simp add: word_less_nat_alt unat_word_ariths)

lemma heartbeat_c_due:
  "heartbeats (trace (heartbeat_c e s)) =
     heartbeats (trace s) + (if lastHeartbeat s + heartbeatPeriod < t_hb_check e then 1 else 0)
   \<and> lastHeartbeat (heartbeat_c e s) =
     (if lastHeartbeat s + heartbeatPeriod < t_hb_check e then t_hb_done e else lastHeartbeat s)"
  by (simp add: heartbeat_c_def step_defs)

lemma heartbeat_s_due:
  "heartbeats (trace (heartbeat_s e s)) =
     heartbeats (trace s)
       + (if lastHeartbeat s + heartbeatPeriod < t_hb_check e
             \<and> t_hb_window e < reportingStartTime s + reportingTimeout then 1 else 0)
   \<and> announcements (trace (heartbeat_s e s)) =
     announcements (trace s)
       + (if lastHeartbeat s + heartbeatPeriod < t_hb_check e
             \<and> \<not> t_hb_window e < reportingStartTime s + reportingTimeout
             \<and> reportToSerialMonitor s then 1 else 0)
   \<and> reportToSerialMonitor (heartbeat_s e s) =
     (reportToSerialMonitor s
       \<and> \<not> (lastHeartbeat s + heartbeatPeriod < t_hb_check e
             \<and> \<not> t_hb_window e < reportingStartTime s + reportingTimeout))
   \<and> retriggers (trace (heartbeat_s e s)) = retriggers (trace s)"
  by (simp add: heartbeat_s_def step_defs LF_def)

lemma heartbeat_s_silent:
  assumes "\<not> reportToSerialMonitor s"
    and "\<not> t_hb_window e < reportingStartTime s + reportingTimeout"
  shows "trace (heartbeat_s e s) = trace s"
  using assms by (simp add: heartbeat_s_def step_defs)

text \<open>The suppression is announced at most once for each time reporting is put back on.\<close>

lemma wifi_s_announce:
  "announcements (trace (connectToWiFi_s e s)) = announcements (trace s)
   \<and> reporting (connectToWiFi_s e s) + retriggers (trace s)
        \<le> reporting s + retriggers (trace (connectToWiFi_s e s))"
  by (simp add: connectToWiFi_s_def tryWiFi_s_def step_defs reporting_def LF_def
      split: ConnectionState_type.split)

lemma tryClient_announce:
  "announcements (trace (tryClient e s)) = announcements (trace s)
   \<and> reporting (tryClient e s) + retriggers (trace s)
        \<le> reporting s + retriggers (trace (tryClient e s))"
  by (simp add: tryClient_def step_defs reporting_def LF_def)

lemma client_s_announce:
  "announcements (trace (connectToClient e s)) = announcements (trace s)
   \<and> reporting (connectToClient e s) + retriggers (trace s)
        \<le> reporting s + retriggers (trace (connectToClient e s))"
proof -
  have "reporting (changeConnectionState st x) = reporting x
      \<and> retriggers (trace (changeConnectionState st x)) = retriggers (trace x)
      \<and> announcements (trace (changeConnectionState st x)) = announcements (trace x)"
    for st and x :: server
    by (simp add: step_defs reporting_def)
  moreover have "reporting (x\<lparr>ConnTriesAfterStateChange := 0\<rparr>) = reporting x
      \<and> trace (x\<lparr>ConnTriesAfterStateChange := 0\<rparr>) = trace x" for x :: server
    by (simp add: reporting_def)
  ultimately show ?thesis
    using tryClient_announce [of e s]
      tryClient_announce [of e "changeConnectionState conn_2_wifiConnected
        (s\<lparr>ConnTriesAfterStateChange := 0\<rparr>)"]
    by (simp add: connectToClient_def split: ConnectionState_type.split)
      (simp add: step_defs reporting_def LF_def)
qed

lemma assemble_s_announce:
  assumes "assembleClientRequest e s = Some s'"
  shows "announcements (trace s') = announcements (trace s)
    \<and> reporting s' = reporting s \<and> retriggers (trace s') = retriggers (trace s)"
  using assms
  by (auto simp add: assembleClientRequest_def step_defs reporting_def cstr_def LF_def CR_def
      split: if_splits option.splits)

lemma rest_s_announce:
  "announcements (trace (lastConnectionReport (stopTCPconnection t (sendResponseToClient e s))))
     = announcements (trace s)
   \<and> reporting (lastConnectionReport (stopTCPconnection t (sendResponseToClient e s)))
     = reporting s
   \<and> retriggers (trace (lastConnectionReport (stopTCPconnection t (sendResponseToClient e s))))
     = retriggers (trace s)"
  by (simp add: lastConnectionReport_def stopTCPconnection_def sendResponseToClient_def
      step_defs reporting_def LF_def)

lemma loop_s_announce:
  assumes "loop_s e s = Some s'"
  shows "announcements (trace s') + reporting s' + retriggers (trace s)
      \<le> announcements (trace s) + reporting s + retriggers (trace s')"
proof -
  define s1 where "s1 = connectToWiFi_s e s"
  define s2 where "s2 = connectToClient e s1"
  from assms obtain s3 where a: "assembleClientRequest e s2 = Some s3"
    and s': "s' = heartbeat_s e (lastConnectionReport
                (stopTCPconnection (t_stop e) (sendResponseToClient e s3)))"
    by (auto simp add: loop_s_def s1_def s2_def split: option.splits)
  define s6 where "s6 = lastConnectionReport
      (stopTCPconnection (t_stop e) (sendResponseToClient e s3))"
  have 1: "announcements (trace s1) = announcements (trace s)"
    "reporting s1 + retriggers (trace s) \<le> reporting s + retriggers (trace s1)"
    using wifi_s_announce [of e s] by (simp_all add: s1_def)
  have 2: "announcements (trace s2) = announcements (trace s1)"
    "reporting s2 + retriggers (trace s1) \<le> reporting s1 + retriggers (trace s2)"
    using client_s_announce [of e s1] by (simp_all add: s2_def)
  have 3: "announcements (trace s6) = announcements (trace s2)"
    "reporting s6 = reporting s2" "retriggers (trace s6) = retriggers (trace s2)"
    using assemble_s_announce [OF a] rest_s_announce [of "t_stop e" e s3]
    by (simp_all add: s6_def)
  have 4: "announcements (trace s') + reporting s' \<le> announcements (trace s6) + reporting s6"
    "retriggers (trace s') = retriggers (trace s6)"
    using heartbeat_s_due [of e s6] by (auto simp add: s' s6_def reporting_def)
  from 1 2 3 4 show ?thesis by linarith
qed

lemma run_s_announce:
  assumes "run_s es s = Some s'"
  shows "announcements (trace s') + reporting s' + retriggers (trace s)
      \<le> announcements (trace s) + reporting s + retriggers (trace s')"
  using assms unfolding run_s_def
proof (induction es arbitrary: s)
  case Nil
  then show ?case by simp
next
  case (Cons e es)
  then obtain s1 where p: "loop_s e s = Some s1" and r: "ticks loop_s es s1 = Some s'"
    by (auto split: option.splits)
  from loop_s_announce [OF p] Cons.IH [OF r] show ?case by linarith
qed

text \<open>
  The parts of the heartbeat's contract that hold: without wrap-around of the sum the
  heartbeat fires only after its period; the client emits whenever the period has passed;
  the server emits nothing once the reporting window is closed, announces that once, and
  over any run announces it at most once for each time reporting was put back on.
\<close>

lemma heartbeat_reporting:
  "(heartbeats (trace (heartbeat_c ce c)) \<noteq> heartbeats (trace c)
      \<and> unat (lastHeartbeat c) + unat heartbeatPeriod < 2 ^ 32
    \<longrightarrow> unat (lastHeartbeat c) + unat heartbeatPeriod < unat (t_hb_check ce))
   \<and> (unat (lastHeartbeat c) + unat heartbeatPeriod < unat (t_hb_check ce)
    \<longrightarrow> heartbeats (trace (heartbeat_c ce c)) = heartbeats (trace c) + 1
      \<and> lastHeartbeat (heartbeat_c ce c) = t_hb_done ce)
   \<and> (heartbeats (trace (heartbeat_s se s)) \<noteq> heartbeats (trace s)
      \<and> unat (lastHeartbeat s) + unat heartbeatPeriod < 2 ^ 32
    \<longrightarrow> unat (lastHeartbeat s) + unat heartbeatPeriod < unat (t_hb_check se))
   \<and> (unat (reportingStartTime s) + unat reportingTimeout \<le> unat (t_hb_window se)
    \<longrightarrow> heartbeats (trace (heartbeat_s se s)) = heartbeats (trace s))
   \<and> (unat (reportingStartTime s) + unat reportingTimeout \<le> unat (t_hb_window se)
      \<and> unat (lastHeartbeat s) + unat heartbeatPeriod < unat (t_hb_check se)
    \<longrightarrow> announcements (trace (heartbeat_s se s)) =
          announcements (trace s) + (if reportToSerialMonitor s then 1 else 0)
      \<and> \<not> reportToSerialMonitor (heartbeat_s se s))
   \<and> (unat (reportingStartTime s) + unat reportingTimeout \<le> unat (t_hb_window se)
      \<and> \<not> reportToSerialMonitor s
    \<longrightarrow> trace (heartbeat_s se s) = trace s)
   \<and> (run_s es s = Some s' \<and> retriggers (trace s') = retriggers (trace s)
    \<longrightarrow> announcements (trace s') \<le> announcements (trace s) + reporting s)"
proof -
  have c1: "heartbeats (trace (heartbeat_c ce c)) \<noteq> heartbeats (trace c)
      \<and> unat (lastHeartbeat c) + unat heartbeatPeriod < 2 ^ 32
    \<longrightarrow> unat (lastHeartbeat c) + unat heartbeatPeriod < unat (t_hb_check ce)"
    using heartbeat_c_due [of ce c] due_no_wrap [of "lastHeartbeat c" heartbeatPeriod "t_hb_check ce"]
    by (auto split: if_splits)
  have c2: "unat (lastHeartbeat c) + unat heartbeatPeriod < unat (t_hb_check ce)
    \<longrightarrow> heartbeats (trace (heartbeat_c ce c)) = heartbeats (trace c) + 1
      \<and> lastHeartbeat (heartbeat_c ce c) = t_hb_done ce"
    using heartbeat_c_due [of ce c] past_due [of "lastHeartbeat c" heartbeatPeriod "t_hb_check ce"]
    by auto
  have c3: "heartbeats (trace (heartbeat_s se s)) \<noteq> heartbeats (trace s)
      \<and> unat (lastHeartbeat s) + unat heartbeatPeriod < 2 ^ 32
    \<longrightarrow> unat (lastHeartbeat s) + unat heartbeatPeriod < unat (t_hb_check se)"
    using heartbeat_s_due [of se s] due_no_wrap [of "lastHeartbeat s" heartbeatPeriod "t_hb_check se"]
    by (auto split: if_splits)
  have c4: "unat (reportingStartTime s) + unat reportingTimeout \<le> unat (t_hb_window se)
    \<longrightarrow> heartbeats (trace (heartbeat_s se s)) = heartbeats (trace s)"
    using heartbeat_s_due [of se s]
      window_closed [of "reportingStartTime s" reportingTimeout "t_hb_window se"]
    by auto
  have c5: "unat (reportingStartTime s) + unat reportingTimeout \<le> unat (t_hb_window se)
      \<and> unat (lastHeartbeat s) + unat heartbeatPeriod < unat (t_hb_check se)
    \<longrightarrow> announcements (trace (heartbeat_s se s)) =
          announcements (trace s) + (if reportToSerialMonitor s then 1 else 0)
      \<and> \<not> reportToSerialMonitor (heartbeat_s se s)"
    using heartbeat_s_due [of se s]
      window_closed [of "reportingStartTime s" reportingTimeout "t_hb_window se"]
      past_due [of "lastHeartbeat s" heartbeatPeriod "t_hb_check se"]
    by auto
  have c6: "unat (reportingStartTime s) + unat reportingTimeout \<le> unat (t_hb_window se)
      \<and> \<not> reportToSerialMonitor s
    \<longrightarrow> trace (heartbeat_s se s) = trace s"
    using heartbeat_s_silent [of s se]
      window_closed [of "reportingStartTime s" reportingTimeout "t_hb_window se"]
    by auto
  have c7: "run_s es s = Some s' \<and> retriggers (trace s') = retriggers (trace s)
    \<longrightarrow> announcements (trace s') \<le> announcements (trace s) + reporting s"
    using run_s_announce [of es s s'] by auto
  show ?thesis
    by (rule conjI [OF c1 conjI [OF c2 conjI [OF c3 conjI [OF c4 conjI [OF c5
          conjI [OF c6 c7]]]]]])
qed

end
